(* ===== verification/Prelude.thy ===== *)
theory Prelude
  imports Main "HOL-Library.AList" "HOL-Library.Sublist"
begin

text \<open>
  The shared vocabulary of the development.

  JavaScript values that every component uses are fixed here once: strings are lists of 8-bit
  characters, a JavaScript Map is an association list kept in insertion order (the library's
  AList.update keeps the place of a key that is there and appends a new one, which is what
  Map.prototype.set does), a computation that may throw and that changes its surroundings is a
  function from a world to a sum (the left summand is the thrown value) and the new world.

  The locale ordered_map states what the components rely on of a Map; it is interpreted on the
  association lists that model it.
\<close>

named_theorems io_simps
named_theorems omap_simps
named_theorems js_simps

section \<open>Computations that throw and change the world\<close>

type_synonym ('s, 'e, 'a) io = "'s \<Rightarrow> ('e + 'a) \<times> 's"

definition io_return :: "'a \<Rightarrow> ('s, 'e, 'a) io" where
  "io_return x = (\<lambda>s. (Inr x, s))"

definition io_throw :: "'e \<Rightarrow> ('s, 'e, 'a) io" where
  "io_throw e = (\<lambda>s. (Inl e, s))"

definition io_bind :: "('s, 'e, 'a) io \<Rightarrow> ('a \<Rightarrow> ('s, 'e, 'b) io) \<Rightarrow> ('s, 'e, 'b) io" where
  "io_bind m f = (\<lambda>s. case m s of (Inl e, s') \<Rightarrow> (Inl e, s') | (Inr x, s') \<Rightarrow> f x s')"

definition io_catch :: "('s, 'e, 'a) io \<Rightarrow> ('e \<Rightarrow> ('s, 'e, 'a) io) \<Rightarrow> ('s, 'e, 'a) io" where
  "io_catch m h = (\<lambda>s. case m s of (Inl e, s') \<Rightarrow> h e s' | (Inr x, s') \<Rightarrow> (Inr x, s'))"

definition io_lift :: "('e + 'a) \<Rightarrow> ('s, 'e, 'a) io" where
  "io_lift r = (\<lambda>s. (r, s))"

lemma io_return_apply [io_simps, simp]: "io_return x s = (Inr x, s)"
  by (simp add: io_return_def)

lemma io_throw_apply [io_simps, simp]: "io_throw e s = (Inl e, s)"
  by (simp add: io_throw_def)

lemma io_lift_apply [io_simps, simp]: "io_lift r s = (r, s)"
  by (simp add: io_lift_def)

lemma io_bind_return [io_simps, simp]: "io_bind (io_return x) f = f x"
  by (simp add: io_bind_def fun_eq_iff)

lemma io_bind_throw [io_simps, simp]: "io_bind (io_throw e) f = io_throw e"
  by (simp add: io_bind_def fun_eq_iff)

lemma io_bind_lift_Inr [io_simps, simp]: "io_bind (io_lift (Inr x)) f = f x"
  by (simp add: io_bind_def fun_eq_iff)

lemma io_bind_lift_Inl [io_simps, simp]: "io_bind (io_lift (Inl e)) f = io_throw e"
  by (simp add: io_bind_def fun_eq_iff)

lemma io_catch_return [io_simps, simp]: "io_catch (io_return x) h = io_return x"
  by (simp add: io_catch_def fun_eq_iff)

lemma io_catch_throw [io_simps, simp]: "io_catch (io_throw e) h = h e"
  by (simp add: io_catch_def fun_eq_iff)

lemma io_bind_assoc: "io_bind (io_bind m f) g = io_bind m (\<lambda>x. io_bind (f x) g)"
  by (auto simp: io_bind_def fun_eq_iff split: prod.splits sum.splits)

lemma io_bind_cong [fundef_cong]:
  assumes "m s = m' s'" "\<And>x t. m' s' = (Inr x, t) \<Longrightarrow> f x t = f' x t" "s = s'"
  shows "io_bind m f s = io_bind m' f' s'"
  using assms by (auto simp: io_bind_def split: prod.splits sum.splits)

lemma io_bind_eq_Inr:
  "io_bind m f s = (Inr y, s') \<longleftrightarrow> (\<exists>x t. m s = (Inr x, t) \<and> f x t = (Inr y, s'))"
  by (auto simp: io_bind_def split: prod.splits sum.splits)

fun io_for :: "('a \<Rightarrow> ('s, 'e, unit) io) \<Rightarrow> 'a list \<Rightarrow> ('s, 'e, unit) io" where
  "io_for f [] = io_return ()"
| "io_for f (x # xs) = io_bind (f x) (\<lambda>_. io_for f xs)"

definition on_cell :: "('s, 'e, 'a) io \<Rightarrow> ('c \<times> 's, 'e, 'a) io" where
  "on_cell m = (\<lambda>(c, s). case m s of (res, s') \<Rightarrow> (res, (c, s')))"

lemma on_cell_apply [simp]: "on_cell m (c, s) = (case m s of (res, s') \<Rightarrow> (res, (c, s')))"
  by (simp add: on_cell_def)

definition io_finally :: "('s, 'e, 'a) io \<Rightarrow> ('s, 'e, unit) io \<Rightarrow> ('s, 'e, 'a) io" where
  "io_finally m f = (\<lambda>s. case m s of (res, s') \<Rightarrow> (case f s' of (Inl e, t) \<Rightarrow> (Inl e, t) | (Inr _, t) \<Rightarrow> (res, t)))"

lemma io_finally_runs: "snd (io_finally m f s) = snd (f (snd (m s)))"
  by (auto simp: io_finally_def split: prod.splits sum.splits)

definition dflt :: "'a option \<Rightarrow> 'a \<Rightarrow> 'a" where
  "dflt v d = (case v of None \<Rightarrow> d | Some x \<Rightarrow> x)"

definition res_bind :: "'e + 'a \<Rightarrow> ('a \<Rightarrow> 'e + 'b) \<Rightarrow> 'e + 'b" where
  "res_bind m f = (case m of Inl e \<Rightarrow> Inl e | Inr x \<Rightarrow> f x)"

lemma res_bind_simps [io_simps, simp]: "res_bind (Inl e) f = Inl e" "res_bind (Inr x) f = f x"
  by (simp_all add: res_bind_def)

lemma res_bind_eq_Inr: "res_bind m f = Inr y \<longleftrightarrow> (\<exists>x. m = Inr x \<and> f x = Inr y)"
  by (cases m) simp_all

section \<open>Ordered maps\<close>

type_synonym ('k, 'v) omap = "('k \<times> 'v) list"

definition om_get :: "('k, 'v) omap \<Rightarrow> 'k \<Rightarrow> 'v option" where
  "om_get m k = map_of m k"

definition om_has :: "('k, 'v) omap \<Rightarrow> 'k \<Rightarrow> bool" where
  "om_has m k \<longleftrightarrow> om_get m k \<noteq> None"

definition om_set :: "'k \<Rightarrow> 'v \<Rightarrow> ('k, 'v) omap \<Rightarrow> ('k, 'v) omap" where
  "om_set k v m = AList.update k v m"

definition om_del :: "'k \<Rightarrow> ('k, 'v) omap \<Rightarrow> ('k, 'v) omap" where
  "om_del k m = AList.delete k m"

definition om_keys :: "('k, 'v) omap \<Rightarrow> 'k list" where
  "om_keys m = map fst m"

definition om_ok :: "('k, 'v) omap \<Rightarrow> bool" where
  "om_ok m \<longleftrightarrow> distinct (map fst m)"

lemma om_get_nil [omap_simps, simp]: "om_get [] k = None"
  by (simp add: om_get_def)

lemma om_get_cons [omap_simps]:
  "om_get ((k, v) # m) k' = (if k = k' then Some v else om_get m k')"
  by (simp add: om_get_def)

lemma om_get_set [omap_simps, simp]:
  "om_get (om_set k v m) k' = (if k' = k then Some v else om_get m k')"
  by (simp add: om_get_def om_set_def update_conv')

lemma om_get_del [omap_simps, simp]:
  "om_get (om_del k m) k' = (if k' = k then None else om_get m k')"
  by (simp add: om_get_def om_del_def delete_conv')

lemma om_has_set [omap_simps, simp]: "om_has (om_set k v m) k' \<longleftrightarrow> k' = k \<or> om_has m k'"
  by (simp add: om_has_def)

lemma om_has_del [omap_simps, simp]: "om_has (om_del k m) k' \<longleftrightarrow> k' \<noteq> k \<and> om_has m k'"
  by (simp add: om_has_def)

lemma om_has_keys: "om_has m k \<longleftrightarrow> k \<in> set (om_keys m)"
  by (simp add: om_has_def om_get_def om_keys_def map_of_eq_None_iff)

lemma om_keys_set:
  "om_keys (om_set k v m) = (if k \<in> set (om_keys m) then om_keys m else om_keys m @ [k])"
  by (induction m) (auto simp: om_keys_def om_set_def)

lemma om_set_keys_set [omap_simps, simp]: "set (om_keys (om_set k v m)) = insert k (set (om_keys m))"
  by (auto simp: om_keys_set)

lemma om_keys_del [omap_simps]: "om_keys (om_del k m) = filter (\<lambda>x. x \<noteq> k) (om_keys m)"
  by (induction m) (auto simp: om_keys_def om_del_def AList.delete_eq)

lemma om_ok_nil [omap_simps, simp]: "om_ok []"
  by (simp add: om_ok_def)

lemma om_ok_set [omap_simps, simp]: "om_ok m \<Longrightarrow> om_ok (om_set k v m)"
  by (simp add: om_ok_def om_set_def distinct_update)

lemma om_ok_del [omap_simps, simp]: "om_ok m \<Longrightarrow> om_ok (om_del k m)"
  by (simp add: om_ok_def om_del_def distinct_delete)

lemma om_set_new: "\<not> om_has m k \<Longrightarrow> om_set k v m = m @ [(k, v)]"
  unfolding om_has_def om_get_def om_set_def
  by (induction m) (auto split: if_splits)

lemma om_del_absent: "\<not> om_has m k \<Longrightarrow> om_del k m = m"
  unfolding om_has_def om_get_def om_del_def
  by (induction m) (auto split: if_splits)

lemma om_del_set [omap_simps, simp]: "om_del k (om_set k v m) = om_del k m"
  unfolding om_del_def om_set_def
  by (induction m) auto

lemma om_length_del:
  assumes "om_ok m" "om_has m k"
  shows "length (om_del k m) = length m - 1"
proof -
  have "length (om_del k m) = length (filter (\<lambda>x. x \<noteq> k) (om_keys m))"
    by (simp add: om_keys_del [symmetric] om_keys_def [of "om_del k m"])
  also have "\<dots> = card (set (om_keys m) - {k})"
    using assms(1) by (subst distinct_card [symmetric])
      (auto simp: om_ok_def om_keys_def intro!: arg_cong [where f = card])
  also have "\<dots> = length m - 1"
    using assms distinct_card [of "om_keys m"]
    by (simp add: om_has_keys om_ok_def om_keys_def)
  finally show ?thesis .
qed

locale ordered_map =
  fixes get :: "'m \<Rightarrow> 'k \<Rightarrow> 'v option"
    and put :: "'k \<Rightarrow> 'v \<Rightarrow> 'm \<Rightarrow> 'm"
    and del :: "'k \<Rightarrow> 'm \<Rightarrow> 'm"
    and keys :: "'m \<Rightarrow> 'k list"
    and ok :: "'m \<Rightarrow> bool"
  assumes get_put: "get (put k v m) k' = (if k' = k then Some v else get m k')"
    and get_del: "get (del k m) k' = (if k' = k then None else get m k')"
    and keys_get: "k \<in> set (keys m) \<longleftrightarrow> get m k \<noteq> None"
    and keys_put: "keys (put k v m) = (if k \<in> set (keys m) then keys m else keys m @ [k])"
    and keys_del: "keys (del k m) = filter (\<lambda>x. x \<noteq> k) (keys m)"
    and ok_put: "ok m \<Longrightarrow> ok (put k v m)"
    and ok_del: "ok m \<Longrightarrow> ok (del k m)"
    and ok_distinct: "ok m \<longleftrightarrow> distinct (keys m)"
begin

lemma put_put_get: "get (put k v (put k w m)) = get (put k v m)"
  by (auto simp: get_put fun_eq_iff)

lemma move_to_end: "keys (put k v (del k m)) = filter (\<lambda>x. x \<noteq> k) (keys m) @ [k]"
  by (simp add: keys_put keys_del)

lemma fold_put_get:
  "get (fold (\<lambda>(k, v). put k v) ps m) k =
    (case map_of (rev ps) k of None \<Rightarrow> get m k | Some v \<Rightarrow> Some v)"
  by (induction ps arbitrary: m)
    (auto simp: get_put map_add_def split: option.splits)

lemma fold_put_ok: "ok m \<Longrightarrow> ok (fold (\<lambda>(k, v). put k v) ps m)"
  by (induction ps arbitrary: m) (auto simp: ok_put)

end

interpretation om: ordered_map om_get om_set om_del om_keys om_ok
proof unfold_locales
  show "k \<in> set (om_keys m) \<longleftrightarrow> om_get m k \<noteq> None" for k and m :: "('a, 'b) omap"
    by (simp add: om_has_keys [symmetric] om_has_def)
qed (simp_all add: om_keys_set om_keys_del, simp add: om_ok_def om_keys_def)

section \<open>Strings\<close>

definition js_lower_char :: "char \<Rightarrow> char" where
  "js_lower_char c = (if 65 \<le> (of_char c :: nat) \<and> (of_char c :: nat) \<le> 90
    then char_of ((of_char c :: nat) + 32) else c)"

definition js_lower :: "string \<Rightarrow> string" where
  "js_lower s = map js_lower_char s"

definition js_space :: "char \<Rightarrow> bool" where
  "js_space c \<longleftrightarrow> (of_char c :: nat) \<in> {9, 10, 11, 12, 13, 32, 160}"

definition js_trim :: "string \<Rightarrow> string" where
  "js_trim s = rev (dropWhile js_space (rev (dropWhile js_space s)))"

fun js_join :: "'a list \<Rightarrow> 'a list list \<Rightarrow> 'a list" where
  "js_join sep [] = []"
| "js_join sep [x] = x"
| "js_join sep (x # y # ys) = x @ sep @ js_join sep (y # ys)"

fun js_split :: "'a \<Rightarrow> 'a list \<Rightarrow> 'a list list" where
  "js_split c [] = [[]]"
| "js_split c (x # xs) =
    (if x = c then [] # js_split c xs
     else (case js_split c xs of [] \<Rightarrow> [[x]] | p # ps \<Rightarrow> (x # p) # ps))"

lemma js_split_ne [simp, js_simps]: "js_split c xs \<noteq> []"
  by (induction xs) (auto split: list.splits)

lemma js_lower_char_idem [simp]: "js_lower_char (js_lower_char c) = js_lower_char c"
proof -
  have "(of_char (char_of ((of_char c :: nat) + 32)) :: nat) = of_char c + 32"
    if "(of_char c :: nat) \<le> 90"
    using that by (simp add: of_char_of take_bit_eq_mod)
  then show ?thesis
    by (auto simp: js_lower_char_def)
qed

lemma js_lower_idem [simp, js_simps]: "js_lower (js_lower s) = js_lower s"
  by (simp add: js_lower_def)

lemma js_join_split: "js_join [c] (js_split c xs) = xs"
proof (induction xs)
  case (Cons x xs)
  then show ?case
    by (cases "js_split c xs"; cases "tl (js_split c xs)") auto
qed simp

lemma js_split_no_sep: "p \<in> set (js_split c xs) \<Longrightarrow> c \<notin> set p"
proof (induction xs arbitrary: p)
  case (Cons x xs)
  then show ?case by (cases "js_split c xs") (auto split: if_splits)
qed simp

lemma js_split_single: "c \<notin> set xs \<Longrightarrow> js_split c xs = [xs]"
  by (induction xs) auto

lemma js_split_append: "c \<notin> set xs \<Longrightarrow> js_split c (xs @ c # ys) = xs # js_split c ys"
  by (induction xs) (auto split: list.splits)

lemma js_split_join:
  assumes "ps \<noteq> []" "\<And>p. p \<in> set ps \<Longrightarrow> c \<notin> set p"
  shows "js_split c (js_join [c] ps) = ps"
  using assms
proof (induction ps rule: induct_list012)
  case (3 x y zs)
  then show ?case by (simp add: js_split_append)
qed (auto simp: js_split_single)

fun show_nat :: "nat \<Rightarrow> string" where
  "show_nat n = (if n < 10 then [char_of (48 + n)] else show_nat (n div 10) @ [char_of (48 + n mod 10)])"

declare show_nat.simps [simp del]

end
