(* ===== verification/Connect.thy ===== *)
theory Connect
  imports Prelude
begin

text \<open>
  The Connect vocabulary the packages share: status codes as the numbers the wire carries, thrown
  values, header collections, requests, responses and interceptors.

  A thrown value (jserr) keeps what the packages test on it: its class, message, numeric code if it
  has one, and the clientMessage and serverDetails of a sanitizable error
  (packages/core/src/errors.ts). A Headers object is an ordered map from lower-cased names to
  values; hd_put stores a value that another header
  collection already holds; hd_set writes out the two things the platform does to a value: it trims HTTP whitespace at
  both ends and throws a TypeError when a NUL, LF or CR is left in it. Names are supplied by
  constants or configuration and are taken to be valid header names.

  The authentication context that the auth package keeps in an AsyncLocalStorage is the field
  rq_context: running a continuation inside the storage is running it with that field set. JSON
  numbers are kept as their lexemes.

  An interceptor takes the continuation and the request, and yields a computation over an arbitrary
  world. That the world is arbitrary is what lets later theories say that a continuation is not run:
  the world comes back unchanged whatever the continuation would have done to it.
\<close>

section \<open>Status codes and thrown values\<close>

abbreviation (input) "code_Canceled \<equiv> (1 :: int)"
abbreviation (input) "code_Unknown \<equiv> (2 :: int)"
abbreviation (input) "code_InvalidArgument \<equiv> (3 :: int)"
abbreviation (input) "code_DeadlineExceeded \<equiv> (4 :: int)"
abbreviation (input) "code_NotFound \<equiv> (5 :: int)"
abbreviation (input) "code_AlreadyExists \<equiv> (6 :: int)"
abbreviation (input) "code_PermissionDenied \<equiv> (7 :: int)"
abbreviation (input) "code_ResourceExhausted \<equiv> (8 :: int)"
abbreviation (input) "code_FailedPrecondition \<equiv> (9 :: int)"
abbreviation (input) "code_Aborted \<equiv> (10 :: int)"
abbreviation (input) "code_OutOfRange \<equiv> (11 :: int)"
abbreviation (input) "code_Unimplemented \<equiv> (12 :: int)"
abbreviation (input) "code_Internal \<equiv> (13 :: int)"
abbreviation (input) "code_Unavailable \<equiv> (14 :: int)"
abbreviation (input) "code_DataLoss \<equiv> (15 :: int)"
abbreviation (input) "code_Unauthenticated \<equiv> (16 :: int)"

datatype err_class =
    ConnectErrorC
  | AuthzDeniedC
  | BrokenCircuitC
  | BulkheadRejectedC
  | TaskCancelledC
  | NonRetryableC
  | RetryableC
  | AdapterErrorC string
  | TypeErrorC
  | PlainErrorC
  | NonErrorC

record jserr =
  je_class :: err_class
  je_message :: string
  je_code :: "int option"
  je_client :: "string option"
  je_details :: "(string \<times> string list) list option"
  je_metadata :: "(string, string) omap"

definition connect_error :: "string \<Rightarrow> int \<Rightarrow> jserr" where
  "connect_error msg code = \<lparr>je_class = ConnectErrorC, je_message = msg, je_code = Some code,
    je_client = None, je_details = None, je_metadata = []\<rparr>"

definition plain_error :: "string \<Rightarrow> jserr" where
  "plain_error msg = \<lparr>je_class = PlainErrorC, je_message = msg, je_code = None,
    je_client = None, je_details = None, je_metadata = []\<rparr>"

definition type_error :: "string \<Rightarrow> jserr" where
  "type_error msg = \<lparr>je_class = TypeErrorC, je_message = msg, je_code = None,
    je_client = None, je_details = None, je_metadata = []\<rparr>"

definition is_connect_error :: "jserr \<Rightarrow> bool" where
  "is_connect_error e \<longleftrightarrow> je_class e = ConnectErrorC \<or> je_class e = AuthzDeniedC"

definition isSanitizableError :: "jserr \<Rightarrow> bool" where
  "isSanitizableError e \<longleftrightarrow> je_class e \<noteq> NonErrorC \<and> je_client e \<noteq> None \<and> je_details e \<noteq> None
    \<and> je_code e \<noteq> None"

lemma connect_error_sel [simp]:
  "je_class (connect_error msg c) = ConnectErrorC" "je_message (connect_error msg c) = msg"
  "je_code (connect_error msg c) = Some c" "je_client (connect_error msg c) = None"
  "je_details (connect_error msg c) = None" "je_metadata (connect_error msg c) = []"
  by (simp_all add: connect_error_def)

lemma plain_error_sel [simp]:
  "je_class (plain_error msg) = PlainErrorC" "je_message (plain_error msg) = msg"
  "je_code (plain_error msg) = None" "je_client (plain_error msg) = None"
  by (simp_all add: plain_error_def)

lemma connect_error_eq [simp]: "connect_error m c = connect_error m' c' \<longleftrightarrow> m = m' \<and> c = c'"
  by (simp add: connect_error_def)

lemma connect_error_not_sanitizable [simp]: "\<not> isSanitizableError (connect_error msg c)"
  by (simp add: isSanitizableError_def)

lemma connect_error_is [simp]: "is_connect_error (connect_error msg c)"
  by (simp add: is_connect_error_def)

section \<open>Headers\<close>

type_synonym headers = "(string, string) omap"

definition http_ws :: "char \<Rightarrow> bool" where
  "http_ws c \<longleftrightarrow> (of_char c :: nat) \<in> {9, 10, 13, 32}"

definition hd_normalize :: "string \<Rightarrow> string" where
  "hd_normalize v = rev (dropWhile http_ws (rev (dropWhile http_ws v)))"

definition hd_value_ok :: "string \<Rightarrow> bool" where
  "hd_value_ok v \<longleftrightarrow> list_all (\<lambda>c. (of_char c :: nat) \<notin> {0, 10, 13}) v"

definition hd_get :: "headers \<Rightarrow> string \<Rightarrow> string option" where
  "hd_get h n = om_get h (js_lower n)"

definition hd_has :: "headers \<Rightarrow> string \<Rightarrow> bool" where
  "hd_has h n = om_has h (js_lower n)"

definition hd_delete :: "string \<Rightarrow> headers \<Rightarrow> headers" where
  "hd_delete n h = om_del (js_lower n) h"

definition hd_put :: "string \<Rightarrow> string \<Rightarrow> headers \<Rightarrow> headers" where
  "hd_put n v h = om_set (js_lower n) v h"

definition hd_set :: "string \<Rightarrow> string \<Rightarrow> headers \<Rightarrow> jserr + headers" where
  "hd_set n v h =
    (let v' = hd_normalize v in
     if hd_value_ok v' then Inr (om_set (js_lower n) v' h)
     else Inl (type_error ''Headers.set: invalid header value''))"

lemma hd_get_delete [simp]:
  "hd_get (hd_delete n h) m = (if js_lower m = js_lower n then None else hd_get h m)"
  by (simp add: hd_get_def hd_delete_def)

lemma hd_get_nil [simp]: "hd_get [] n = None"
  by (simp add: hd_get_def)

lemma hd_get_put [simp]: "hd_get (hd_put n v h) m = (if js_lower m = js_lower n then Some v else hd_get h m)"
  by (simp add: hd_get_def hd_put_def)

lemma hd_get_fold_delete:
  "hd_get (fold hd_delete ns h) m =
    (if js_lower m \<in> js_lower ` set ns then None else hd_get h m)"
  by (induction ns arbitrary: h) auto

lemma hd_set_get:
  "hd_set n v h = Inr h' \<Longrightarrow>
    hd_get h' m = (if js_lower m = js_lower n then Some (hd_normalize v) else hd_get h m)"
  by (auto simp: hd_set_def hd_get_def Let_def split: if_splits)

lemma hd_set_Inr_iff: "(\<exists>h'. hd_set n v h = Inr h') \<longleftrightarrow> hd_value_ok (hd_normalize v)"
  by (auto simp: hd_set_def Let_def)

lemma dropWhile_id: "(xs = [] \<or> \<not> P (hd xs)) \<Longrightarrow> dropWhile P xs = xs"
  by (cases xs) auto

lemma hd_normalize_id:
  "(v = [] \<or> (\<not> http_ws (hd v) \<and> \<not> http_ws (last v))) \<Longrightarrow> hd_normalize v = v"
  by (auto simp: hd_normalize_def dropWhile_id hd_rev)

section \<open>Requests, responses, interceptors\<close>

datatype json =
    JNull
  | JBool bool
  | JNum string
  | JStr string
  | JArr "json list"
  | JObj "(string \<times> json) list"

record auth_context =
  ac_subject :: string
  ac_name :: "string option"
  ac_roles :: "string list"
  ac_scopes :: "string list"
  ac_claims :: "(string \<times> json) list"
  ac_type :: string
  ac_expiresAt :: "int option"

record 'm req =
  rq_stream :: bool
  rq_url :: string
  rq_service :: string
  rq_method :: string
  rq_header :: headers
  rq_context :: "auth_context option"
  rq_message :: 'm

record 'm resp =
  rs_stream :: bool
  rs_service :: string
  rs_method :: string
  rs_header :: headers
  rs_trailer :: headers
  rs_message :: 'm

type_synonym ('s, 'm) handler = "'m req \<Rightarrow> ('s, jserr, 'm resp) io"
type_synonym ('s, 'm) interceptor = "('s, 'm) handler \<Rightarrow> ('s, 'm) handler"

definition run_chain :: "('s, 'm) interceptor list \<Rightarrow> ('s, 'm) interceptor" where
  "run_chain is next = foldr (\<lambda>i k. i k) is next"

lemma run_chain_nil [simp]: "run_chain [] next = next"
  by (simp add: run_chain_def)

lemma run_chain_cons [simp]: "run_chain (i # is) next = i (run_chain is next)"
  by (simp add: run_chain_def)

lemma run_chain_append: "run_chain (is @ js) next = run_chain is (run_chain js next)"
  by (simp add: run_chain_def)

section \<open>Local transport marker (core/src/localTransport.ts, core/src/buildRoutes.ts)\<close>

definition LOCAL_TRANSPORT_HEADER :: string where
  "LOCAL_TRANSPORT_HEADER = ''connectum-internal-transport''"

definition LOCAL_TRANSPORT_VALUE :: string where
  "LOCAL_TRANSPORT_VALUE = ''in-process''"

definition localTransportMarkerInterceptor :: "('s, 'm) interceptor" where
  "localTransportMarkerInterceptor next r =
    io_bind (io_lift (hd_set LOCAL_TRANSPORT_HEADER LOCAL_TRANSPORT_VALUE (rq_header r)))
      (\<lambda>h. next (r\<lparr>rq_header := h\<rparr>))"

definition stripLocalTransportHeaderOnHttp :: "('s, 'm) interceptor" where
  "stripLocalTransportHeaderOnHttp next r =
    next (r\<lparr>rq_header := hd_delete LOCAL_TRANSPORT_HEADER (rq_header r)\<rparr>)"

definition isLocalTransport :: "headers \<Rightarrow> bool" where
  "isLocalTransport h \<longleftrightarrow> hd_get h LOCAL_TRANSPORT_HEADER = Some LOCAL_TRANSPORT_VALUE"

end
