(* ===== verification/Shutdown.thy ===== *)
theory Shutdown
  imports Prelude Connect
begin

text \<open>
  packages/core/src/ShutdownManager.ts: named shutdown hooks with dependencies.

  The record shutdown_mgr holds the manager's dependency tree, hooks and anonymous counter; addHook
  is the overloaded registration with its cycle test and rollback; test_cycles is the path-based
  depth-first search. executeAll is modelled in two parts: exec_modules is the synchronous part that
  creates the memoised promise of every module and calls the hooks of modules without dependencies,
  and exec_step is the asynchronous part, one step per promise that settles. A hook call may throw,
  or return a promise that later resolves or rejects, in any order the environment likes.
\<close>

section \<open>State and registration\<close>

datatype 'h hook_args =
    HookAnon 'h
  | HookNamed string 'h
  | HookDeps string "string list" 'h

record 'h shutdown_mgr =
  sm_tree :: "(string, string list) omap"
  sm_hooks :: "(string, 'h list) omap"
  sm_anon :: nat

definition sm_empty :: "'h shutdown_mgr" where
  "sm_empty = \<lparr>sm_tree = [], sm_hooks = [], sm_anon = 0\<rparr>"

definition deps_of :: "(string, string list) omap \<Rightarrow> string \<Rightarrow> string list" where
  "deps_of tree n = (case om_get tree n of None \<Rightarrow> [] | Some ds \<Rightarrow> ds)"

definition hooks_of :: "'h shutdown_mgr \<Rightarrow> string \<Rightarrow> 'h list" where
  "hooks_of m n = (case om_get (sm_hooks m) n of None \<Rightarrow> [] | Some hs \<Rightarrow> hs)"

lemma deps_of_in_keys: "d \<in> set (deps_of tree n) \<Longrightarrow> n \<in> set (om_keys tree)"
  by (cases "om_get tree n") (auto simp: deps_of_def om_has_keys [symmetric] om_has_def)

function test_cycles :: "(string, string list) omap \<Rightarrow> string list \<Rightarrow> string \<Rightarrow> bool"
  and some_cycles :: "(string, string list) omap \<Rightarrow> string list \<Rightarrow> string list \<Rightarrow> bool"
where
  "test_cycles tree visited n =
    (if n \<in> set visited then True else some_cycles tree (n # visited) (deps_of tree n))"
| "some_cycles tree visited [] = False"
| "some_cycles tree visited (d # ds) = (test_cycles tree visited d \<or> some_cycles tree visited ds)"
  by pat_completeness auto
termination
proof (relation "measures [\<lambda>x. case x of Inl (tree, visited, n) \<Rightarrow> card (set (om_keys tree) - set visited)
      | Inr (tree, visited, ds) \<Rightarrow> card (set (om_keys tree) - set visited),
    \<lambda>x. case x of Inl _ \<Rightarrow> 1 | Inr (_, _, ds) \<Rightarrow> 2 * length ds]", goal_cases)
  case (2 tree visited n)
  show ?case
  proof (cases "deps_of tree n")
    case Nil
    have "card (set (om_keys tree) - set (n # visited)) \<le> card (set (om_keys tree) - set visited)"
      by (intro card_mono) auto
    then show ?thesis using Nil by auto
  next
    case (Cons d ds)
    then have "n \<in> set (om_keys tree) - set visited" using 2 deps_of_in_keys [of d tree n] by simp
    then have "card (set (om_keys tree) - set (n # visited)) < card (set (om_keys tree) - set visited)"
      by (intro psubset_card_mono) auto
    then show ?thesis by simp
  qed
qed auto

lemma some_cycles_list_ex: "some_cycles tree visited ds = list_ex (test_cycles tree visited) ds"
  by (induction ds) auto

lemma test_cycles_unfold:
  "test_cycles tree visited n =
    (if n \<in> set visited then True
     else list_ex (\<lambda>d. test_cycles tree (n # visited) d) (deps_of tree n))"
  by (subst test_cycles.simps) (simp only: some_cycles_list_ex)

lemma test_cycles_induct [case_names step]:
  assumes "\<And>tree visited n. (\<And>d. n \<notin> set visited \<Longrightarrow> d \<in> set (deps_of tree n) \<Longrightarrow> P tree (n # visited) d)
    \<Longrightarrow> P tree visited n"
  shows "P tree visited n"
proof -
  have "P tree visited n" and "\<forall>d \<in> set ds. P tree visited d" for ds
    by (induction tree visited n and tree visited ds rule: test_cycles_some_cycles.induct)
      (auto intro: assms)
  then show ?thesis by simp
qed

declare test_cycles.simps [simp del]

definition hook_parts :: "nat \<Rightarrow> 'h hook_args \<Rightarrow> string \<times> string list \<times> 'h \<times> nat" where
  "hook_parts anon args = (case args of
      HookAnon h \<Rightarrow> (''__anon_'' @ show_nat anon, [], h, Suc anon)
    | HookNamed n h \<Rightarrow> (n, [], h, anon)
    | HookDeps n ds h \<Rightarrow> (n, ds, h, anon))"

definition addHook :: "'h hook_args \<Rightarrow> ('h shutdown_mgr, jserr, unit) io" where
  "addHook args m = (case hook_parts (sm_anon m) args of (n, dependencies, handler, anon) \<Rightarrow>
    let existing = deps_of (sm_tree m) n;
        merged = existing @ dependencies;
        m1 = m\<lparr>sm_anon := anon, sm_tree := om_set n merged (sm_tree m)\<rparr>
    in if test_cycles (sm_tree m1) [] n
       then (Inl (plain_error (''Adding shutdown handler '' @ n @ '' would create a dependency cycle'')),
             m1\<lparr>sm_tree := om_set n existing (sm_tree m1)\<rparr>)
       else (Inr (), m1\<lparr>sm_hooks := om_set n (hooks_of m1 n @ [handler]) (sm_hooks m1)\<rparr>))"

section \<open>The cycle test decides reachability of a cycle\<close>

definition dep_rel :: "(string, string list) omap \<Rightarrow> (string \<times> string) set" where
  "dep_rel tree = {(n, d). d \<in> set (deps_of tree n)}"

lemma dep_rel_iff [simp]: "(n, d) \<in> dep_rel tree \<longleftrightarrow> d \<in> set (deps_of tree n)"
  by (simp add: dep_rel_def)

lemma test_cycles_sound:
  "test_cycles tree visited n \<Longrightarrow>
    (\<exists>v \<in> set visited. (n, v) \<in> (dep_rel tree)\<^sup>*) \<or>
    (\<exists>c. (n, c) \<in> (dep_rel tree)\<^sup>* \<and> (c, c) \<in> (dep_rel tree)\<^sup>+)"
proof (induction tree visited n rule: test_cycles_induct)
  case (step tree visited n)
  show ?case
  proof (cases "n \<in> set visited")
    case False
    with step.prems obtain d where d: "d \<in> set (deps_of tree n)" "test_cycles tree (n # visited) d"
      by (subst (asm) test_cycles_unfold) (auto simp: list_ex_iff)
    then have nd: "(n, d) \<in> dep_rel tree" by simp
    consider (v) v where "v \<in> set visited" "(d, v) \<in> (dep_rel tree)\<^sup>*"
      | (n) "(d, n) \<in> (dep_rel tree)\<^sup>*"
      | (c) c where "(d, c) \<in> (dep_rel tree)\<^sup>*" "(c, c) \<in> (dep_rel tree)\<^sup>+"
      using step.IH [OF False d] by auto
    then show ?thesis
    proof cases
      case v
      then show ?thesis using nd converse_rtrancl_into_rtrancl by metis
    next
      case n
      then have "(n, n) \<in> (dep_rel tree)\<^sup>+" using nd by (meson rtrancl_into_trancl2)
      then show ?thesis by blast
    next
      case c
      then show ?thesis using nd converse_rtrancl_into_rtrancl by metis
    qed
  qed auto
qed

lemma test_cycles_complete_path:
  "\<not> test_cycles tree visited n \<Longrightarrow> (n, c) \<in> (dep_rel tree)\<^sup>* \<Longrightarrow> c \<notin> set visited"
proof (induction tree visited n rule: test_cycles_induct)
  case (step tree visited n)
  from step.prems(1) have n: "n \<notin> set visited"
    and ds: "\<And>d. d \<in> set (deps_of tree n) \<Longrightarrow> \<not> test_cycles tree (n # visited) d"
    by (subst (asm) test_cycles_unfold, auto simp: list_ex_iff split: if_splits)+
  from step.prems(2) show ?case
  proof (cases rule: converse_rtranclE)
    case (step d)
    then show ?thesis using step.IH [OF n, of d] ds [of d] by simp
  qed (use n in auto)
qed

lemma test_cycles_step:
  "\<not> test_cycles tree visited n \<Longrightarrow> d \<in> set (deps_of tree n) \<Longrightarrow> \<not> test_cycles tree (n # visited) d"
  by (subst (asm) test_cycles_unfold) (auto simp: list_ex_iff split: if_splits)

lemma test_cycles_mono:
  "test_cycles tree visited n \<Longrightarrow> set visited \<subseteq> set visited' \<Longrightarrow> test_cycles tree visited' n"
proof (induction tree visited n arbitrary: visited' rule: test_cycles_induct)
  case (step tree visited n)
  show ?case
  proof (cases "n \<in> set visited'")
    case False
    then have n: "n \<notin> set visited" using step.prems by auto
    with step.prems obtain d where d: "d \<in> set (deps_of tree n)" "test_cycles tree (n # visited) d"
      by (subst (asm) test_cycles_unfold) (auto simp: list_ex_iff)
    have "test_cycles tree (n # visited') d"
      by (rule step.IH [OF n d]) (use step.prems in auto)
    then show ?thesis
      using d False by (subst test_cycles_unfold) (auto simp: list_ex_iff)
  qed (subst test_cycles_unfold, simp)
qed

lemma test_cycles_reach:
  assumes "\<not> test_cycles tree [] n" "(n, c) \<in> (dep_rel tree)\<^sup>*"
  shows "\<not> test_cycles tree [] c"
  using assms(2)
proof (induction rule: rtrancl_induct)
  case (step y z)
  then have "\<not> test_cycles tree [y] z" using test_cycles_step by simp
  then show ?case using test_cycles_mono [of tree "[]" z "[y]"] by auto
qed (use assms in simp)

lemma test_cycles_iff:
  "test_cycles tree [] n \<longleftrightarrow>
    (\<exists>c. (n, c) \<in> (dep_rel tree)\<^sup>* \<and> (c, c) \<in> (dep_rel tree)\<^sup>+)"
proof
  assume "\<exists>c. (n, c) \<in> (dep_rel tree)\<^sup>* \<and> (c, c) \<in> (dep_rel tree)\<^sup>+"
  then obtain c where nc: "(n, c) \<in> (dep_rel tree)\<^sup>*" and cc: "(c, c) \<in> (dep_rel tree)\<^sup>+" by blast
  show "test_cycles tree [] n"
  proof (rule ccontr)
    assume "\<not> test_cycles tree [] n"
    then have c: "\<not> test_cycles tree [] c" using nc by (rule test_cycles_reach)
    obtain d where d: "(c, d) \<in> dep_rel tree" "(d, c) \<in> (dep_rel tree)\<^sup>*"
      using cc by (meson tranclD)
    then have "\<not> test_cycles tree [c] d" using test_cycles_step [OF c] by simp
    from test_cycles_complete_path [OF this d(2)] show False by simp
  qed
qed (use test_cycles_sound [of tree "[]" n] in auto)

section \<open>Registration keeps the graph acyclic\<close>

definition dep_acyclic :: "'h shutdown_mgr \<Rightarrow> bool" where
  "dep_acyclic m \<longleftrightarrow> (\<forall>n \<in> set (om_keys (sm_tree m)). \<not> test_cycles (sm_tree m) [] n)"

lemma deps_of_set: "deps_of (om_set n ds tree) k = (if k = n then ds else deps_of tree k)"
  by (simp add: deps_of_def)

lemma dep_acyclic_iff: "dep_acyclic m \<longleftrightarrow> acyclic (dep_rel (sm_tree m))"
proof
  assume L: "dep_acyclic m"
  show "acyclic (dep_rel (sm_tree m))"
    unfolding acyclic_def
  proof (intro allI notI)
    fix c assume c: "(c, c) \<in> (dep_rel (sm_tree m))\<^sup>+"
    then obtain d where "(c, d) \<in> dep_rel (sm_tree m)" by (meson tranclD)
    then have "c \<in> set (om_keys (sm_tree m))" using deps_of_in_keys by simp
    then show False using L c test_cycles_iff [of "sm_tree m" c] by (auto simp: dep_acyclic_def)
  qed
qed (auto simp: dep_acyclic_def test_cycles_iff acyclic_def)

lemma dep_acyclic_test: "dep_acyclic m \<longleftrightarrow> (\<forall>n. \<not> test_cycles (sm_tree m) [] n)"
  by (auto simp: dep_acyclic_iff test_cycles_iff acyclic_def)

lemma cycle_through_new:
  assumes ac: "acyclic (dep_rel tree)"
    and c: "(c, c) \<in> (dep_rel (om_set n ds tree))\<^sup>+"
  shows "(c, n) \<in> (dep_rel (om_set n ds tree))\<^sup>* \<and> (n, n) \<in> (dep_rel (om_set n ds tree))\<^sup>+"
proof -
  let ?E' = "dep_rel (om_set n ds tree)"
  have path: "(a, n) \<in> ?E'\<^sup>* \<and> (n, b) \<in> ?E'\<^sup>+ \<or> (a, b) \<in> (dep_rel tree)\<^sup>+"
    if "(a, b) \<in> ?E'\<^sup>+" for a b
    using that
  proof (induction rule: trancl_induct)
    case (base y)
    then show ?case by (cases "a = n") (auto simp: deps_of_set)
  next
    case (step y z)
    show ?case
    proof (cases "y = n")
      case True
      then show ?thesis using step.hyps by (auto dest: trancl_into_rtrancl)
    next
      case False
      then have "(y, z) \<in> dep_rel tree" using step.hyps(2) by (simp add: deps_of_set)
      then show ?thesis using step by (meson trancl_into_trancl)
    qed
  qed
  have "(c, n) \<in> ?E'\<^sup>* \<and> (n, c) \<in> ?E'\<^sup>+"
    using path [OF c] ac by (auto simp: acyclic_def)
  then show ?thesis by (meson rtrancl_trancl_trancl trancl_rtrancl_trancl)
qed

lemma om_set_get_same:
  assumes "om_get m k = Some v"
  shows "om_set k v m = m"
  using assms unfolding om_get_def om_set_def
  by (induction m) (auto split: if_splits)

lemma addHook_cases:
  assumes "addHook args m = (r, m')"
  obtains (rejected) n ds h a where "hook_parts (sm_anon m) args = (n, ds, h, a)"
      "test_cycles (om_set n (deps_of (sm_tree m) n @ ds) (sm_tree m)) [] n"
      "r = Inl (plain_error (''Adding shutdown handler '' @ n @ '' would create a dependency cycle''))"
      "sm_hooks m' = sm_hooks m" "dep_rel (sm_tree m') = dep_rel (sm_tree m)"
  | (accepted) n ds h a where "hook_parts (sm_anon m) args = (n, ds, h, a)"
      "\<not> test_cycles (om_set n (deps_of (sm_tree m) n @ ds) (sm_tree m)) [] n"
      "r = Inr ()"
      "sm_hooks m' = om_set n (hooks_of m n @ [h]) (sm_hooks m)"
      "sm_tree m' = om_set n (deps_of (sm_tree m) n @ ds) (sm_tree m)"
proof -
  obtain n ds h a where p: "hook_parts (sm_anon m) args = (n, ds, h, a)"
    by (cases "hook_parts (sm_anon m) args")
  show thesis
  proof (cases "test_cycles (om_set n (deps_of (sm_tree m) n @ ds) (sm_tree m)) [] n")
    case True
    then show thesis
      using assms p by (intro rejected [OF p True])
        (auto simp: addHook_def Let_def dep_rel_def deps_of_set split: if_splits)
  next
    case False
    then show thesis
      using assms p by (intro accepted [OF p False])
        (auto simp: addHook_def Let_def hooks_of_def)
  qed
qed

lemma addHook_acyclic:
  assumes "dep_acyclic m" "addHook args m = (r, m')"
  shows "dep_acyclic m'"
  using assms(2)
proof (cases rule: addHook_cases)
  case (rejected n ds h a)
  then show ?thesis using assms(1) by (simp add: dep_acyclic_iff)
next
  case (accepted n ds h a)
  have ac: "acyclic (dep_rel (sm_tree m))" using assms(1) by (simp add: dep_acyclic_iff)
  show ?thesis
    unfolding dep_acyclic_iff acyclic_def
  proof (intro allI notI)
    fix c assume "(c, c) \<in> (dep_rel (sm_tree m'))\<^sup>+"
    then have "(n, n) \<in> (dep_rel (sm_tree m'))\<^sup>+"
      using cycle_through_new [OF ac] accepted(5) by metis
    then show False using accepted(2,5) by (auto simp: test_cycles_iff)
  qed
qed

lemma addHook_rejects_iff_cyclic:
  assumes "dep_acyclic m" "hook_parts (sm_anon m) args = (n, ds, h, a)"
  shows "(\<exists>e m'. addHook args m = (Inl e, m')) \<longleftrightarrow>
    \<not> acyclic (dep_rel (sm_tree m) \<union> {(n, d) |d. d \<in> set ds})"
proof -
  let ?t = "om_set n (deps_of (sm_tree m) n @ ds) (sm_tree m)"
  have ac: "acyclic (dep_rel (sm_tree m))" using assms(1) by (simp add: dep_acyclic_iff)
  have E: "dep_rel ?t = dep_rel (sm_tree m) \<union> {(n, d) |d. d \<in> set ds}"
    by (auto simp: dep_rel_def deps_of_set split: if_splits)
  have "test_cycles ?t [] n \<longleftrightarrow> \<not> acyclic (dep_rel ?t)"
    using cycle_through_new [OF ac] unfolding test_cycles_iff acyclic_def by blast
  then show ?thesis
    using assms(2) E by (auto simp: addHook_def Let_def split: if_splits)
qed

fun addHooks :: "'h hook_args list \<Rightarrow> 'h shutdown_mgr \<Rightarrow> 'h shutdown_mgr" where
  "addHooks [] m = m"
| "addHooks (a # as) m = addHooks as (snd (addHook a m))"

lemma addHooks_acyclic: "dep_acyclic m \<Longrightarrow> dep_acyclic (addHooks as m)"
  by (induction as arbitrary: m) (auto intro: addHook_acyclic [OF _ surjective_pairing])

lemma sm_empty_acyclic [simp]: "dep_acyclic sm_empty"
  by (simp add: dep_acyclic_def sm_empty_def om_keys_def)

end
