(* ===== verification/ShutdownExec.thy ===== *)
theory ShutdownExec
  imports Shutdown
begin

text \<open>
  packages/core/src/ShutdownManager.ts, executeAll and _executeModule: running the hooks.

  exec_module and exec_modules are the synchronous part of a run, by fuel (the recursion of the
  source ends because the graph is acyclic; exec_fuel_enough shows how much fuel always suffices).
  exec_step is the asynchronous part. A module's promise is absent, waiting for its dependencies,
  running its hooks, or settled; the log records hook calls and hook settlements in order. The
  parameter throws says which hooks throw when they are called; every other hook returns a promise
  whose outcome and time the environment picks.
\<close>

section \<open>The run state and the synchronous part\<close>

datatype phase = Waiting | Running | Done | Failed

datatype hook_event =
    HookStart string nat
  | HookThrow string nat
  | HookEnd string nat bool

record exec =
  ex_phase :: "string \<Rightarrow> phase option"
  ex_open :: "(string \<times> nat) list"
  ex_log :: "hook_event list"

definition ex_init :: exec where
  "ex_init = \<lparr>ex_phase = (\<lambda>_. None), ex_open = [], ex_log = []\<rparr>"

fun call_hooks :: "('h \<Rightarrow> bool) \<Rightarrow> nat \<Rightarrow> 'h list \<Rightarrow> nat list \<times> nat option" where
  "call_hooks throws i [] = ([], None)"
| "call_hooks throws i (h # hs) =
    (if throws h then ([], Some i)
     else (case call_hooks throws (Suc i) hs of (is, t) \<Rightarrow> (i # is, t)))"

definition start_hooks :: "('h \<Rightarrow> bool) \<Rightarrow> 'h shutdown_mgr \<Rightarrow> string \<Rightarrow> exec \<Rightarrow> exec" where
  "start_hooks throws m n ex = (case call_hooks throws 0 (hooks_of m n) of
      (is, None) \<Rightarrow> ex\<lparr>ex_phase := (ex_phase ex)(n \<mapsto> Running),
        ex_open := ex_open ex @ map (Pair n) is,
        ex_log := ex_log ex @ map (HookStart n) is\<rparr>
    | (is, Some t) \<Rightarrow> ex\<lparr>ex_phase := (ex_phase ex)(n \<mapsto> Failed),
        ex_open := ex_open ex @ map (Pair n) is,
        ex_log := ex_log ex @ map (HookStart n) is @ [HookThrow n t]\<rparr>)"

fun exec_module :: "nat \<Rightarrow> ('h \<Rightarrow> bool) \<Rightarrow> 'h shutdown_mgr \<Rightarrow> string \<Rightarrow> exec \<Rightarrow> exec option"
  and exec_modules :: "nat \<Rightarrow> ('h \<Rightarrow> bool) \<Rightarrow> 'h shutdown_mgr \<Rightarrow> string list \<Rightarrow> exec \<Rightarrow> exec option"
where
  "exec_module 0 throws m n ex = None"
| "exec_module (Suc fuel) throws m n ex =
    (if ex_phase ex n \<noteq> None then Some ex
     else if deps_of (sm_tree m) n = [] then Some (start_hooks throws m n ex)
     else (case exec_modules fuel throws m (deps_of (sm_tree m) n) ex of
        None \<Rightarrow> None
      | Some ex' \<Rightarrow> Some (ex'\<lparr>ex_phase := (ex_phase ex')(n \<mapsto> Waiting)\<rparr>)))"
| "exec_modules fuel throws m [] ex = Some ex"
| "exec_modules fuel throws m (n # ns) ex =
    (case exec_module fuel throws m n ex of
       None \<Rightarrow> None | Some ex' \<Rightarrow> exec_modules fuel throws m ns ex')"

definition executeAll_start :: "('h \<Rightarrow> bool) \<Rightarrow> 'h shutdown_mgr \<Rightarrow> exec option" where
  "executeAll_start throws m =
    exec_modules (length (sm_tree m) + 2) throws m (om_keys (sm_hooks m)) ex_init"

section \<open>The asynchronous part\<close>

inductive exec_step :: "('h \<Rightarrow> bool) \<Rightarrow> 'h shutdown_mgr \<Rightarrow> exec \<Rightarrow> exec \<Rightarrow> bool"
  for throws m where
  hook_settles: "(n, i) \<in> set (ex_open ex) \<Longrightarrow>
    exec_step throws m ex (ex\<lparr>ex_open := remove1 (n, i) (ex_open ex),
      ex_log := ex_log ex @ [HookEnd n i ok]\<rparr>)"
| deps_done: "ex_phase ex n = Some Waiting \<Longrightarrow>
    \<forall>d \<in> set (deps_of (sm_tree m) n). ex_phase ex d = Some Done \<Longrightarrow>
    exec_step throws m ex (start_hooks throws m n ex)"
| deps_fail: "ex_phase ex n = Some Waiting \<Longrightarrow>
    d \<in> set (deps_of (sm_tree m) n) \<Longrightarrow> ex_phase ex d = Some Failed \<Longrightarrow>
    exec_step throws m ex (ex\<lparr>ex_phase := (ex_phase ex)(n \<mapsto> Failed)\<rparr>)"
| module_done: "ex_phase ex n = Some Running \<Longrightarrow>
    \<forall>i < length (hooks_of m n). HookEnd n i True \<in> set (ex_log ex) \<Longrightarrow>
    exec_step throws m ex (ex\<lparr>ex_phase := (ex_phase ex)(n \<mapsto> Done)\<rparr>)"
| module_fail: "ex_phase ex n = Some Running \<Longrightarrow>
    HookEnd n i False \<in> set (ex_log ex) \<Longrightarrow>
    exec_step throws m ex (ex\<lparr>ex_phase := (ex_phase ex)(n \<mapsto> Failed)\<rparr>)"

inductive exec_reach :: "('h \<Rightarrow> bool) \<Rightarrow> 'h shutdown_mgr \<Rightarrow> exec \<Rightarrow> bool" for throws m where
  exec_reach_init: "executeAll_start throws m = Some ex \<Longrightarrow> exec_reach throws m ex"
| exec_reach_step: "exec_reach throws m ex \<Longrightarrow> exec_step throws m ex ex' \<Longrightarrow> exec_reach throws m ex'"

section \<open>Enough fuel\<close>

lemma exec_fuel:
  shows "\<not> test_cycles (sm_tree m) vis n \<Longrightarrow>
      card (set (om_keys (sm_tree m)) - set vis) + 1 < fuel \<Longrightarrow> exec_module fuel throws m n ex \<noteq> None"
    and "\<forall>n \<in> set ns. \<not> test_cycles (sm_tree m) vis n \<Longrightarrow>
      card (set (om_keys (sm_tree m)) - set vis) + 1 < fuel \<Longrightarrow> exec_modules fuel throws m ns ex \<noteq> None"
proof (induction fuel throws m n ex and fuel throws m ns ex arbitrary: vis and vis
    rule: exec_module_exec_modules.induct)
  case (2 fuel throws m n ex)
  show ?case
  proof (cases "ex_phase ex n \<noteq> None \<or> deps_of (sm_tree m) n = []")
    case False
    then obtain d where "d \<in> set (deps_of (sm_tree m) n)"
      by (metis list.set_intros(1) neq_Nil_conv)
    then have k: "n \<in> set (om_keys (sm_tree m))" by (rule deps_of_in_keys)
    have nv: "n \<notin> set vis" using "2.prems"(1) by (subst (asm) test_cycles.simps) auto
    have "card (set (om_keys (sm_tree m)) - set (n # vis))
        < card (set (om_keys (sm_tree m)) - set vis)"
      using k nv by (intro psubset_card_mono) auto
    then have "card (set (om_keys (sm_tree m)) - set (n # vis)) + 1 < fuel"
      using "2.prems"(2) by linarith
    moreover have "\<forall>d \<in> set (deps_of (sm_tree m) n). \<not> test_cycles (sm_tree m) (n # vis) d"
      using test_cycles_step [OF "2.prems"(1)] by blast
    ultimately have "exec_modules fuel throws m (deps_of (sm_tree m) n) ex \<noteq> None"
      using "2.IH" False by blast
    then show ?thesis using False by auto
  qed auto
next
  case (4 fuel throws m n ns ex)
  then show ?case by (auto split: option.splits)
qed auto

lemma executeAll_start_total:
  assumes "dep_acyclic m"
  shows "\<exists>ex. executeAll_start throws m = Some ex"
proof -
  have "card (set (om_keys (sm_tree m)) - set []) + 1 < length (sm_tree m) + 2"
    using card_length [of "om_keys (sm_tree m)"] by (simp add: om_keys_def)
  then show ?thesis
    using exec_fuel(2) [of "om_keys (sm_hooks m)" m "[]" "length (sm_tree m) + 2" throws ex_init]
      assms by (auto simp: executeAll_start_def dep_acyclic_test)
qed

section \<open>The invariant of a run\<close>

definition started :: "hook_event list \<Rightarrow> (string \<times> nat) list" where
  "started l = List.map_filter (\<lambda>e. case e of HookStart n i \<Rightarrow> Some (n, i) | _ \<Rightarrow> None) l"

definition hooks_ended :: "'h shutdown_mgr \<Rightarrow> hook_event list \<Rightarrow> string \<Rightarrow> bool" where
  "hooks_ended m l n \<longleftrightarrow> (\<forall>i < length (hooks_of m n). HookEnd n i True \<in> set l)"

definition ordered_log :: "'h shutdown_mgr \<Rightarrow> hook_event list \<Rightarrow> bool" where
  "ordered_log m l \<longleftrightarrow> (\<forall>pre n i post d. l = pre @ HookStart n i # post \<longrightarrow>
    (n, d) \<in> (dep_rel (sm_tree m))\<^sup>+ \<longrightarrow> hooks_ended m pre d)"

definition failure_in :: "hook_event list \<Rightarrow> bool" where
  "failure_in l \<longleftrightarrow> (\<exists>n i. HookThrow n i \<in> set l \<or> HookEnd n i False \<in> set l)"

definition exec_inv :: "'h shutdown_mgr \<Rightarrow> exec \<Rightarrow> bool" where
  "exec_inv m ex \<longleftrightarrow>
    (\<forall>n. ex_phase ex n \<noteq> None \<longrightarrow> (\<forall>d \<in> set (deps_of (sm_tree m) n). ex_phase ex d \<noteq> None)) \<and>
    (\<forall>n. ex_phase ex n \<in> {Some Running, Some Done} \<longrightarrow>
       (\<forall>d \<in> set (deps_of (sm_tree m) n). ex_phase ex d = Some Done)) \<and>
    (\<forall>n. ex_phase ex n = Some Done \<longrightarrow> hooks_ended m (ex_log ex) n) \<and>
    (\<forall>n i. (n, i) \<in> set (started (ex_log ex)) \<longrightarrow>
       i < length (hooks_of m n) \<and> ex_phase ex n \<in> {Some Running, Some Done, Some Failed}) \<and>
    (\<forall>n i. ex_phase ex n = Some Running \<longrightarrow> i < length (hooks_of m n) \<longrightarrow>
       (n, i) \<in> set (ex_open ex) \<or> (\<exists>ok. HookEnd n i ok \<in> set (ex_log ex))) \<and>
    distinct (started (ex_log ex)) \<and>
    ordered_log m (ex_log ex) \<and>
    ((\<exists>n. ex_phase ex n = Some Failed) \<longrightarrow> failure_in (ex_log ex)) \<and>
    finite (dom (ex_phase ex))"

lemma started_simps [simp]:
  "started [] = []" "started (l @ l') = started l @ started l'"
  "started [HookEnd n i ok] = []" "started [HookThrow n i] = []"
  "started (map (HookStart n) is) = map (Pair n) is"
  by (induction "is") (simp_all add: started_def List.map_filter_def)

lemma hooks_ended_mono: "hooks_ended m l n \<Longrightarrow> hooks_ended m (l @ l') n"
  by (auto simp: hooks_ended_def)

lemma failure_in_mono: "failure_in l \<Longrightarrow> failure_in (l @ l')"
  by (auto simp: failure_in_def)

lemma ordered_append:
  assumes "ordered_log m l"
    "\<And>n i d. HookStart n i \<in> set l' \<Longrightarrow> (n, d) \<in> (dep_rel (sm_tree m))\<^sup>+ \<Longrightarrow> hooks_ended m l d"
  shows "ordered_log m (l @ l')"
  unfolding ordered_log_def
proof (intro allI impI)
  fix pre n i post d
  assume eq: "l @ l' = pre @ HookStart n i # post" and nd: "(n, d) \<in> (dep_rel (sm_tree m))\<^sup>+"
  from eq consider us where "l = pre @ HookStart n i # us" | us where "pre = l @ us"
      "l' = us @ HookStart n i # post"
    by (auto simp: append_eq_append_conv2 append_eq_Cons_conv Cons_eq_append_conv)
  then show "hooks_ended m pre d"
  proof cases
    case 1
    then show ?thesis using assms(1) nd unfolding ordered_log_def by blast
  next
    case 2
    then show ?thesis using assms(2) [of n i d] nd hooks_ended_mono by auto
  qed
qed

lemma call_hooks_spec:
  "call_hooks throws k hs = (is, t) \<Longrightarrow>
    (case t of None \<Rightarrow> is = [k..<k + length hs] \<and> list_all (\<lambda>h. \<not> throws h) hs
             | Some j \<Rightarrow> is = [k..<j] \<and> k \<le> j \<and> j < k + length hs \<and> throws (hs ! (j - k)))"
proof (induction throws k hs arbitrary: "is" t rule: call_hooks.induct)
  case (2 throws k h hs)
  show ?case
  proof (cases "throws h")
    case False
    obtain is' t' where c: "call_hooks throws (Suc k) hs = (is', t')"
      by (cases "call_hooks throws (Suc k) hs")
    have "is = k # is'" "t = t'" using "2.prems" c False by auto
    then show ?thesis
      using "2.IH" [OF False c] False
      by (cases t) (auto simp: upt_conv_Cons nth_Cons' simp del: upt_Suc)
  qed (use "2.prems" in auto)
qed auto

lemma exec_invD:
  assumes "exec_inv m ex"
  shows "ex_phase ex n \<noteq> None \<Longrightarrow> d \<in> set (deps_of (sm_tree m) n) \<Longrightarrow> ex_phase ex d \<noteq> None"
    and "ex_phase ex n \<in> {Some Running, Some Done} \<Longrightarrow> d \<in> set (deps_of (sm_tree m) n) \<Longrightarrow>
      ex_phase ex d = Some Done"
    and "ex_phase ex n = Some Done \<Longrightarrow> hooks_ended m (ex_log ex) n"
    and "(n, i) \<in> set (started (ex_log ex)) \<Longrightarrow>
      i < length (hooks_of m n) \<and> ex_phase ex n \<in> {Some Running, Some Done, Some Failed}"
    and "ex_phase ex n = Some Running \<Longrightarrow> i < length (hooks_of m n) \<Longrightarrow>
      (n, i) \<in> set (ex_open ex) \<or> (\<exists>ok. HookEnd n i ok \<in> set (ex_log ex))"
    and "distinct (started (ex_log ex))" and "ordered_log m (ex_log ex)"
    and "ex_phase ex n = Some Failed \<Longrightarrow> failure_in (ex_log ex)"
    and "finite (dom (ex_phase ex))"
  using assms unfolding exec_inv_def by (blast+)

lemma exec_invI:
  assumes "\<And>n d. ex_phase ex n \<noteq> None \<Longrightarrow> d \<in> set (deps_of (sm_tree m) n) \<Longrightarrow> ex_phase ex d \<noteq> None"
    and "\<And>n d. ex_phase ex n = Some Running \<or> ex_phase ex n = Some Done \<Longrightarrow>
      d \<in> set (deps_of (sm_tree m) n) \<Longrightarrow> ex_phase ex d = Some Done"
    and "\<And>n. ex_phase ex n = Some Done \<Longrightarrow> hooks_ended m (ex_log ex) n"
    and "\<And>n i. (n, i) \<in> set (started (ex_log ex)) \<Longrightarrow>
      i < length (hooks_of m n) \<and> ex_phase ex n \<in> {Some Running, Some Done, Some Failed}"
    and "\<And>n i. ex_phase ex n = Some Running \<Longrightarrow> i < length (hooks_of m n) \<Longrightarrow>
      (n, i) \<in> set (ex_open ex) \<or> (\<exists>ok. HookEnd n i ok \<in> set (ex_log ex))"
    and "distinct (started (ex_log ex))" and "ordered_log m (ex_log ex)"
    and "\<And>n. ex_phase ex n = Some Failed \<Longrightarrow> failure_in (ex_log ex)"
    and "finite (dom (ex_phase ex))"
  shows "exec_inv m ex"
  using assms unfolding exec_inv_def by blast

lemma done_closed:
  assumes "exec_inv m ex" "(n, d) \<in> (dep_rel (sm_tree m))\<^sup>+"
    "\<forall>d \<in> set (deps_of (sm_tree m) n). ex_phase ex d = Some Done"
  shows "ex_phase ex d = Some Done"
  using assms(2)
proof (induction rule: trancl_induct)
  case (step y z)
  then show ?case using exec_invD(2) [OF assms(1), of y z] by simp
qed (use assms in simp)

lemma started_log_ok:
  assumes inv: "exec_inv m ex" and deps: "\<forall>d \<in> set (deps_of (sm_tree m) n). ex_phase ex d = Some Done"
    and fresh: "ex_phase ex n \<in> {None, Some Waiting}" and "is": "distinct is"
    and ev: "started ev = []" "\<And>k i. HookStart k i \<notin> set ev"
  shows "ordered_log m (ex_log ex @ map (HookStart n) is @ ev)"
    and "distinct (started (ex_log ex @ map (HookStart n) is @ ev))"
proof -
  show "ordered_log m (ex_log ex @ map (HookStart n) is @ ev)"
  proof (rule ordered_append [OF exec_invD(7) [OF inv]])
    fix k i d assume k: "HookStart k i \<in> set (map (HookStart n) is @ ev)"
      and kd: "(k, d) \<in> (dep_rel (sm_tree m))\<^sup>+"
    then have "k = n" using ev by auto
    then have "ex_phase ex d = Some Done" using done_closed [OF inv] kd deps by blast
    then show "hooks_ended m (ex_log ex) d" by (rule exec_invD(3) [OF inv])
  qed
  have "(n, i) \<notin> set (started (ex_log ex))" for i using exec_invD(4) [OF inv] fresh by force
  then show "distinct (started (ex_log ex @ map (HookStart n) is @ ev))"
    using exec_invD(6) [OF inv] "is" ev by (auto simp: distinct_map inj_on_def)
qed

lemma start_hooks_inv:
  assumes inv: "exec_inv m ex"
    and deps: "\<forall>d \<in> set (deps_of (sm_tree m) n). ex_phase ex d = Some Done"
    and ph: "ex_phase ex n \<in> {None, Some Waiting}"
    and ac: "dep_acyclic m"
  shows "exec_inv m (start_hooks throws m n ex)"
proof -
  obtain "is" t where c: "call_hooks throws 0 (hooks_of m n) = (is, t)"
    by (cases "call_hooks throws 0 (hooks_of m n)")
  define p where "p = (if t = None then Running else Failed)"
  define ev where "ev = (case t of None \<Rightarrow> [] | Some j \<Rightarrow> [HookThrow n j])"
  let ?ex = "start_hooks throws m n ex"
  have st: "ex_phase ?ex = (ex_phase ex)(n \<mapsto> p)" "ex_open ?ex = ex_open ex @ map (Pair n) is"
    "ex_log ?ex = ex_log ex @ map (HookStart n) is @ ev"
    using c by (auto simp: start_hooks_def p_def ev_def split: option.splits)
  have isd: "distinct is" "\<And>i. i \<in> set is \<Longrightarrow> i < length (hooks_of m n)"
    and iss: "t = None \<Longrightarrow> set is = {..<length (hooks_of m n)}"
    using call_hooks_spec [OF c] by (auto split: option.splits)
  have selfdep: "n \<notin> set (deps_of (sm_tree m) n)"
    using ac unfolding dep_acyclic_iff acyclic_def by (metis dep_rel_iff r_into_trancl)
  have notdone: "ex_phase ex n \<noteq> Some Done" "ex_phase ex n \<noteq> Some Running" using ph by auto
  have evs: "started ev = []" "\<And>k i. HookStart k i \<notin> set ev" by (auto simp: ev_def split: option.splits)
  note log_ok = started_log_ok [OF inv deps ph isd(1) evs]
  show ?thesis
    unfolding exec_inv_def st
  proof (intro conjI allI impI ballI)
    fix k d assume "((ex_phase ex)(n \<mapsto> p)) k \<noteq> None" "d \<in> set (deps_of (sm_tree m) k)"
    then show "((ex_phase ex)(n \<mapsto> p)) d \<noteq> None"
      using exec_invD(1) [OF inv, of k d] deps by (cases "k = n") auto
  next
    fix k d assume k: "((ex_phase ex)(n \<mapsto> p)) k \<in> {Some Running, Some Done}"
      "d \<in> set (deps_of (sm_tree m) k)"
    then have "ex_phase ex d = Some Done"
      using exec_invD(2) [OF inv, of k d] deps by (cases "k = n") auto
    then show "((ex_phase ex)(n \<mapsto> p)) d = Some Done" using notdone by auto
  next
    fix k assume "((ex_phase ex)(n \<mapsto> p)) k = Some Done"
    then have "ex_phase ex k = Some Done" by (auto simp: p_def split: if_splits)
    then show "hooks_ended m (ex_log ex @ map (HookStart n) is @ ev) k"
      using exec_invD(3) [OF inv] hooks_ended_mono by blast
  next
    fix k i assume "(k, i) \<in> set (started (ex_log ex @ map (HookStart n) is @ ev))"
    then show "i < length (hooks_of m k)"
      using exec_invD(4) [OF inv, of k i] isd(2) evs by auto
  next
    fix k i assume "(k, i) \<in> set (started (ex_log ex @ map (HookStart n) is @ ev))"
    then show "((ex_phase ex)(n \<mapsto> p)) k \<in> {Some Running, Some Done, Some Failed}"
      using exec_invD(4) [OF inv, of k i] evs by (auto simp: p_def)
  next
    fix k i assume "((ex_phase ex)(n \<mapsto> p)) k = Some Running" "i < length (hooks_of m k)"
    then show "(k, i) \<in> set (ex_open ex @ map (Pair n) is) \<or>
      (\<exists>ok. HookEnd k i ok \<in> set (ex_log ex @ map (HookStart n) is @ ev))"
      using exec_invD(5) [OF inv, of k i] iss by (cases "k = n") (auto simp: p_def split: if_splits)
  next
    assume "\<exists>k. ((ex_phase ex)(n \<mapsto> p)) k = Some Failed"
    then show "failure_in (ex_log ex @ map (HookStart n) is @ ev)"
      using exec_invD(8) [OF inv]
      by (fastforce simp: p_def ev_def failure_in_def split: if_splits option.splits)
  next
    show "finite (dom ((ex_phase ex)(n \<mapsto> p)))" using exec_invD(9) [OF inv] by simp
  qed (use log_ok in simp_all)
qed

lemma exec_upd:
  "ex_phase (ex\<lparr>ex_phase := f\<rparr>) = f" "ex_open (ex\<lparr>ex_phase := f\<rparr>) = ex_open ex"
  "ex_log (ex\<lparr>ex_phase := f\<rparr>) = ex_log ex"
  "ex_phase (ex\<lparr>ex_open := q, ex_log := l\<rparr>) = ex_phase ex" "ex_open (ex\<lparr>ex_open := q, ex_log := l\<rparr>) = q"
  "ex_log (ex\<lparr>ex_open := q, ex_log := l\<rparr>) = l"
  by simp_all

lemma exec_inv_phase:
  assumes inv: "exec_inv m ex"
    and old: "ex_phase ex n \<noteq> Some Done"
    and deps: "\<And>d. d \<in> set (deps_of (sm_tree m) n) \<Longrightarrow> ex_phase ex d \<noteq> None"
    and p: "p \<noteq> Running" "p = Waiting \<Longrightarrow> ex_phase ex n = None"
      "p = Done \<Longrightarrow> ex_phase ex n = Some Running \<and> hooks_ended m (ex_log ex) n"
      "p = Failed \<Longrightarrow> failure_in (ex_log ex)"
  shows "exec_inv m (ex\<lparr>ex_phase := (ex_phase ex)(n \<mapsto> p)\<rparr>)"
proof (rule exec_invI, unfold exec_upd)
  fix k d assume "((ex_phase ex)(n \<mapsto> p)) k \<noteq> None" "d \<in> set (deps_of (sm_tree m) k)"
  then show "((ex_phase ex)(n \<mapsto> p)) d \<noteq> None"
    using exec_invD(1) [OF inv, of k d] deps by (cases "k = n") auto
next
  fix k d assume k: "((ex_phase ex)(n \<mapsto> p)) k = Some Running \<or> ((ex_phase ex)(n \<mapsto> p)) k = Some Done"
    "d \<in> set (deps_of (sm_tree m) k)"
  have "ex_phase ex k \<in> {Some Running, Some Done}"
    using k(1) p by (cases "k = n") auto
  then have "ex_phase ex d = Some Done" using exec_invD(2) [OF inv] k(2) by blast
  then show "((ex_phase ex)(n \<mapsto> p)) d = Some Done" using old by auto
next
  fix k assume "((ex_phase ex)(n \<mapsto> p)) k = Some Done"
  then show "hooks_ended m (ex_log ex) k"
    using exec_invD(3) [OF inv] p(3) by (cases "k = n") auto
next
  fix k i assume k: "(k, i) \<in> set (started (ex_log ex))"
  show "i < length (hooks_of m k) \<and>
      ((ex_phase ex)(n \<mapsto> p)) k \<in> {Some Running, Some Done, Some Failed}"
    using exec_invD(4) [OF inv k] p(1,2) by (cases "k = n"; cases p) auto
next
  fix k i assume "((ex_phase ex)(n \<mapsto> p)) k = Some Running" "i < length (hooks_of m k)"
  then show "(k, i) \<in> set (ex_open ex) \<or> (\<exists>ok. HookEnd k i ok \<in> set (ex_log ex))"
    using exec_invD(5) [OF inv, of k i] p(1) by (cases "k = n") auto
next
  fix k assume "((ex_phase ex)(n \<mapsto> p)) k = Some Failed"
  then show "failure_in (ex_log ex)"
    using exec_invD(8) [OF inv, of k] p(4) by (cases "k = n") auto
next
  show "distinct (started (ex_log ex))" by (rule exec_invD(6) [OF inv])
  show "ordered_log m (ex_log ex)" by (rule exec_invD(7) [OF inv])
  show "finite (dom ((ex_phase ex)(n \<mapsto> p)))" using exec_invD(9) [OF inv] by simp
qed

lemma start_hooks_phase:
  "ex_phase (start_hooks throws m n ex) k = (if k = n then Some (if snd (call_hooks throws 0 (hooks_of m n)) = None
    then Running else Failed) else ex_phase ex k)"
  by (auto simp: start_hooks_def split: prod.splits option.splits)

lemma exec_frame:
  shows "exec_module fuel throws m n ex = Some ex' \<Longrightarrow>
      ex_phase ex' n \<noteq> None \<and> (ex_phase ex k \<noteq> None \<longrightarrow> ex_phase ex' k \<noteq> None) \<and>
      ((n, k) \<notin> (dep_rel (sm_tree m))\<^sup>* \<longrightarrow> ex_phase ex' k = ex_phase ex k)"
    and "exec_modules fuel throws m ns ex = Some ex' \<Longrightarrow>
      (\<forall>n \<in> set ns. ex_phase ex' n \<noteq> None) \<and> (ex_phase ex k \<noteq> None \<longrightarrow> ex_phase ex' k \<noteq> None) \<and>
      ((\<forall>n \<in> set ns. (n, k) \<notin> (dep_rel (sm_tree m))\<^sup>*) \<longrightarrow> ex_phase ex' k = ex_phase ex k)"
proof (induction fuel throws m n ex and fuel throws m ns ex arbitrary: ex' k and ex' k
    rule: exec_module_exec_modules.induct)
  case (2 fuel throws m n ex)
  show ?case
  proof (cases "ex_phase ex n \<noteq> None \<or> deps_of (sm_tree m) n = []")
    case True
    then show ?thesis using "2.prems" by (auto simp: start_hooks_phase split: if_splits)
  next
    case False
    then obtain ex1 where e: "exec_modules fuel throws m (deps_of (sm_tree m) n) ex = Some ex1"
      "ex' = ex1\<lparr>ex_phase := (ex_phase ex1)(n \<mapsto> Waiting)\<rparr>"
      using "2.prems" by (auto split: option.splits)
    have "(d, k) \<notin> (dep_rel (sm_tree m))\<^sup>*"
      if "(n, k) \<notin> (dep_rel (sm_tree m))\<^sup>*" "d \<in> set (deps_of (sm_tree m) n)" for d
      using that by (meson converse_rtrancl_into_rtrancl dep_rel_iff)
    then show ?thesis using "2.IH" [of ex1 k] False e by auto
  qed
next
  case (4 fuel throws m n ns ex)
  then obtain ex1 where e: "exec_module fuel throws m n ex = Some ex1"
    "exec_modules fuel throws m ns ex1 = Some ex'" by (auto split: option.splits)
  have "ex_phase ex' n \<noteq> None"
    using "4.IH"(1) [OF e(1), of n] "4.IH"(2) [OF e, of n] by auto
  then show ?case using "4.IH"(1) [OF e(1), of k] "4.IH"(2) [OF e, of k] by auto
qed auto

lemma sync_inv:
  assumes "dep_acyclic m"
  shows "exec_module fuel throws m n ex = Some ex' \<Longrightarrow> exec_inv m ex \<Longrightarrow> exec_inv m ex'"
    and "exec_modules fuel throws m ns ex = Some ex' \<Longrightarrow> exec_inv m ex \<Longrightarrow> exec_inv m ex'"
  using assms
proof (induction fuel throws m n ex and fuel throws m ns ex arbitrary: ex' and ex'
    rule: exec_module_exec_modules.induct)
  case (2 fuel throws m n ex)
  show ?case
  proof (cases "ex_phase ex n \<noteq> None \<or> deps_of (sm_tree m) n = []")
    case True
    then show ?thesis using "2.prems" start_hooks_inv [of m ex n throws] by (auto split: if_splits)
  next
    case False
    then obtain ex1 where e: "exec_modules fuel throws m (deps_of (sm_tree m) n) ex = Some ex1"
      "ex' = ex1\<lparr>ex_phase := (ex_phase ex1)(n \<mapsto> Waiting)\<rparr>"
      using "2.prems" by (auto split: option.splits)
    have inv1: "exec_inv m ex1" using "2.IH" False e(1) "2.prems" by auto
    have "(d, n) \<notin> (dep_rel (sm_tree m))\<^sup>*" if "d \<in> set (deps_of (sm_tree m) n)" for d
      using that "2.prems"(3) unfolding dep_acyclic_iff acyclic_def
      by (meson dep_rel_iff rtrancl_into_trancl2)
    then have n: "ex_phase ex1 n = None" using exec_frame(2) [OF e(1), of n] False by auto
    have ds: "\<forall>d \<in> set (deps_of (sm_tree m) n). ex_phase ex1 d \<noteq> None"
      using exec_frame(2) [OF e(1)] by blast
    show ?thesis
      unfolding e(2) by (rule exec_inv_phase [OF inv1]) (use n ds in auto)
  qed
next
  case (4 fuel throws m n ns ex)
  then show ?case by (auto split: option.splits)
qed auto

lemma ex_init_inv: "exec_inv m ex_init"
  by (simp add: exec_inv_def ex_init_def ordered_log_def)

lemma started_end [simp]: "started (l @ [HookEnd n i ok]) = started l"
  by simp

lemma exec_inv_settle:
  assumes inv: "exec_inv m ex"
  shows "exec_inv m (ex\<lparr>ex_open := remove1 (n, i) (ex_open ex), ex_log := ex_log ex @ [HookEnd n i ok]\<rparr>)"
proof -
  have "ordered_log m (ex_log ex @ [HookEnd n i ok])"
    by (rule ordered_append [OF exec_invD(7) [OF inv]]) simp
  then show ?thesis
  proof (intro exec_invI, unfold exec_upd)
    fix k assume "ex_phase ex k = Some Done"
    then show "hooks_ended m (ex_log ex @ [HookEnd n i ok]) k"
      using exec_invD(3) [OF inv] by (blast intro: hooks_ended_mono)
  next
    fix k assume "ex_phase ex k = Some Failed"
    then show "failure_in (ex_log ex @ [HookEnd n i ok])"
      using exec_invD(8) [OF inv] failure_in_mono by blast
  next
    fix k j assume r: "ex_phase ex k = Some Running" "j < length (hooks_of m k)"
    show "(k, j) \<in> set (remove1 (n, i) (ex_open ex)) \<or>
      (\<exists>ok'. HookEnd k j ok' \<in> set (ex_log ex @ [HookEnd n i ok]))"
    proof (cases "(k, j) = (n, i)")
      case False
      then have "(k, j) \<in> set (remove1 (n, i) (ex_open ex)) \<longleftrightarrow> (k, j) \<in> set (ex_open ex)"
        by (rule in_set_remove1)
      then show ?thesis using exec_invD(5) [OF inv r] by auto
    qed auto
  next
    fix k j assume "(k, j) \<in> set (started (ex_log ex @ [HookEnd n i ok]))"
    then show "j < length (hooks_of m k) \<and> ex_phase ex k \<in> {Some Running, Some Done, Some Failed}"
      using exec_invD(4) [OF inv, of k j] by simp
  next
    show "distinct (started (ex_log ex @ [HookEnd n i ok]))" using exec_invD(6) [OF inv] by simp
  qed (use exec_invD(1,2,9) [OF inv] in blast)+
qed

lemma exec_step_inv:
  assumes "exec_step throws m ex ex'" "exec_inv m ex" "dep_acyclic m"
  shows "exec_inv m ex'"
  using assms(1)
proof cases
  case (hook_settles n i ok)
  then show ?thesis using exec_inv_settle [OF assms(2)] by simp
next
  case (deps_done n)
  then show ?thesis using start_hooks_inv [OF assms(2) _ _ assms(3)] by simp
next
  case (deps_fail n d)
  show ?thesis
    unfolding deps_fail(1) using exec_invD(8) [OF assms(2) deps_fail(4)] deps_fail(2)
      exec_invD(1) [OF assms(2), of n]
    by (intro exec_inv_phase [OF assms(2)]) auto
next
  case (module_done n)
  show ?thesis
    unfolding module_done(1) using module_done(2,3) exec_invD(1) [OF assms(2), of n]
    by (intro exec_inv_phase [OF assms(2)]) (auto simp: hooks_ended_def)
next
  case (module_fail n i)
  then have "failure_in (ex_log ex)" by (auto simp: failure_in_def)
  then show ?thesis
    unfolding module_fail(1) using module_fail(2) exec_invD(1) [OF assms(2), of n]
    by (intro exec_inv_phase [OF assms(2)]) auto
qed

lemma exec_reach_inv:
  assumes "exec_reach throws m ex" "dep_acyclic m"
  shows "exec_inv m ex"
  using assms(1)
proof induction
  case (exec_reach_init ex)
  then show ?case
    unfolding executeAll_start_def by (rule sync_inv(2) [OF assms(2) _ ex_init_inv])
qed (use exec_step_inv assms(2) in blast)

section \<open>Runs end, and end with every hook run\<close>

definition phase_weight :: "'h shutdown_mgr \<Rightarrow> exec \<Rightarrow> string \<Rightarrow> nat" where
  "phase_weight m ex n = (case ex_phase ex n of
      Some Waiting \<Rightarrow> length (hooks_of m n) + 2 | Some Running \<Rightarrow> 1 | _ \<Rightarrow> 0)"

definition exec_weight :: "'h shutdown_mgr \<Rightarrow> exec \<Rightarrow> nat" where
  "exec_weight m ex = length (ex_open ex) + (\<Sum>n \<in> dom (ex_phase ex). phase_weight m ex n)"

lemma weight_drop:
  assumes fin: "finite (dom (ex_phase ex))" and n: "ex_phase ex n \<noteq> None"
    and ph: "ex_phase ex' = (ex_phase ex)(n \<mapsto> p)"
    and w: "length (ex_open ex') + phase_weight m ex' n < length (ex_open ex) + phase_weight m ex n"
  shows "exec_weight m ex' < exec_weight m ex"
proof -
  have d: "dom (ex_phase ex') = dom (ex_phase ex)" "n \<in> dom (ex_phase ex)" using n ph by auto
  have "(\<Sum>k \<in> dom (ex_phase ex) - {n}. phase_weight m ex' k) =
      (\<Sum>k \<in> dom (ex_phase ex) - {n}. phase_weight m ex k)"
    by (rule sum.cong) (auto simp: phase_weight_def ph)
  then show ?thesis
    using w d fin by (simp add: exec_weight_def sum.remove)
qed

lemma exec_step_weight:
  assumes "exec_step throws m ex ex'" "exec_inv m ex"
  shows "exec_weight m ex' < exec_weight m ex"
proof -
  have fin: "finite (dom (ex_phase ex))" by (rule exec_invD(9) [OF assms(2)])
  from assms(1) show ?thesis
  proof cases
    case (hook_settles n i ok)
    then have "length (ex_open ex') < length (ex_open ex)"
      by (simp add: length_remove1) (metis diff_Suc_less length_pos_if_in_set One_nat_def)
    moreover have "ex_phase ex' = ex_phase ex" using hook_settles by simp
    ultimately show ?thesis by (simp add: exec_weight_def phase_weight_def)
  next
    case (deps_done n)
    obtain "is" t where c: "call_hooks throws 0 (hooks_of m n) = (is, t)"
      by (cases "call_hooks throws 0 (hooks_of m n)")
    have l: "length is \<le> length (hooks_of m n)"
      using call_hooks_spec [OF c] by (auto split: option.splits)
    show ?thesis
      by (rule weight_drop [OF fin, of n ex' "if t = None then Running else Failed"])
        (use deps_done c l in \<open>auto simp: start_hooks_def phase_weight_def split: option.splits\<close>)
  next
    case (deps_fail n d)
    then show ?thesis
      by (intro weight_drop [OF fin, of n ex' Failed]) (auto simp: phase_weight_def)
  next
    case (module_done n)
    then show ?thesis
      by (intro weight_drop [OF fin, of n ex' Done]) (auto simp: phase_weight_def)
  next
    case (module_fail n i)
    then show ?thesis
      by (intro weight_drop [OF fin, of n ex' Failed]) (auto simp: phase_weight_def)
  qed
qed

lemma dep_wf: "dep_acyclic m \<Longrightarrow> wf ((dep_rel (sm_tree m))\<inverse>)"
proof (rule finite_acyclic_wf_converse)
  have "dep_rel (sm_tree m) \<subseteq> (\<Union>n \<in> set (om_keys (sm_tree m)). Pair n ` set (deps_of (sm_tree m) n))"
    using deps_of_in_keys by (fastforce simp: dep_rel_def)
  then show "finite (dep_rel (sm_tree m))" by (rule finite_subset) simp
qed (simp add: dep_acyclic_iff)

lemma exec_stuck_done:
  assumes ac: "dep_acyclic m" and inv: "exec_inv m ex"
    and stuck: "\<And>ex'. \<not> exec_step throws m ex ex'"
    and ok: "\<not> failure_in (ex_log ex)"
  shows "ex_phase ex n \<noteq> None \<Longrightarrow> ex_phase ex n = Some Done"
proof (induction n rule: wf_induct_rule [OF dep_wf [OF ac]])
  case (1 n)
  have deps: "ex_phase ex d = Some Done" if "d \<in> set (deps_of (sm_tree m) n)" for d
    using 1 that exec_invD(1) [OF inv "1.prems" that] by simp
  have "ex_phase ex n \<noteq> Some Waiting" using stuck exec_step.deps_done deps by blast
  moreover have "ex_phase ex n \<noteq> Some Failed" using exec_invD(8) [OF inv] ok by blast
  moreover have "ex_phase ex n \<noteq> Some Running"
  proof
    assume r: "ex_phase ex n = Some Running"
    have "ex_open ex = []"
    proof (rule ccontr)
      assume "ex_open ex \<noteq> []"
      then obtain k i where "(k, i) \<in> set (ex_open ex)" by (cases "ex_open ex") auto
      then show False using stuck exec_step.hook_settles by blast
    qed
    then have "\<forall>i < length (hooks_of m n). HookEnd n i True \<in> set (ex_log ex)"
      using exec_invD(5) [OF inv r] ok unfolding failure_in_def by (metis (full_types) empty_iff empty_set)
    then show False using stuck exec_step.module_done [of ex n m throws] r by blast
  qed
  ultimately show ?case using "1.prems" by (metis not_None_eq phase.exhaust)
qed

lemma exec_reach_keys:
  "exec_reach throws m ex \<Longrightarrow> n \<in> set (om_keys (sm_hooks m)) \<Longrightarrow> ex_phase ex n \<noteq> None"
proof (induction rule: exec_reach.induct)
  case (exec_reach_init ex)
  then show ?case using exec_frame(2) by (fastforce simp: executeAll_start_def)
next
  case (exec_reach_step ex ex')
  from exec_reach_step.hyps(2) show ?case
    by cases (use exec_reach_step in \<open>auto simp: start_hooks_phase\<close>)
qed

section \<open>Properties\<close>

lemma addHooks_empty_acyclic [simp]: "dep_acyclic (addHooks as sm_empty)"
  by (rule addHooks_acyclic) simp

text \<open>C1. addHook rejects a registration exactly when its dependencies would close a cycle, in any
  manager built by registrations from the empty one. A rejected registration throws and leaves hooks
  and dependency edges as they were; an accepted one appends the handler to its module's hooks and
  the dependencies to its edges; and the graph of the manager stays acyclic.\<close>
theorem addHook_rejects_exactly_cycles:
  assumes "m = addHooks as sm_empty" "hook_parts (sm_anon m) arg = (n, ds, h, a)"
    "addHook arg m = (r, m')"
  shows "acyclic (dep_rel (sm_tree m)) \<and> acyclic (dep_rel (sm_tree m')) \<and>
    (if acyclic (dep_rel (sm_tree m) \<union> {(n, d) |d. d \<in> set ds})
     then r = Inr () \<and> sm_hooks m' = om_set n (hooks_of m n @ [h]) (sm_hooks m) \<and>
       dep_rel (sm_tree m') = dep_rel (sm_tree m) \<union> {(n, d) |d. d \<in> set ds}
     else r = Inl (plain_error (''Adding shutdown handler '' @ n @ '' would create a dependency cycle'')) \<and>
       sm_hooks m' = sm_hooks m \<and> dep_rel (sm_tree m') = dep_rel (sm_tree m))"
proof -
  have m: "dep_acyclic m" using assms(1) by simp
  have "dep_acyclic m'" by (rule addHook_acyclic [OF m assms(3)])
  moreover from assms(3) have "if acyclic (dep_rel (sm_tree m) \<union> {(n, d) |d. d \<in> set ds})
     then r = Inr () \<and> sm_hooks m' = om_set n (hooks_of m n @ [h]) (sm_hooks m) \<and>
       dep_rel (sm_tree m') = dep_rel (sm_tree m) \<union> {(n, d) |d. d \<in> set ds}
     else r = Inl (plain_error (''Adding shutdown handler '' @ n @ '' would create a dependency cycle'')) \<and>
       sm_hooks m' = sm_hooks m \<and> dep_rel (sm_tree m') = dep_rel (sm_tree m)"
  proof (cases rule: addHook_cases)
    case (rejected n' ds' h' a')
    then show ?thesis
      using addHook_rejects_iff_cyclic [OF m assms(2)] assms(2,3) by auto
  next
    case (accepted n' ds' h' a')
    then have "acyclic (dep_rel (sm_tree m) \<union> {(n, d) |d. d \<in> set ds})"
      using addHook_rejects_iff_cyclic [OF m assms(2)] assms(2,3) by auto
    then show ?thesis
      using accepted assms(2) by (auto simp: dep_rel_def deps_of_set split: if_splits)
  qed
  ultimately show ?thesis using m by (simp add: dep_acyclic_iff)
qed

lemma addHook_rejects_exactly_cycles_witness:
  "fst (addHook (HookDeps ''db'' [''srv''] (7 :: nat))
     (addHooks [HookDeps ''srv'' [''db''] 5] sm_empty)) \<noteq> Inr ()"
proof -
  let ?m = "addHooks [HookDeps ''srv'' [''db''] (5 :: nat)] sm_empty"
  let ?arg = "HookDeps ''db'' [''srv''] (7 :: nat)"
  have t: "sm_tree ?m = [(''srv'', [''db''])] \<and> sm_anon ?m = 0"
    by (simp add: addHook_def hook_parts_def sm_empty_def deps_of_def hooks_of_def om_get_def om_set_def
      test_cycles.simps Let_def)
  then have e: "dep_rel (sm_tree ?m) = {(''srv'', ''db'')}"
    by (auto simp: dep_rel_def deps_of_def om_get_def split: if_splits)
  have "\<not> acyclic ({(''srv'', ''db'')} \<union> {(''db'', d) |d. d \<in> set [''srv'']})"
    (is "\<not> acyclic ?R")
  proof -
    have "(''db'', ''db'') \<in> ?R\<^sup>+"
      by (rule trancl_trans [OF r_into_trancl r_into_trancl, of _ "''srv''"]) simp_all
    then show ?thesis unfolding acyclic_def by blast
  qed
  then show ?thesis
    using addHook_rejects_exactly_cycles [OF refl, of "[HookDeps ''srv'' [''db''] 5]" ?arg "''db''"
      "[''srv'']" 7 0 "fst (addHook ?arg ?m)" "snd (addHook ?arg ?m)"] e t
    by (simp add: hook_parts_def)
qed

text \<open>C2. In every interleaving of a run of executeAll, a hook is called only after every hook of
  every module it depends on, directly or not, has resolved, and no hook is called twice.\<close>
theorem hooks_called_after_dependencies:
  assumes "exec_reach throws (addHooks as sm_empty) ex"
    "ex_log ex = pre @ HookStart n i # post"
  shows "HookStart n i \<notin> set pre \<and> HookStart n i \<notin> set post \<and>
    i < length (hooks_of (addHooks as sm_empty) n) \<and>
    (\<forall>d. (n, d) \<in> (dep_rel (sm_tree (addHooks as sm_empty)))\<^sup>+ \<longrightarrow>
      hooks_ended (addHooks as sm_empty) pre d)"
proof -
  have inv: "exec_inv (addHooks as sm_empty) ex" using exec_reach_inv [OF assms(1)] by simp
  have st: "(k, j) \<in> set (started l) \<longleftrightarrow> HookStart k j \<in> set l" for k j l
    by (induction l) (auto simp: started_def List.map_filter_def split: hook_event.splits)
  have "started (ex_log ex) = started pre @ (n, i) # started post"
    unfolding assms(2) by (simp add: started_def List.map_filter_def)
  then have "(n, i) \<notin> set (started pre) \<union> set (started post)" "(n, i) \<in> set (started (ex_log ex))"
    using exec_invD(6) [OF inv] by auto
  then show ?thesis
    using exec_invD(4) [OF inv, of n i] exec_invD(7) [OF inv] assms(2) st
    unfolding ordered_log_def by blast
qed

lemma exec_reach_I:
  "exec_reach throws m ex \<Longrightarrow> exec_step throws m ex ex' \<Longrightarrow> ex'' = ex' \<Longrightarrow> exec_reach throws m ex''"
  by (blast intro: exec_reach_step)

lemma hooks_called_after_dependencies_witness:
  "hooks_ended (addHooks [HookDeps ''srv'' [''db''] (0 :: nat), HookNamed ''db'' 1] sm_empty)
     [HookStart ''db'' 0, HookEnd ''db'' 0 True] ''db''"
proof -
  let ?as = "[HookDeps ''srv'' [''db''] (0 :: nat), HookNamed ''db'' 1]"
  define M where "M = addHooks ?as sm_empty"
  let ?t = "\<lambda>_. False"
  let ?e = "\<lambda>p q l. \<lparr>ex_phase = [''db'' \<mapsto> p, ''srv'' \<mapsto> q], ex_open = [], ex_log = l\<rparr>"
  let ?l = "[HookStart ''db'' 0, HookEnd ''db'' 0 True]"
  have m: "M = \<lparr>sm_tree = [(''srv'', [''db'']), (''db'', [])],
      sm_hooks = [(''srv'', [0]), (''db'', [1])], sm_anon = 0\<rparr>" unfolding M_def by code_simp
  have d: "deps_of (sm_tree M) ''srv'' = [''db'']" "deps_of (sm_tree M) ''db'' = []"
    "hooks_of M ''srv'' = [0]" "hooks_of M ''db'' = [1]"
    unfolding m by (simp_all add: deps_of_def hooks_of_def om_get_def)
  have "executeAll_start ?t M = Some \<lparr>ex_phase = [''db'' \<mapsto> Running, ''srv'' \<mapsto> Waiting],
      ex_open = [(''db'', 0)], ex_log = [HookStart ''db'' 0]\<rparr>"
    unfolding m by (simp add: executeAll_start_def om_keys_def ex_init_def deps_of_def om_get_def
      start_hooks_def hooks_of_def eval_nat_numeral)
  then have "exec_reach ?t M \<lparr>ex_phase = [''db'' \<mapsto> Running, ''srv'' \<mapsto> Waiting],
      ex_open = [(''db'', 0)], ex_log = [HookStart ''db'' 0]\<rparr>" by (rule exec_reach_init)
  then have "exec_reach ?t M (?e Running Waiting ?l)"
    by (rule exec_reach_I [OF _ hook_settles [of "''db''" 0 _ _ _ True]]) simp_all
  then have "exec_reach ?t M (?e Done Waiting ?l)"
    by (rule exec_reach_I [OF _ module_done [of _ "''db''"]]) (simp_all add: d fun_upd_twist)
  then have "exec_reach ?t M \<lparr>ex_phase = [''db'' \<mapsto> Done, ''srv'' \<mapsto> Running],
      ex_open = [(''srv'', 0)], ex_log = ?l @ HookStart ''srv'' 0 # []\<rparr>"
    by (rule exec_reach_I [OF _ deps_done [of _ "''srv''"]]) (simp_all add: d start_hooks_def)
  from hooks_called_after_dependencies [OF this [unfolded M_def], folded M_def, of ?l "''srv''" 0 "[]"]
  have "(''srv'', ''db'') \<in> (dep_rel (sm_tree M))\<^sup>+ \<Longrightarrow> hooks_ended M ?l ''db''" by simp
  moreover have "(''srv'', ''db'') \<in> (dep_rel (sm_tree M))\<^sup>+" by (rule r_into_trancl) (simp add: d)
  ultimately show ?thesis unfolding M_def by blast
qed

text \<open>C3. executeAll always returns: the synchronous part of a run never recurses for ever, every
  asynchronous step lowers a weight so that every run ends, and a run that ended without a hook
  throwing or rejecting has every registered module done and every hook of every module resolved.\<close>
theorem executeAll_runs_every_hook:
  "(\<exists>ex. executeAll_start throws (addHooks as sm_empty) = Some ex) \<and>
   (\<forall>ex. exec_reach throws (addHooks as sm_empty) ex \<longrightarrow>
     (\<forall>ex'. exec_step throws (addHooks as sm_empty) ex ex' \<longrightarrow>
       exec_weight (addHooks as sm_empty) ex' < exec_weight (addHooks as sm_empty) ex) \<and>
     ((\<nexists>ex'. exec_step throws (addHooks as sm_empty) ex ex') \<longrightarrow> \<not> failure_in (ex_log ex) \<longrightarrow>
       (\<forall>n \<in> set (om_keys (sm_hooks (addHooks as sm_empty))).
         ex_phase ex n = Some Done \<and> hooks_ended (addHooks as sm_empty) (ex_log ex) n)))"
proof (intro conjI allI impI ballI)
  fix ex n
  assume r: "exec_reach throws (addHooks as sm_empty) ex"
    "\<nexists>ex'. exec_step throws (addHooks as sm_empty) ex ex'" "\<not> failure_in (ex_log ex)"
    "n \<in> set (om_keys (sm_hooks (addHooks as sm_empty)))"
  have inv: "exec_inv (addHooks as sm_empty) ex" using exec_reach_inv [OF r(1)] by simp
  show "ex_phase ex n = Some Done"
    using exec_stuck_done [OF _ inv _ r(3)] r(2) exec_reach_keys [OF r(1,4)] by auto
  then show "hooks_ended (addHooks as sm_empty) (ex_log ex) n" by (rule exec_invD(3) [OF inv])
next
  fix ex ex'
  assume r: "exec_reach throws (addHooks as sm_empty) ex"
    "exec_step throws (addHooks as sm_empty) ex ex'"
  show "exec_weight (addHooks as sm_empty) ex' < exec_weight (addHooks as sm_empty) ex"
    by (rule exec_step_weight [OF r(2) exec_reach_inv [OF r(1)]]) simp
qed (auto intro: executeAll_start_total)

lemma executeAll_runs_every_hook_witness:
  "hooks_ended (addHooks [HookNamed ''a'' (0 :: nat)] sm_empty)
     [HookStart ''a'' 0, HookEnd ''a'' 0 True] ''a''"
proof -
  define M where "M = addHooks [HookNamed ''a'' (0 :: nat)] sm_empty"
  let ?t = "\<lambda>_. False"
  let ?l = "[HookStart ''a'' 0, HookEnd ''a'' 0 True]"
  let ?e = "\<lparr>ex_phase = [''a'' \<mapsto> Done], ex_open = [], ex_log = ?l\<rparr>"
  have m: "M = \<lparr>sm_tree = [(''a'', [])], sm_hooks = [(''a'', [0])], sm_anon = 0\<rparr>"
    unfolding M_def by code_simp
  have d: "deps_of (sm_tree M) ''a'' = []" "hooks_of M ''a'' = [0]"
    unfolding m by (simp_all add: deps_of_def hooks_of_def om_get_def)
  have "executeAll_start ?t M = Some \<lparr>ex_phase = [''a'' \<mapsto> Running], ex_open = [(''a'', 0)],
      ex_log = [HookStart ''a'' 0]\<rparr>"
    unfolding m by (simp add: executeAll_start_def om_keys_def ex_init_def deps_of_def om_get_def
      start_hooks_def hooks_of_def eval_nat_numeral)
  then have "exec_reach ?t M \<lparr>ex_phase = [''a'' \<mapsto> Running], ex_open = [(''a'', 0)],
      ex_log = [HookStart ''a'' 0]\<rparr>" by (rule exec_reach_init)
  then have "exec_reach ?t M \<lparr>ex_phase = [''a'' \<mapsto> Running], ex_open = [], ex_log = ?l\<rparr>"
    by (rule exec_reach_I [OF _ hook_settles [of "''a''" 0 _ _ _ True]]) simp_all
  then have r: "exec_reach ?t M ?e"
    by (rule exec_reach_I [OF _ module_done [of _ "''a''"]]) (simp_all add: d)
  have "\<nexists>ex'. exec_step ?t M ?e ex'"
    by (auto elim!: exec_step.cases split: if_splits)
  moreover have "\<not> failure_in ?l" by (auto simp: failure_in_def)
  moreover have "''a'' \<in> set (om_keys (sm_hooks M))" unfolding m by (simp add: om_keys_def)
  ultimately show ?thesis
    using executeAll_runs_every_hook [of ?t "[HookNamed ''a'' (0 :: nat)]", folded M_def] r
    unfolding M_def [symmetric] by auto
qed

end
