(* ===== verification/Descriptors.thy ===== *)
theory Descriptors
  imports Prelude Connect
begin

text \<open>
  Service descriptors, catalogs and local activation: packages/core/src/serviceCatalog.ts and
  packages/core/src/enabledServices.ts.

  A descriptor keeps what the sources read: type name, method names and kinds, and the identity of
  the file it comes from (descriptors are compared by identity, so the file is a number). A catalog
  is a JavaScript record, an ordered map. glob_matches is the declarative meaning of a pattern; the
  segment scan of the source is proved equal to it.
\<close>

section \<open>Descriptors\<close>

datatype method_kind = Unary | ServerStreaming | ClientStreaming | BidiStreaming

record desc_method =
  dm_name :: string
  dm_kind :: method_kind

record desc_service =
  ds_typeName :: string
  ds_methods :: "desc_method list"
  ds_file :: nat

section \<open>Catalogs (serviceCatalog.ts)\<close>

type_synonym catalog = "(string, desc_service) omap"

definition catalog_config_error :: "string \<Rightarrow> jserr" where
  "catalog_config_error msg = plain_error (''CatalogConfigError: '' @ msg)"

definition defineCatalog :: "catalog \<Rightarrow> jserr + catalog" where
  "defineCatalog record =
    (case find (\<lambda>(key, d). key \<noteq> ds_typeName d) record of
       Some (key, d) \<Rightarrow> Inl (catalog_config_error (''defineCatalog: key '' @ key @
         '' must match descriptor.typeName '' @ ds_typeName d))
     | None \<Rightarrow> Inr record)"

fun merge_entries :: "(string \<times> desc_service) list \<Rightarrow> catalog \<Rightarrow> jserr + catalog" where
  "merge_entries [] merged = Inr merged"
| "merge_entries ((typeName, d) # es) merged =
    (if typeName \<noteq> ds_typeName d
     then Inl (catalog_config_error (''mergeCatalogs: key '' @ typeName @ '' must match descriptor.typeName ''
       @ ds_typeName d))
     else if om_has merged typeName
     then Inl (catalog_config_error (''mergeCatalogs: duplicate typeName: '' @ typeName))
     else merge_entries es (om_set typeName d merged))"

fun merge_from :: "catalog list \<Rightarrow> catalog \<Rightarrow> jserr + catalog" where
  "merge_from [] merged = Inr merged"
| "merge_from (c # cs) merged =
    (case merge_entries c merged of Inl e \<Rightarrow> Inl e | Inr merged' \<Rightarrow> merge_from cs merged')"

definition mergeCatalogs :: "catalog list \<Rightarrow> jserr + catalog" where
  "mergeCatalogs catalogs = merge_from catalogs []"

definition well_keyed :: "catalog \<Rightarrow> bool" where
  "well_keyed c \<longleftrightarrow> list_all (\<lambda>(key, d). key = ds_typeName d) c"

lemma defineCatalog_Inr_iff: "defineCatalog c = Inr c' \<longleftrightarrow> c' = c \<and> well_keyed c"
proof (cases "find (\<lambda>(key, d). key \<noteq> ds_typeName d) c")
  case None
  then have "well_keyed c" by (auto simp: well_keyed_def list_all_iff find_None_iff)
  then show ?thesis using None by (auto simp: defineCatalog_def)
next
  case (Some p)
  then have "p \<in> set c \<and> \<not> (case p of (key, d) \<Rightarrow> key = ds_typeName d)"
    by (auto simp: find_Some_iff case_prod_beta)
  then have "\<not> well_keyed c" unfolding well_keyed_def list_all_iff by blast
  then show ?thesis using Some by (simp add: defineCatalog_def split: prod.splits)
qed

lemma merge_entries_Inr_iff:
  "merge_entries es merged = Inr r \<longleftrightarrow>
    r = merged @ es \<and> well_keyed es \<and> distinct (map fst es) \<and> set (map fst es) \<inter> set (om_keys merged) = {}"
proof (induction es arbitrary: merged)
  case (Cons e es)
  obtain k d where e: "e = (k, d)" by (cases e)
  show ?case
  proof (cases "k = ds_typeName d \<and> \<not> om_has merged k")
    case True
    then have "om_set k d merged = merged @ [(k, d)]" by (intro om_set_new) (use True in simp)
    then show ?thesis
      using True Cons.IH [of "om_set k d merged"] e
      by (auto simp: well_keyed_def om_keys_def om_has_keys)
  next
    case False
    then show ?thesis using e by (auto simp: well_keyed_def om_has_keys)
  qed
qed (auto simp: well_keyed_def)

lemma merge_from_Inr_iff:
  "merge_from cs merged = Inr r \<longleftrightarrow>
    r = merged @ concat cs \<and> list_all well_keyed cs \<and> distinct (map fst (concat cs)) \<and>
    set (map fst (concat cs)) \<inter> set (om_keys merged) = {}"
proof (induction cs arbitrary: merged)
  case (Cons c cs)
  show ?case
  proof (cases "merge_entries c merged")
    case (Inr m')
    then have m': "m' = merged @ c" "well_keyed c" "distinct (map fst c)"
      "set (map fst c) \<inter> set (om_keys merged) = {}"
      using merge_entries_Inr_iff by auto
    have "merge_from (c # cs) merged = Inr r \<longleftrightarrow> r = merged @ c @ concat cs \<and> list_all well_keyed cs \<and>
        distinct (map fst (concat cs)) \<and>
        set (map fst (concat cs)) \<inter> (set (om_keys merged) \<union> set (map fst c)) = {}"
      using Inr Cons.IH [of m'] m'(1) by (simp add: om_keys_def)
    also have "\<dots> \<longleftrightarrow> r = merged @ concat (c # cs) \<and> list_all well_keyed (c # cs) \<and>
        distinct (map fst (concat (c # cs))) \<and> set (map fst (concat (c # cs))) \<inter> set (om_keys merged) = {}"
      using m'(2-4) unfolding concat.simps map_append distinct_append set_append list.pred_inject by blast
    finally show ?thesis .
  next
    case (Inl e)
    then have "\<not> (well_keyed c \<and> distinct (map fst c) \<and> set (map fst c) \<inter> set (om_keys merged) = {})"
      using merge_entries_Inr_iff [of c merged] by (metis Inl_Inr_False)
    then show ?thesis using Inl by auto
  qed
qed auto

section \<open>Local activation (enabledServices.ts)\<close>

definition parseServicesEnv :: "string option \<Rightarrow> string list" where
  "parseServicesEnv value = (case value of
      None \<Rightarrow> []
    | Some v \<Rightarrow> if v = [] then [] else filter (\<lambda>e. e \<noteq> []) (map js_trim (js_split CHR '','' v)))"

fun find_sub :: "'a list \<Rightarrow> 'a list \<Rightarrow> nat option" where
  "find_sub seg [] = (if seg = [] then Some 0 else None)"
| "find_sub seg (x # xs) = (if prefix seg (x # xs) then Some 0 else map_option Suc (find_sub seg xs))"

definition js_indexOf :: "'a list \<Rightarrow> 'a list \<Rightarrow> nat \<Rightarrow> nat option" where
  "js_indexOf name seg cursor = map_option ((+) cursor) (find_sub seg (drop cursor name))"

fun glob_middle :: "string \<Rightarrow> nat \<Rightarrow> nat \<Rightarrow> string list \<Rightarrow> bool" where
  "glob_middle name limit cursor [] = (cursor \<le> limit)"
| "glob_middle name limit cursor (segment # segments) =
    (case js_indexOf name segment cursor of
       None \<Rightarrow> False
     | Some found \<Rightarrow>
        if found + length segment > limit then False
        else glob_middle name limit (found + length segment) segments)"

definition globMatch :: "string \<Rightarrow> string \<Rightarrow> bool" where
  "globMatch pattern name =
    (let segments = js_split CHR ''*'' pattern in
     if length segments = 1 then pattern = name
     else let f = hd segments; l = last segments in
       if \<not> prefix f name then False
       else if \<not> suffix l name then False
       else glob_middle name (length name - length l) (length f) (butlast (tl segments)))"

definition matchServicesPattern :: "string \<Rightarrow> string list \<Rightarrow> string list" where
  "matchServicesPattern pattern names = filter (globMatch pattern) names"

fun merge_names :: "string list \<Rightarrow> string list \<Rightarrow> string list" where
  "merge_names [] merged = merged"
| "merge_names (name # names) merged =
    merge_names names (if name \<in> set merged then merged else merged @ [name])"

definition mergeEnabledServices :: "string list list \<Rightarrow> string list" where
  "mergeEnabledServices name_lists = fold merge_names name_lists []"

section \<open>What a pattern means\<close>

fun glob_matches :: "string \<Rightarrow> string \<Rightarrow> bool" where
  "glob_matches [] s = (s = [])"
| "glob_matches (c # p) s =
    (if c = CHR ''*'' then (\<exists>k \<le> length s. glob_matches p (drop k s))
     else (case s of [] \<Rightarrow> False | x # s' \<Rightarrow> x = c \<and> glob_matches p s'))"

fun segs_match :: "string list \<Rightarrow> string \<Rightarrow> bool" where
  "segs_match [] s = False"
| "segs_match [x] s = (s = x)"
| "segs_match (x # y # zs) s = (\<exists>gap rest. s = x @ gap @ rest \<and> segs_match (y # zs) rest)"

fun middle_match :: "string list \<Rightarrow> string \<Rightarrow> bool" where
  "middle_match [] w = True"
| "middle_match (seg # segs) w = (\<exists>gap rest. w = gap @ seg @ rest \<and> middle_match segs rest)"

lemma glob_matches_segs: "glob_matches p s \<longleftrightarrow> segs_match (js_split CHR ''*'' p) s"
proof (induction p arbitrary: s)
  case (Cons c p)
  obtain q qs where q: "js_split CHR ''*'' p = q # qs" by (cases "js_split CHR ''*'' p") auto
  show ?case
  proof (cases "c = CHR ''*''")
    case True
    have "(\<exists>k \<le> length s. glob_matches p (drop k s)) \<longleftrightarrow> (\<exists>gap rest. s = gap @ rest \<and> segs_match (q # qs) rest)"
    proof
      assume "\<exists>k \<le> length s. glob_matches p (drop k s)"
      then show "\<exists>gap rest. s = gap @ rest \<and> segs_match (q # qs) rest"
        using Cons.IH q by (metis append_take_drop_id)
    next
      assume "\<exists>gap rest. s = gap @ rest \<and> segs_match (q # qs) rest"
      then obtain gap rest where "s = gap @ rest" "segs_match (q # qs) rest" by blast
      then show "\<exists>k \<le> length s. glob_matches p (drop k s)"
        using Cons.IH [of rest] q by (intro exI [of _ "length gap"]) simp
    qed
    then show ?thesis using True q by simp
  next
    case False
    then show ?thesis
      using q by (cases s; cases qs) (auto simp: Cons.IH)
  qed
qed simp

lemma segs_match_middle:
  "segs_match (f # ms @ [l]) s \<longleftrightarrow> (\<exists>w. s = f @ w @ l \<and> middle_match ms w)"
proof (induction ms arbitrary: f s)
  case (Cons m ms)
  have "segs_match (f # (m # ms) @ [l]) s \<longleftrightarrow>
      (\<exists>gap rest. s = f @ gap @ rest \<and> (\<exists>w. rest = m @ w @ l \<and> middle_match ms w))"
    using Cons.IH by simp
  also have "\<dots> \<longleftrightarrow> (\<exists>w. s = f @ w @ l \<and> middle_match (m # ms) w)"
    by (auto; metis append.assoc)
  finally show ?case .
qed auto

lemma middle_match_suffix: "middle_match segs w \<Longrightarrow> middle_match segs (a @ w)"
  by (cases segs) (auto, metis append.assoc)

lemma find_sub_Some:
  "find_sub seg xs = Some k \<Longrightarrow> k + length seg \<le> length xs \<and> take (length seg) (drop k xs) = seg"
proof (induction xs arbitrary: k)
  case (Cons x xs)
  show ?case
  proof (cases "prefix seg (x # xs)")
    case True
    then obtain zs where "x # xs = seg @ zs" by (auto simp: prefix_def)
    moreover from this have "Suc (length xs) = length seg + length zs"
      by (metis length_Cons length_append)
    moreover have "k = 0" using Cons.prems True by simp
    ultimately show ?thesis by simp
  next
    case False
    then show ?thesis using Cons.prems Cons.IH by auto
  qed
qed (auto split: if_splits)

lemma find_sub_least:
  "xs = gap @ seg @ rest \<Longrightarrow> \<exists>k \<le> length gap. find_sub seg xs = Some k"
proof (induction gap arbitrary: xs)
  case Nil
  then have "prefix seg xs" by simp
  then show ?case by (cases xs) auto
next
  case (Cons g gap)
  then obtain k where "k \<le> length gap" "find_sub seg (gap @ seg @ rest) = Some k" by blast
  then show ?case using Cons.prems by auto
qed

lemma glob_middle_correct:
  assumes "cursor \<le> limit" "limit \<le> length name"
  shows "glob_middle name limit cursor segs \<longleftrightarrow>
    middle_match segs (take (limit - cursor) (drop cursor name))"
  using assms
proof (induction segs arbitrary: cursor)
  case (Cons seg segs)
  let ?w = "take (limit - cursor) (drop cursor name)"
  have dw: "drop cursor name = ?w @ drop limit name"
    using Cons.prems by (metis append_take_drop_id drop_drop le_add_diff_inverse2)
  show ?case
  proof
    assume "glob_middle name limit cursor (seg # segs)"
    then obtain k where k: "find_sub seg (drop cursor name) = Some k"
      "cursor + k + length seg \<le> limit" "glob_middle name limit (cursor + k + length seg) segs"
      by (auto simp: js_indexOf_def split: option.splits if_splits)
    have seg: "take (length seg) (drop k (drop cursor name)) = seg" using find_sub_Some [OF k(1)] by simp
    have "middle_match segs (take (limit - (cursor + k + length seg)) (drop (cursor + k + length seg) name))"
      using Cons.IH [OF k(2) Cons.prems(2)] k(3) by simp
    moreover have "?w = take k ?w @ seg @ take (limit - (cursor + k + length seg)) (drop (cursor + k + length seg) name)"
    proof -
      have "drop k ?w = take (limit - cursor - k) (drop k (drop cursor name))" by (simp add: drop_take)
      also have "\<dots> = take (length seg) (drop k (drop cursor name)) @
          take (limit - cursor - k - length seg) (drop (length seg) (drop k (drop cursor name)))"
        using k(2) by (metis (no_types, lifting) add_diff_inverse_nat diff_diff_left le_diff_conv2 not_less
            take_add add_leD1 add.commute)
      finally have "drop k ?w = seg @ take (limit - cursor - k - length seg)
          (drop (length seg) (drop k (drop cursor name)))" using seg by simp
      then show ?thesis by (metis append_take_drop_id drop_drop diff_diff_left add.commute add.left_commute)
    qed
    ultimately show "middle_match (seg # segs) ?w" by auto
  next
    assume "middle_match (seg # segs) ?w"
    then obtain gap rest where g: "?w = gap @ seg @ rest" "middle_match segs rest" by auto
    then have "drop cursor name = gap @ seg @ (rest @ drop limit name)" using dw by simp
    then obtain k where k: "k \<le> length gap" "find_sub seg (drop cursor name) = Some k"
      using find_sub_least by blast
    have "length ?w = limit - cursor" using Cons.prems by simp
    then have len: "length gap + length seg + length rest = limit - cursor" using g(1) by simp
    then have lim: "cursor + k + length seg \<le> limit" using k(1) Cons.prems by linarith
    have "take (limit - (cursor + k + length seg)) (drop (cursor + k + length seg) name) =
        drop (k + length seg) ?w" by (simp add: drop_take ac_simps)
    also have "\<dots> = drop (k + length seg) (gap @ seg) @ rest"
      using g(1) k(1) by simp
    finally have "middle_match segs (take (limit - (cursor + k + length seg)) (drop (cursor + k + length seg) name))"
      using g(2) middle_match_suffix by metis
    then show "glob_middle name limit cursor (seg # segs)"
      using k(2) lim Cons.IH [OF lim Cons.prems(2)] by (simp add: js_indexOf_def)
  qed
qed simp

lemma js_split_pattern: "length (js_split c p) \<noteq> 1 \<Longrightarrow> \<exists>f ms l. js_split c p = f # ms @ [l]"
proof -
  assume "length (js_split c p) \<noteq> 1"
  then obtain f r where "js_split c p = f # r" "r \<noteq> []" by (cases "js_split c p") auto
  then show ?thesis by (cases r rule: rev_cases) auto
qed

lemma globMatch_correct: "globMatch p s \<longleftrightarrow> glob_matches p s"
proof (cases "length (js_split CHR ''*'' p) = 1")
  case True
  then have "js_split CHR ''*'' p = [p]"
    using js_join_split [of "CHR ''*''" p] by (cases "js_split CHR ''*'' p") auto
  then show ?thesis by (auto simp: globMatch_def glob_matches_segs)
next
  case False
  then obtain f ms l where sp: "js_split CHR ''*'' p = f # ms @ [l]" by (metis js_split_pattern)
  have "globMatch p s \<longleftrightarrow> prefix f s \<and> suffix l s \<and> glob_middle s (length s - length l) (length f) ms"
    using False by (simp add: globMatch_def sp Let_def)
  also have "\<dots> \<longleftrightarrow> (\<exists>w. s = f @ w @ l \<and> middle_match ms w)"
  proof (cases "length f \<le> length s - length l")
    case le: True
    show ?thesis
    proof
      assume a: "prefix f s \<and> suffix l s \<and> glob_middle s (length s - length l) (length f) ms"
      then obtain u where u: "s = f @ u" by (blast elim: prefixE)
      obtain v where v: "s = v @ l" using a by (blast elim: suffixE)
      let ?w = "take (length s - length l - length f) (drop (length f) s)"
      have "length f \<le> length v" using le v by simp
      then have "v = f @ ?w" using u v by (metis append_eq_append_conv_if append_take_drop_id
            append_eq_conv_conj diff_add_inverse2 drop_take length_append take_drop)
      then have "s = f @ ?w @ l" using v by simp
      moreover have "middle_match ms ?w" using a glob_middle_correct [OF le] by simp
      ultimately show "\<exists>w. s = f @ w @ l \<and> middle_match ms w" by blast
    next
      assume "\<exists>w. s = f @ w @ l \<and> middle_match ms w"
      then obtain w where w: "s = f @ w @ l" "middle_match ms w" by blast
      then have "take (length s - length l - length f) (drop (length f) s) = w" by simp
      then have "glob_middle s (length s - length l) (length f) ms"
        using glob_middle_correct [OF le, of s ms] w(2) by simp
      then show "prefix f s \<and> suffix l s \<and> glob_middle s (length s - length l) (length f) ms"
        using w(1) by (auto simp: prefix_def suffix_def)
    qed
  next
    case gt: False
    have "\<not> glob_middle s lim cur ms" if "lim < cur" for lim cur
      using that by (induction ms arbitrary: cur) (auto simp: js_indexOf_def split: option.splits)
    then show ?thesis using gt by auto
  qed
  also have "\<dots> \<longleftrightarrow> glob_matches p s"
    by (simp add: glob_matches_segs sp segs_match_middle)
  finally show ?thesis .
qed

section \<open>Merged lists\<close>

lemma merge_names_set: "set (merge_names ns m) = set m \<union> set ns"
  by (induction ns arbitrary: m) auto

lemma merge_names_distinct: "distinct m \<Longrightarrow> distinct (merge_names ns m)"
  by (induction ns arbitrary: m) auto

lemma merge_names_append: "merge_names (as @ bs) m = merge_names bs (merge_names as m)"
  by (induction as arbitrary: m) auto

lemma fold_merge_names: "fold merge_names nss m = merge_names (concat nss) m"
  by (induction nss arbitrary: m) (auto simp: merge_names_append)

fun first_seen :: "'a list \<Rightarrow> 'a list" where
  "first_seen [] = []"
| "first_seen (x # xs) = x # filter (\<lambda>y. y \<noteq> x) (first_seen xs)"

lemma first_seen_set [simp]: "set (first_seen xs) = set xs"
  by (induction xs) auto

lemma merge_names_first_seen:
  "merge_names ns m = m @ filter (\<lambda>x. x \<notin> set m) (first_seen ns)"
proof (induction ns arbitrary: m)
  case (Cons n ns)
  have "filter (\<lambda>x. x \<notin> set m) (filter (\<lambda>y. y \<noteq> n) (first_seen ns)) =
      filter (\<lambda>x. x \<notin> set (m @ [n])) (first_seen ns)" by (auto intro: filter_cong)
  moreover have "n \<in> set m \<Longrightarrow> filter (\<lambda>x. x \<notin> set m) (filter (\<lambda>y. y \<noteq> n) (first_seen ns)) =
      filter (\<lambda>x. x \<notin> set m) (first_seen ns)" by (auto intro: filter_cong)
  ultimately show ?case using Cons.IH by auto
qed simp

lemma mergeEnabledServices_first_seen: "mergeEnabledServices nss = first_seen (concat nss)"
  by (simp add: mergeEnabledServices_def fold_merge_names merge_names_first_seen)

lemma first_seen_distinct: "distinct (first_seen xs)"
  by (induction xs) auto

section \<open>Properties\<close>

text \<open>C4. The segment scan behind matchServicesPattern means what a glob means: it keeps exactly the
  names that the pattern matches when every star may stand for any run of characters, in order.\<close>
theorem matchServicesPattern_is_glob:
  "matchServicesPattern pattern names = filter (glob_matches pattern) names"
  unfolding matchServicesPattern_def by (rule filter_cong) (simp_all add: globMatch_correct)

lemma map_of_concat_distinct:
  assumes "distinct (map fst (concat cs))"
  shows "map_of (concat cs) n = Some d \<longleftrightarrow> (\<exists>c \<in> set cs. map_of c n = Some d)"
proof -
  have "distinct (map fst c)" if "c \<in> set cs" for c
    using that assms by (induction cs) auto
  then show ?thesis using assms by (auto simp: map_of_eq_Some_iff)
qed

text \<open>mergeCatalogs succeeds exactly when every key names its own descriptor and no type name
  occurs twice, within a catalog or across them; the merged catalog then resolves a name to a
  descriptor exactly when one of the catalogs does. In every other case it throws.\<close>
theorem mergeCatalogs_correct:
  "if list_all well_keyed cs \<and> distinct (map fst (concat cs))
   then \<exists>r. mergeCatalogs cs = Inr r \<and> well_keyed r \<and> om_ok r \<and>
     (\<forall>n d. om_get r n = Some d \<longleftrightarrow> (\<exists>c \<in> set cs. om_get c n = Some d))
   else \<exists>e. mergeCatalogs cs = Inl e"
proof (cases "list_all well_keyed cs \<and> distinct (map fst (concat cs))")
  case True
  then have "mergeCatalogs cs = Inr (concat cs)"
    by (simp add: mergeCatalogs_def merge_from_Inr_iff om_keys_def)
  moreover have "well_keyed (concat cs)"
    using True by (auto simp: well_keyed_def list_all_iff)
  ultimately show ?thesis
    using True map_of_concat_distinct [of cs] by (auto simp: om_get_def om_ok_def)
next
  case False
  then show ?thesis
    by (cases "mergeCatalogs cs") (auto simp: mergeCatalogs_def merge_from_Inr_iff)
qed

end
