(* ===== verification/Transport.thy ===== *)
theory Transport
  imports Prelude Connect Descriptors
begin

text \<open>
  The transport side of a server: packages/core/src/TransportValidation.ts and
  packages/core/src/TransportManager.ts.

  The first half resolves which transport a configuration gives and diagnoses bidirectional
  streaming methods on transports that cannot carry them; a warning is an effect, so
  validateTransport returns the error to throw together with the warnings it logged. The second half
  is the manager's state: which kind of server object it made, the sessions it tracks, and the
  operations on them. Sockets, certificates and the platform's server objects are outside the model:
  whether reading certificates or listening succeeds is an argument.
\<close>

section \<open>Effective transport\<close>

datatype validation_mode = ModeError | ModeWarn | ModeOff

datatype effective_transport = PlaintextH1 | H2c | TlsH1Negotiable | TlsH2Only

definition resolveEffectiveTransport :: "bool \<Rightarrow> bool option \<Rightarrow> effective_transport" where
  "resolveEffectiveTransport hasTls allow =
    (let allowHTTP1 = (case allow of None \<Rightarrow> True | Some b \<Rightarrow> b) in
     if hasTls then (if allowHTTP1 then TlsH1Negotiable else TlsH2Only)
     else (if allowHTTP1 then PlaintextH1 else H2c))"

section \<open>Streaming methods against the transport\<close>

record streaming_info =
  si_service :: string
  si_method :: string
  si_kind :: method_kind

type_synonym desc_file = "desc_service list"

fun collect_methods :: "string \<Rightarrow> desc_method list \<Rightarrow> streaming_info list" where
  "collect_methods service [] = []"
| "collect_methods service (m # ms) =
    (if dm_kind m = BidiStreaming
     then \<lparr>si_service = service, si_method = dm_name m, si_kind = dm_kind m\<rparr> # collect_methods service ms
     else collect_methods service ms)"

definition collectStreamingMethods :: "desc_file list \<Rightarrow> streaming_info list" where
  "collectStreamingMethods registry =
    concat (map (\<lambda>file. concat (map (\<lambda>s. collect_methods (ds_typeName s) (ds_methods s)) file)) registry)"

definition TRANSPORT_VALIDATION_ERROR_CODE :: string where
  "TRANSPORT_VALIDATION_ERROR_CODE = ''CONNECTUM_UNSUPPORTED_STREAMING_TRANSPORT''"

datatype transport_diagnostic =
    BidiNeedsHttp2 "streaming_info list"
  | TlsHttp1Warning "streaming_info list"

definition validateTransport ::
  "desc_file list \<Rightarrow> effective_transport \<Rightarrow> validation_mode \<Rightarrow>
    transport_diagnostic option \<times> transport_diagnostic list" where
  "validateTransport registry transport mode =
    (if mode = ModeOff then (None, [])
     else if transport = H2c \<or> transport = TlsH2Only then (None, [])
     else let methods = collectStreamingMethods registry in
       if methods = [] then (None, [])
       else if transport = TlsH1Negotiable then (None, [TlsHttp1Warning methods])
       else if mode = ModeWarn then (None, [BidiNeedsHttp2 methods])
       else (Some (BidiNeedsHttp2 methods), []))"

definition has_bidi :: "desc_file list \<Rightarrow> bool" where
  "has_bidi registry \<longleftrightarrow> (\<exists>file \<in> set registry. \<exists>s \<in> set file. \<exists>m \<in> set (ds_methods s).
    dm_kind m = BidiStreaming)"

lemma collect_methods_nil: "collect_methods s ms = [] \<longleftrightarrow> (\<forall>m \<in> set ms. dm_kind m \<noteq> BidiStreaming)"
  by (induction ms) auto

lemma collect_methods_set:
  "i \<in> set (collect_methods s ms) \<longleftrightarrow>
    (\<exists>m \<in> set ms. dm_kind m = BidiStreaming \<and> i = \<lparr>si_service = s, si_method = dm_name m, si_kind = BidiStreaming\<rparr>)"
  by (induction ms) auto

lemma collectStreamingMethods_nil: "collectStreamingMethods registry = [] \<longleftrightarrow> \<not> has_bidi registry"
  by (auto simp: collectStreamingMethods_def has_bidi_def collect_methods_nil)

section \<open>The transport manager\<close>

datatype server_kind = SecureServer bool | HttpServer | H2cServer

record transport_manager =
  tm_server :: "server_kind option"
  tm_listening :: bool
  tm_isHttp2 :: bool
  tm_sessions :: "nat list"
  tm_destroyed :: "nat list"

definition tm_empty :: transport_manager where
  "tm_empty = \<lparr>tm_server = None, tm_listening = False, tm_isHttp2 = False, tm_sessions = [], tm_destroyed = []\<rparr>"

definition tm_create :: "bool \<Rightarrow> bool option \<Rightarrow> transport_manager \<Rightarrow> transport_manager" where
  "tm_create tls allow tm =
    (let allowHTTP1 = (case allow of None \<Rightarrow> True | Some b \<Rightarrow> b) in
     if tls then tm\<lparr>tm_isHttp2 := True, tm_server := Some (SecureServer allowHTTP1)\<rparr>
     else if allowHTTP1 then tm\<lparr>tm_isHttp2 := False, tm_server := Some HttpServer\<rparr>
     else tm\<lparr>tm_isHttp2 := True, tm_server := Some H2cServer\<rparr>)"

definition tm_session :: "nat \<Rightarrow> transport_manager \<Rightarrow> transport_manager" where
  "tm_session i tm =
    (if tm_isHttp2 tm \<and> i \<notin> set (tm_sessions tm) then tm\<lparr>tm_sessions := tm_sessions tm @ [i]\<rparr> else tm)"

definition tm_session_close :: "nat \<Rightarrow> transport_manager \<Rightarrow> transport_manager" where
  "tm_session_close i tm = tm\<lparr>tm_sessions := filter (\<lambda>j. j \<noteq> i) (tm_sessions tm)\<rparr>"

definition tm_listen_done :: "transport_manager \<Rightarrow> transport_manager" where
  "tm_listen_done tm = tm\<lparr>tm_listening := True\<rparr>"

definition destroyAllSessions :: "transport_manager \<Rightarrow> transport_manager" where
  "destroyAllSessions tm = tm\<lparr>tm_destroyed := tm_destroyed tm @ tm_sessions tm, tm_sessions := []\<rparr>"

definition dispose :: "transport_manager \<Rightarrow> transport_manager" where
  "dispose tm = tm\<lparr>tm_server := None, tm_listening := False, tm_sessions := []\<rparr>"

definition carries_http1 :: "server_kind \<Rightarrow> bool" where
  "carries_http1 k = (case k of SecureServer allow \<Rightarrow> allow | HttpServer \<Rightarrow> True | H2cServer \<Rightarrow> False)"

definition carries_http2 :: "server_kind \<Rightarrow> bool" where
  "carries_http2 k = (case k of SecureServer allow \<Rightarrow> True | HttpServer \<Rightarrow> False | H2cServer \<Rightarrow> True)"

lemma tm_create_server:
  "tm_server (tm_create tls allow tm) = Some (case resolveEffectiveTransport tls allow of
      PlaintextH1 \<Rightarrow> HttpServer | H2c \<Rightarrow> H2cServer
    | TlsH1Negotiable \<Rightarrow> SecureServer True | TlsH2Only \<Rightarrow> SecureServer False)"
  by (auto simp: tm_create_def resolveEffectiveTransport_def Let_def)

section \<open>Properties\<close>

text \<open>Startup validation agrees with the server that is then created, whatever the TLS and
  HTTP/1.1 settings: with the default mode it returns an error exactly when some service has a
  bidirectional method and the created server cannot speak HTTP/2; it logs a warning, and no error,
  exactly when the server speaks HTTP/2 but also lets a client negotiate HTTP/1.1; and the error
  lists exactly the bidirectional methods.\<close>
theorem validateTransport_agrees_with_server:
  "fst (validateTransport registry (resolveEffectiveTransport tls allow) ModeError) =
     (if has_bidi registry \<and> \<not> carries_http2 (the (tm_server (tm_create tls allow tm)))
      then Some (BidiNeedsHttp2 (collectStreamingMethods registry)) else None) \<and>
   snd (validateTransport registry (resolveEffectiveTransport tls allow) ModeError) =
     (if has_bidi registry \<and> carries_http2 (the (tm_server (tm_create tls allow tm)))
        \<and> carries_http1 (the (tm_server (tm_create tls allow tm)))
      then [TlsHttp1Warning (collectStreamingMethods registry)] else []) \<and>
   fst (validateTransport registry (resolveEffectiveTransport tls allow) ModeWarn) = None \<and>
   validateTransport registry (resolveEffectiveTransport tls allow) ModeOff = (None, []) \<and>
   (i \<in> set (collectStreamingMethods registry) \<longleftrightarrow>
     (\<exists>file \<in> set registry. \<exists>s \<in> set file. \<exists>m \<in> set (ds_methods s). dm_kind m = BidiStreaming \<and>
       i = \<lparr>si_service = ds_typeName s, si_method = dm_name m, si_kind = BidiStreaming\<rparr>))"
  by (simp add: tm_create_server validateTransport_def Let_def collectStreamingMethods_nil
      carries_http1_def carries_http2_def split: effective_transport.splits)
    (auto simp: collectStreamingMethods_def collect_methods_set)

end
