(* ===== verification/Routes.thy ===== *)
theory Routes
  imports Prelude Connect Descriptors Transport
begin

text \<open>
  Mounting services: packages/core/src/buildRoutes.ts, packages/core/src/defineService.ts and the
  transport marker of packages/core/src/localTransport.ts.

  router_service is the patched router.service of buildRoutes (it collects the descriptor file once
  and the type name); mount_services and mount_protocols are the two loops of the routes callback.
  A protocol is given by the descriptors it registers, which may depend on the registry it is shown,
  and its optional HTTP handler. The adapter that turns routes into a Node handler is third-party;
  the interceptor list it is given is part of the model.
\<close>

section \<open>Service definitions and the routes callback\<close>

record 'h service_definition =
  sd_descriptor :: desc_service
  sd_lazy :: bool
  sd_handlers :: 'h

definition defineService :: "desc_service \<Rightarrow> 'h \<Rightarrow> 'h service_definition" where
  "defineService d h = \<lparr>sd_descriptor = d, sd_lazy = False, sd_handlers = h\<rparr>"

definition defineLazyService :: "desc_service \<Rightarrow> (unit \<Rightarrow> 'h) \<Rightarrow> 'h service_definition" where
  "defineLazyService d factory = \<lparr>sd_descriptor = d, sd_lazy = True, sd_handlers = factory ()\<rparr>"

record 'q protocol =
  pr_register :: "nat list \<Rightarrow> desc_service list"
  pr_http :: "('q \<Rightarrow> bool) option"

record 'h route_state =
  ro_registry :: "nat list"
  ro_names :: "string list"
  ro_mounted :: "desc_service list"
  ro_handlers :: "(string \<times> 'h) list"
  ro_factories :: "string list"

definition ro_empty :: "'h route_state" where
  "ro_empty = \<lparr>ro_registry = [], ro_names = [], ro_mounted = [], ro_handlers = [], ro_factories = []\<rparr>"

definition router_service :: "desc_service \<Rightarrow> 'h route_state \<Rightarrow> 'h route_state" where
  "router_service d st = st\<lparr>
    ro_registry := (if ds_file d \<in> set (ro_registry st) then ro_registry st else ro_registry st @ [ds_file d]),
    ro_names := (if ds_typeName d \<in> set (ro_names st) then ro_names st else ro_names st @ [ds_typeName d]),
    ro_mounted := ro_mounted st @ [d]\<rparr>"

definition register_service :: "'h service_definition \<Rightarrow> 'h route_state \<Rightarrow> 'h route_state" where
  "register_service sd st =
    (let st' = (if sd_lazy sd then st\<lparr>ro_factories := ro_factories st @ [ds_typeName (sd_descriptor sd)]\<rparr> else st)
     in router_service (sd_descriptor sd)
       (st'\<lparr>ro_handlers := ro_handlers st' @ [(ds_typeName (sd_descriptor sd), sd_handlers sd)]\<rparr>))"

definition service_enabled :: "string list option \<Rightarrow> 'h service_definition \<Rightarrow> bool" where
  "service_enabled enabledServices sd = (case enabledServices of
     None \<Rightarrow> True | Some names \<Rightarrow> ds_typeName (sd_descriptor sd) \<in> set names)"

fun mount_services :: "string list option \<Rightarrow> 'h service_definition list \<Rightarrow> 'h route_state \<Rightarrow> 'h route_state" where
  "mount_services enabledServices [] st = st"
| "mount_services enabledServices (sd # sds) st =
    (if \<not> service_enabled enabledServices sd then mount_services enabledServices sds st
     else mount_services enabledServices sds (register_service sd st))"

fun mount_protocols :: "'q protocol list \<Rightarrow> 'h route_state \<Rightarrow> 'h route_state" where
  "mount_protocols [] st = st"
| "mount_protocols (p # ps) st =
    mount_protocols ps (fold router_service (pr_register p (ro_registry st)) st)"

definition routes_callback ::
  "'h service_definition list \<Rightarrow> 'q protocol list \<Rightarrow> string list option \<Rightarrow> 'h route_state \<Rightarrow> 'h route_state \<times> nat" where
  "routes_callback services protocols enabledServices st =
    (let st1 = mount_services enabledServices services st
     in (mount_protocols protocols st1, length (ro_registry st1)))"

fun http_fallback :: "('q \<Rightarrow> bool) list \<Rightarrow> 'q \<Rightarrow> nat option" where
  "http_fallback [] q = Some 404"
| "http_fallback (h # hs) q = (if h q then None else http_fallback hs q)"

record ('s, 'm, 'h, 'q) built_routes =
  br_registry :: "nat list"
  br_userRegistry :: "nat list"
  br_names :: "string list"
  br_interceptors :: "('s, 'm) interceptor list"
  br_fallback :: "'q \<Rightarrow> nat option"

definition buildRoutes ::
  "'h service_definition list \<Rightarrow> 'q protocol list \<Rightarrow> ('s, 'm) interceptor list \<Rightarrow> string list option
    \<Rightarrow> ('s, 'm, 'h, 'q) built_routes" where
  "buildRoutes services protocols interceptors enabledServices =
    (case routes_callback services protocols enabledServices ro_empty of (st, userFileCount) \<Rightarrow>
      \<lparr>br_registry = ro_registry st,
       br_userRegistry = take userFileCount (ro_registry st),
       br_names = ro_names st,
       br_interceptors = stripLocalTransportHeaderOnHttp # interceptors,
       br_fallback = http_fallback (List.map_filter pr_http protocols)\<rparr>)"

section \<open>What the callback registers\<close>

definition ro_ok :: "'h route_state \<Rightarrow> bool" where
  "ro_ok st \<longleftrightarrow> distinct (ro_registry st) \<and> distinct (ro_names st) \<and>
    set (ro_registry st) = ds_file ` set (ro_mounted st) \<and>
    set (ro_names st) = ds_typeName ` set (ro_mounted st)"

lemma ro_empty_ok [simp]: "ro_ok ro_empty"
  by (simp add: ro_ok_def ro_empty_def)

lemma router_service_ok: "ro_ok st \<Longrightarrow> ro_ok (router_service d st)"
  by (auto simp: ro_ok_def router_service_def)

lemma register_service_ok: "ro_ok st \<Longrightarrow> ro_ok (register_service sd st)"
  by (auto simp: register_service_def Let_def intro!: router_service_ok) (auto simp: ro_ok_def)

lemma fold_router_service_ok: "ro_ok st \<Longrightarrow> ro_ok (fold router_service ds st)"
  by (induction ds arbitrary: st) (auto intro: router_service_ok)

lemma mount_services_ok: "ro_ok st \<Longrightarrow> ro_ok (mount_services en sds st)"
  by (induction sds arbitrary: st) (auto intro: register_service_ok)

lemma mount_protocols_ok: "ro_ok st \<Longrightarrow> ro_ok (mount_protocols ps st)"
  by (induction ps arbitrary: st) (auto intro: fold_router_service_ok)

lemma register_service_mounted [simp]:
  "ro_mounted (register_service sd st) = ro_mounted st @ [sd_descriptor sd]"
  "ro_factories (register_service sd st) =
    ro_factories st @ (if sd_lazy sd then [ds_typeName (sd_descriptor sd)] else [])"
  "ro_handlers (register_service sd st) = ro_handlers st @ [(ds_typeName (sd_descriptor sd), sd_handlers sd)]"
  by (simp_all add: register_service_def router_service_def Let_def)

lemma mount_services_mounted:
  "ro_mounted (mount_services en sds st) = ro_mounted st @ map sd_descriptor (filter (service_enabled en) sds)"
  "ro_factories (mount_services en sds st) = ro_factories st @
    map (\<lambda>sd. ds_typeName (sd_descriptor sd)) (filter (\<lambda>sd. service_enabled en sd \<and> sd_lazy sd) sds)"
  by (induction sds arbitrary: st) auto

lemma router_service_prefix: "prefix (ro_registry st) (ro_registry (router_service d st))"
  by (simp add: router_service_def)

lemma fold_router_service_prefix: "prefix (ro_registry st) (ro_registry (fold router_service ds st))"
proof (induction ds arbitrary: st)
  case (Cons d ds)
  then show ?case using router_service_prefix [of st d] prefix_order.trans by fastforce
qed simp

lemma mount_protocols_prefix: "prefix (ro_registry st) (ro_registry (mount_protocols ps st))"
proof (induction ps arbitrary: st)
  case (Cons p ps)
  then show ?case using fold_router_service_prefix prefix_order.trans by fastforce
qed simp

lemma router_service_again:
  "d \<in> set (ro_mounted st) \<Longrightarrow> ro_ok st \<Longrightarrow>
    ro_registry (router_service d st) = ro_registry st \<and> ro_names (router_service d st) = ro_names st"
  by (auto simp: router_service_def ro_ok_def)

lemma http_fallback_correct:
  "http_fallback hs q = (if \<exists>h \<in> set hs. h q then None else Some 404)"
  by (induction hs) auto

lemma userRegistry_files:
  "set (br_userRegistry (buildRoutes services protocols interceptors en)) =
    ds_file ` sd_descriptor ` {sd \<in> set services. service_enabled en sd}"
proof -
  let ?st = "mount_services en services ro_empty"
  have "ro_ok ?st" by (simp add: mount_services_ok)
  then have "set (ro_registry ?st) = ds_file ` set (map sd_descriptor (filter (service_enabled en) services))"
    by (simp add: ro_ok_def mount_services_mounted ro_empty_def)
  moreover have "take (length (ro_registry ?st)) (ro_registry (mount_protocols protocols ?st)) = ro_registry ?st"
    using mount_protocols_prefix [of ?st protocols] by (auto simp: prefix_def)
  ultimately show ?thesis by (simp add: buildRoutes_def routes_callback_def Let_def)
qed

lemma fold_router_service_frame:
  "ro_factories (fold router_service ds s) = ro_factories s \<and>
    ro_mounted (fold router_service ds s) = ro_mounted s @ ds"
  by (induction ds arbitrary: s) (auto simp: router_service_def)

lemma mount_protocols_frame:
  "ro_factories (mount_protocols ps s) = ro_factories s \<and>
    prefix (ro_mounted s) (ro_mounted (mount_protocols ps s))"
proof (induction ps arbitrary: s)
  case (Cons p ps)
  let ?s = "fold router_service (pr_register p (ro_registry s)) s"
  have "prefix (ro_mounted s) (ro_mounted ?s)" "ro_factories ?s = ro_factories s"
    by (simp_all add: fold_router_service_frame)
  then show ?case using Cons.IH [of ?s] by (auto intro: prefix_order.trans)
qed simp

section \<open>Properties\<close>


text \<open>C6. No request that arrives over HTTP is taken for an in-process call: the HTTP chain behaves,
  for any interceptors and any handler, as the plain chain on the request without the marker, and
  what that chain is given does not carry the marker; an in-process request always carries it, past
  any header the caller set, and nothing else of the request changes.\<close>
theorem http_requests_never_carry_marker:
  "run_chain (br_interceptors (buildRoutes services protocols interceptors en)) next r =
     run_chain interceptors next (r\<lparr>rq_header := hd_delete LOCAL_TRANSPORT_HEADER (rq_header r)\<rparr>) \<and>
   \<not> isLocalTransport (hd_delete LOCAL_TRANSPORT_HEADER (rq_header r)) \<and>
   (\<exists>h. run_chain (localTransportMarkerInterceptor # interceptors) next r =
       run_chain interceptors next (r\<lparr>rq_header := h\<rparr>) \<and>
     isLocalTransport h \<and>
     hd_delete LOCAL_TRANSPORT_HEADER h = hd_delete LOCAL_TRANSPORT_HEADER (rq_header r))"
proof -
  have v: "hd_normalize LOCAL_TRANSPORT_VALUE = LOCAL_TRANSPORT_VALUE"
    by (simp add: LOCAL_TRANSPORT_VALUE_def hd_normalize_def http_ws_def)
  obtain h where h: "hd_set LOCAL_TRANSPORT_HEADER LOCAL_TRANSPORT_VALUE (rq_header r) = Inr h"
    using hd_set_Inr_iff [of LOCAL_TRANSPORT_HEADER LOCAL_TRANSPORT_VALUE "rq_header r"] v
    by (auto simp: hd_value_ok_def LOCAL_TRANSPORT_VALUE_def)
  have "run_chain (localTransportMarkerInterceptor # interceptors) next r =
      run_chain interceptors next (r\<lparr>rq_header := h\<rparr>)"
    by (simp add: localTransportMarkerInterceptor_def h)
  moreover have "isLocalTransport h" using hd_set_get [OF h] v by (simp add: isLocalTransport_def)
  moreover have "hd_delete LOCAL_TRANSPORT_HEADER h = hd_delete LOCAL_TRANSPORT_HEADER (rq_header r)"
    using h by (auto simp: hd_set_def hd_delete_def Let_def split: if_splits)
  ultimately show ?thesis
    by (auto simp: buildRoutes_def stripLocalTransportHeaderOnHttp_def isLocalTransport_def
        split: prod.splits)
qed

end
