(* ===== verification/ServerLifecycle.thy ===== *)
theory ServerLifecycle
  imports Prelude Connect ShutdownExec Routes
begin

text \<open>
  packages/core/src/Server.ts and packages/core/src/gracefulShutdown.ts: the life of a server.

  The record srv holds the fields of ServerImpl that decide its behaviour; the asynchronous methods
  start and stop are cut at their awaits, and the fields sv_start and sv_stop say at which await each
  of them is. A synchronous stretch of the source between two awaits is one definition (start_call,
  bus_started, listen_settled, stop_call, race_settled, hooks_settled and so on). server_step is the
  interleaving of calls by the application with what the environment settles: the event bus, the
  listening socket, the graceful close or its timeout, and the shutdown hooks (by exec_step). Event
  listeners of the application may throw; cf_throws says which events have one that does.
\<close>

section \<open>State\<close>

datatype server_state = CREATED | STARTING | RUNNING | STOPPING | STOPPED

datatype server_event = EvStart | EvReady | EvStopping | EvStop | EvError jserr

datatype 'u hook = BusStopHook | UserHook 'u

datatype bus_state = BusIdle | BusStarting | BusStarted | BusStopped

datatype start_pc = StartIdle | AwaitBus | AwaitListen | AwaitBusCleanup jserr | Started | StartRejected jserr

datatype stop_pc = StopIdle | AwaitRace | AwaitHooks "string list" exec | Stopped exec | StopRejected jserr

record 'q server_config =
  cf_bus :: bool
  cf_tls :: bool
  cf_certs_ok :: bool
  cf_allowHTTP1 :: "bool option"
  cf_validation :: "validation_mode option"
  cf_catalog :: "catalog option"
  cf_enabled :: "string list option"
  cf_files :: "nat \<Rightarrow> desc_file"
  cf_auto :: bool
  cf_signals :: "string list option"
  cf_force :: "bool option"
  cf_throws :: "server_event \<Rightarrow> bool"

record ('s, 'm, 'h, 'q, 'u) srv =
  sv_state :: server_state
  sv_services :: "'h service_definition list"
  sv_interceptors :: "('s, 'm) interceptor list"
  sv_protocols :: "'q protocol list"
  sv_built :: "('s, 'm, 'h, 'q) built_routes option"
  sv_registry :: "nat list"
  sv_abort :: bool
  sv_events :: "server_event list"
  sv_signals :: "string list"
  sv_bySignal :: bool
  sv_bus :: bus_state
  sv_tm :: transport_manager
  sv_sm :: "'u hook shutdown_mgr"
  sv_start :: start_pc
  sv_stop :: stop_pc
  sv_late :: bool

definition srv_new :: "'h service_definition list \<Rightarrow> ('s, 'm) interceptor list \<Rightarrow> 'q protocol list \<Rightarrow>
    ('s, 'm, 'h, 'q, 'u) srv" where
  "srv_new services interceptors protocols = \<lparr>sv_state = CREATED, sv_services = services,
    sv_interceptors = interceptors, sv_protocols = protocols, sv_built = None, sv_registry = [],
    sv_abort = False, sv_events = [], sv_signals = [], sv_bySignal = False, sv_bus = BusIdle,
    sv_tm = tm_empty, sv_sm = sm_empty, sv_start = StartIdle, sv_stop = StopIdle, sv_late = False\<rparr>"

section \<open>Configuration operations\<close>

definition emit :: "server_event \<Rightarrow> ('s, 'm, 'h, 'q, 'u) srv \<Rightarrow> ('s, 'm, 'h, 'q, 'u) srv" where
  "emit e s = s\<lparr>sv_events := sv_events s @ [e]\<rparr>"

definition frozen :: "('s, 'm, 'h, 'q, 'u) srv \<Rightarrow> bool" where
  "frozen s \<longleftrightarrow> sv_state s \<noteq> CREATED \<or> sv_built s \<noteq> None"

definition addService :: "'h service_definition \<Rightarrow> (('s, 'm, 'h, 'q, 'u) srv, jserr, unit) io" where
  "addService d s =
    (if sv_state s \<noteq> CREATED then (Inl (plain_error ''Cannot add service: server is already started''), s)
     else if sv_built s \<noteq> None then (Inl (plain_error ''Cannot add service: routes have already been materialized''), s)
     else (Inr (), s\<lparr>sv_services := sv_services s @ [d]\<rparr>))"

definition addInterceptor :: "('s, 'm) interceptor \<Rightarrow> (('s, 'm, 'h, 'q, 'u) srv, jserr, unit) io" where
  "addInterceptor i s =
    (if sv_state s \<noteq> CREATED then (Inl (plain_error ''Cannot add interceptor: server is already started''), s)
     else if sv_built s \<noteq> None then (Inl (plain_error ''Cannot add interceptor: routes have already been materialized''), s)
     else (Inr (), s\<lparr>sv_interceptors := sv_interceptors s @ [i]\<rparr>))"

definition addProtocol :: "'q protocol \<Rightarrow> (('s, 'm, 'h, 'q, 'u) srv, jserr, unit) io" where
  "addProtocol p s =
    (if sv_state s \<noteq> CREATED then (Inl (plain_error ''Cannot add protocol: server is already started''), s)
     else if sv_built s \<noteq> None then (Inl (plain_error ''Cannot add protocol: routes have already been materialized''), s)
     else (Inr (), s\<lparr>sv_protocols := sv_protocols s @ [p]\<rparr>))"

definition onShutdown :: "'u hook hook_args \<Rightarrow> (('s, 'm, 'h, 'q, 'u) srv, jserr, unit) io" where
  "onShutdown args s =
    (if sv_state s = STOPPED then (Inl (plain_error ''Cannot add shutdown hook: server is already stopped''), s)
     else case addHook args (sv_sm s) of (r, m) \<Rightarrow>
       (r, s\<lparr>sv_sm := m, sv_late := sv_late s \<or> (case sv_stop s of AwaitHooks _ _ \<Rightarrow> True | _ \<Rightarrow> False)\<rparr>))"

definition ensureRoutesBuilt :: "'q server_config \<Rightarrow> ('s, 'm, 'h, 'q, 'u) srv \<Rightarrow> ('s, 'm, 'h, 'q, 'u) srv" where
  "ensureRoutesBuilt cfg s =
    (if sv_built s \<noteq> None then s
     else let b = buildRoutes (sv_services s) (sv_protocols s) (sv_interceptors s) (cf_enabled cfg)
       in s\<lparr>sv_built := Some b, sv_registry := (if sv_registry s = [] then br_registry b else sv_registry s)\<rparr>)"

definition hasService :: "'q server_config \<Rightarrow> string \<Rightarrow> ('s, 'm, 'h, 'q, 'u) srv \<Rightarrow> bool" where
  "hasService cfg typeName s = (case sv_built (ensureRoutesBuilt cfg s) of
     None \<Rightarrow> False | Some b \<Rightarrow> typeName \<in> set (br_names b))"

definition validateCatalogConfig :: "'q server_config \<Rightarrow> jserr option" where
  "validateCatalogConfig cfg = (case (cf_catalog cfg, cf_enabled cfg) of
      (Some catalog, Some enabled) \<Rightarrow>
        (let missing = filter (\<lambda>n. \<not> om_has catalog n) enabled in
         if missing = [] then None
         else Some (catalog_config_error (''enabledServices absent from the catalog: '' @ js_join '', '' missing)))
    | _ \<Rightarrow> None)"

section \<open>start()\<close>

definition setupAutoShutdown :: "'q server_config \<Rightarrow> ('s, 'm, 'h, 'q, 'u) srv \<Rightarrow> ('s, 'm, 'h, 'q, 'u) srv" where
  "setupAutoShutdown cfg s =
    (if \<not> cf_auto cfg then s
     else s\<lparr>sv_signals := (case cf_signals cfg of None \<Rightarrow> [''SIGTERM'', ''SIGINT''] | Some l \<Rightarrow> l)\<rparr>)"

definition start_failed :: "jserr \<Rightarrow> ('s, 'm, 'h, 'q, 'u) srv \<Rightarrow> ('s, 'm, 'h, 'q, 'u) srv" where
  "start_failed e s = emit (EvError e) (s\<lparr>sv_state := STOPPED, sv_start := StartRejected e\<rparr>)"

definition start_catch :: "'q server_config \<Rightarrow> jserr \<Rightarrow> ('s, 'm, 'h, 'q, 'u) srv \<Rightarrow> ('s, 'm, 'h, 'q, 'u) srv" where
  "start_catch cfg e s =
    (if cf_bus cfg then s\<lparr>sv_bus := BusStopped, sv_start := AwaitBusCleanup e\<rparr> else start_failed e s)"

definition listen_call :: "'q server_config \<Rightarrow> ('s, 'm, 'h, 'q, 'u) srv \<Rightarrow> ('s, 'm, 'h, 'q, 'u) srv" where
  "listen_call cfg s =
    (if cf_tls cfg \<and> \<not> cf_certs_ok cfg then start_catch cfg (plain_error ''cannot read TLS certificates'') s
     else s\<lparr>sv_tm := tm_create (cf_tls cfg) (cf_allowHTTP1 cfg) (sv_tm s), sv_start := AwaitListen\<rparr>)"

definition start_body :: "'q server_config \<Rightarrow> ('s, 'm, 'h, 'q, 'u) srv \<Rightarrow> ('s, 'm, 'h, 'q, 'u) srv" where
  "start_body cfg s = (case validateCatalogConfig cfg of
      Some e \<Rightarrow> start_catch cfg e s
    | None \<Rightarrow>
       (let s1 = ensureRoutesBuilt cfg s;
            userRegistry = (case sv_built s1 of None \<Rightarrow> [] | Some b \<Rightarrow> br_userRegistry b)
        in case fst (validateTransport (map (cf_files cfg) userRegistry)
              (resolveEffectiveTransport (cf_tls cfg) (cf_allowHTTP1 cfg))
              (case cf_validation cfg of None \<Rightarrow> ModeError | Some m \<Rightarrow> m)) of
             Some d \<Rightarrow> start_catch cfg (plain_error TRANSPORT_VALIDATION_ERROR_CODE) s1
           | None \<Rightarrow> if cf_bus cfg then s1\<lparr>sv_bus := BusStarting, sv_start := AwaitBus\<rparr> else listen_call cfg s1))"

definition start_call :: "'q server_config \<Rightarrow> (('s, 'm, 'h, 'q, 'u) srv, jserr, unit) io" where
  "start_call cfg s =
    (if sv_state s \<noteq> CREATED then (Inl (plain_error ''Cannot start server''), s)
     else let s1 = emit EvStart (s\<lparr>sv_state := STARTING\<rparr>) in
       if cf_throws cfg EvStart then (Inl (plain_error ''listener''), s1\<lparr>sv_start := StartRejected (plain_error ''listener'')\<rparr>)
       else (Inr (), start_body cfg s1))"

definition bus_settled :: "'q server_config \<Rightarrow> jserr option \<Rightarrow> ('s, 'm, 'h, 'q, 'u) srv \<Rightarrow> ('s, 'm, 'h, 'q, 'u) srv" where
  "bus_settled cfg err s = (case err of
      Some e \<Rightarrow> start_catch cfg e s
    | None \<Rightarrow> (case addHook (HookNamed ''eventbus'' BusStopHook) (sv_sm s) of
        (Inl e, m) \<Rightarrow> start_catch cfg e (s\<lparr>sv_bus := BusStarted, sv_sm := m\<rparr>)
      | (Inr _, m) \<Rightarrow> listen_call cfg (s\<lparr>sv_bus := BusStarted, sv_sm := m\<rparr>)))"

definition listen_settled :: "'q server_config \<Rightarrow> jserr option \<Rightarrow> ('s, 'm, 'h, 'q, 'u) srv \<Rightarrow> ('s, 'm, 'h, 'q, 'u) srv" where
  "listen_settled cfg err s = (case err of
      Some e \<Rightarrow> start_catch cfg e s
    | None \<Rightarrow>
       (let s1 = emit EvReady (setupAutoShutdown cfg
              (s\<lparr>sv_tm := tm_listen_done (sv_tm s), sv_state := RUNNING\<rparr>))
        in if cf_throws cfg EvReady then start_catch cfg (plain_error ''listener'') s1
           else s1\<lparr>sv_start := Started\<rparr>))"

section \<open>stop() and performGracefulShutdown\<close>

definition stop_failed :: "jserr \<Rightarrow> ('s, 'm, 'h, 'q, 'u) srv \<Rightarrow> ('s, 'm, 'h, 'q, 'u) srv" where
  "stop_failed e s =
    (let s1 = emit (EvError e) (s\<lparr>sv_state := STOPPED, sv_stop := StopRejected e\<rparr>)
     in if sv_bySignal s1 then emit (EvError e) s1 else s1)"

definition stop_done :: "'q server_config \<Rightarrow> exec \<Rightarrow> ('s, 'm, 'h, 'q, 'u) srv \<Rightarrow> ('s, 'm, 'h, 'q, 'u) srv" where
  "stop_done cfg ex s =
    (let s1 = emit EvStop (s\<lparr>sv_state := STOPPED, sv_stop := Stopped ex\<rparr>)
     in if cf_throws cfg EvStop then stop_failed (plain_error ''listener'') s1 else s1)"

definition removeAutoShutdown :: "('s, 'm, 'h, 'q, 'u) srv \<Rightarrow> ('s, 'm, 'h, 'q, 'u) srv" where
  "removeAutoShutdown s = s\<lparr>sv_signals := []\<rparr>"

definition stop_call :: "'q server_config \<Rightarrow> (('s, 'm, 'h, 'q, 'u) srv, jserr, unit) io" where
  "stop_call cfg s =
    (if sv_state s = STOPPING \<and> sv_stop s \<noteq> StopIdle then (Inr (), s)
     else if sv_state s \<noteq> RUNNING then (Inl (plain_error ''Cannot stop server''), s)
     else let s1 = emit EvStopping (s\<lparr>sv_state := STOPPING\<rparr>) in
       if cf_throws cfg EvStopping then (Inl (plain_error ''listener''), s1)
       else let s2 = removeAutoShutdown (s1\<lparr>sv_abort := True\<rparr>) in
         if tm_server (sv_tm s2) = None then (Inr (), stop_done cfg ex_init s2)
         else (Inr (), s2\<lparr>sv_stop := AwaitRace\<rparr>))"

datatype race_result = CloseResolved | CloseRejected jserr | CloseTimeout

definition race_settled :: "'q server_config \<Rightarrow> race_result \<Rightarrow> exec \<Rightarrow>
    ('s, 'm, 'h, 'q, 'u) srv \<Rightarrow> ('s, 'm, 'h, 'q, 'u) srv" where
  "race_settled cfg r ex s = (case r of
      CloseRejected e \<Rightarrow> stop_failed e s
    | CloseResolved \<Rightarrow> s\<lparr>sv_stop := AwaitHooks (om_keys (sm_hooks (sv_sm s))) ex\<rparr>
    | CloseTimeout \<Rightarrow>
       s\<lparr>sv_tm := (if (case cf_force cfg of None \<Rightarrow> True | Some b \<Rightarrow> b) then destroyAllSessions (sv_tm s) else sv_tm s),
         sv_stop := AwaitHooks (om_keys (sm_hooks (sv_sm s))) ex\<rparr>)"

definition hooks_settled :: "'q server_config \<Rightarrow> exec \<Rightarrow> ('s, 'm, 'h, 'q, 'u) srv \<Rightarrow> ('s, 'm, 'h, 'q, 'u) srv" where
  "hooks_settled cfg ex s = stop_done cfg ex (s\<lparr>sv_tm := dispose (sv_tm s)\<rparr>)"

definition signal_call :: "'q server_config \<Rightarrow> ('s, 'm, 'h, 'q, 'u) srv \<Rightarrow> ('s, 'm, 'h, 'q, 'u) srv" where
  "signal_call cfg s = (case stop_call cfg s of
      (Inr _, s1) \<Rightarrow> s1\<lparr>sv_bySignal := True\<rparr>
    | (Inl e, s1) \<Rightarrow> emit (EvError e) s1)"

end
