(* ===== verification/ServerProps.thy ===== *)
theory ServerProps
  imports ServerLifecycle
begin

text \<open>
  The step relation of a server and its invariants. server_step lists who may do what: application
  calls at any time, and settlements only at the await they belong to. life_inv ties the state, the
  program counters and the emitted events together, conf_inv the frozen configuration and the
  shutdown hooks, stop_inv what a stop has done by the time it resolves.
\<close>

section \<open>Steps\<close>

inductive server_step :: "'q server_config \<Rightarrow> ('u hook \<Rightarrow> bool) \<Rightarrow>
    ('s, 'm, 'h, 'q, 'u) srv \<Rightarrow> ('s, 'm, 'h, 'q, 'u) srv \<Rightarrow> bool"
  for cfg throws where
  st_addService: "server_step cfg throws s (snd (addService d s))"
| st_addInterceptor: "server_step cfg throws s (snd (addInterceptor i s))"
| st_addProtocol: "server_step cfg throws s (snd (addProtocol p s))"
| st_onShutdown: "server_step cfg throws s (snd (onShutdown args s))"
| st_build: "server_step cfg throws s (ensureRoutesBuilt cfg s)"
| st_start: "server_step cfg throws s (snd (start_call cfg s))"
| st_bus: "sv_start s = AwaitBus \<Longrightarrow> server_step cfg throws s (bus_settled cfg err s)"
| st_listen: "sv_start s = AwaitListen \<Longrightarrow> server_step cfg throws s (listen_settled cfg err s)"
| st_cleanup: "sv_start s = AwaitBusCleanup e \<Longrightarrow> server_step cfg throws s (start_failed e s)"
| st_session: "tm_server (sv_tm s) \<noteq> None \<Longrightarrow>
    server_step cfg throws s (s\<lparr>sv_tm := tm_session i (sv_tm s)\<rparr>)"
| st_session_close: "server_step cfg throws s (s\<lparr>sv_tm := tm_session_close i (sv_tm s)\<rparr>)"
| st_stop: "server_step cfg throws s (snd (stop_call cfg s))"
| st_signal: "sg \<in> set (sv_signals s) \<Longrightarrow> server_step cfg throws s (signal_call cfg s)"
| st_race: "sv_stop s = AwaitRace \<Longrightarrow> executeAll_start throws (sv_sm s) = Some ex \<Longrightarrow>
    server_step cfg throws s (race_settled cfg r ex s)"
| st_hook: "sv_stop s = AwaitHooks ks ex \<Longrightarrow> exec_step throws (sv_sm s) ex ex' \<Longrightarrow>
    server_step cfg throws s (s\<lparr>sv_stop := AwaitHooks ks ex'\<rparr>)"
| st_hooks_ok: "sv_stop s = AwaitHooks ks ex \<Longrightarrow> \<forall>k \<in> set ks. ex_phase ex k = Some Done \<Longrightarrow>
    server_step cfg throws s (hooks_settled cfg ex s)"
| st_hooks_fail: "sv_stop s = AwaitHooks ks ex \<Longrightarrow> k \<in> set ks \<Longrightarrow> ex_phase ex k = Some Failed \<Longrightarrow>
    server_step cfg throws s (stop_failed e s)"

inductive server_reach :: "'q server_config \<Rightarrow> ('u hook \<Rightarrow> bool) \<Rightarrow> ('s, 'm, 'h, 'q, 'u) srv \<Rightarrow> bool"
  for cfg throws where
  sr_new: "server_reach cfg throws (srv_new services interceptors protocols)"
| sr_step: "server_reach cfg throws s \<Longrightarrow> server_step cfg throws s s' \<Longrightarrow> server_reach cfg throws s'"

section \<open>States, program counters and events\<close>

definition is_error :: "server_event \<Rightarrow> bool" where
  "is_error e \<longleftrightarrow> (case e of EvError _ \<Rightarrow> True | _ \<Rightarrow> False)"

lemma is_error_simps [simp]:
  "\<not> is_error EvStart" "\<not> is_error EvReady" "\<not> is_error EvStopping" "\<not> is_error EvStop" "is_error (EvError e)"
  by (simp_all add: is_error_def)

definition life :: "('s, 'm, 'h, 'q, 'u) srv \<Rightarrow> server_event list" where
  "life s = filter (\<lambda>e. \<not> is_error e) (sv_events s)"

definition rank :: "server_state \<Rightarrow> nat" where
  "rank st = (case st of CREATED \<Rightarrow> 0 | STARTING \<Rightarrow> 1 | RUNNING \<Rightarrow> 2 | STOPPING \<Rightarrow> 3 | STOPPED \<Rightarrow> 4)"

definition life_inv :: "('s, 'm, 'h, 'q, 'u) srv \<Rightarrow> bool" where
  "life_inv s \<longleftrightarrow>
    (sv_state s = CREATED \<longrightarrow> sv_start s = StartIdle \<and> sv_stop s = StopIdle \<and> life s = []) \<and>
    (sv_state s = STARTING \<longrightarrow> sv_stop s = StopIdle \<and> life s = [EvStart]) \<and>
    (sv_state s = RUNNING \<longrightarrow> sv_stop s = StopIdle \<and> life s = [EvStart, EvReady]) \<and>
    (sv_state s = STOPPING \<longrightarrow> life s = [EvStart, EvReady, EvStopping]) \<and>
    (sv_state s = STOPPED \<longrightarrow> life s \<in> {[EvStart], [EvStart, EvReady], [EvStart, EvReady, EvStopping],
      [EvStart, EvReady, EvStopping, EvStop]}) \<and>
    (sv_start s \<in> {AwaitBus, AwaitListen} \<longrightarrow> sv_state s = STARTING) \<and>
    (sv_start s = StartIdle \<longrightarrow> sv_state s = CREATED) \<and>
    ((sv_stop s = AwaitRace \<or> (\<exists>ks ex. sv_stop s = AwaitHooks ks ex)) \<longrightarrow>
      life s = [EvStart, EvReady, EvStopping]) \<and>
    ((\<exists>ex. sv_stop s = Stopped ex) \<longrightarrow> life s = [EvStart, EvReady, EvStopping, EvStop] \<and> sv_state s = STOPPED)"

lemmas server_ops = addService_def addInterceptor_def addProtocol_def onShutdown_def ensureRoutesBuilt_def
  start_call_def start_body_def start_catch_def start_failed_def listen_call_def bus_settled_def
  listen_settled_def setupAutoShutdown_def stop_call_def stop_done_def stop_failed_def
  removeAutoShutdown_def race_settled_def hooks_settled_def signal_call_def emit_def Let_def

lemma life_inv_new: "life_inv (srv_new services interceptors protocols)"
  by (simp add: life_inv_def srv_new_def life_def)

lemma life_emit: "life (s\<lparr>sv_events := sv_events s @ [e]\<rparr>) = life s @ (if is_error e then [] else [e])"
  by (simp add: life_def)

definition starting :: "('s, 'm, 'h, 'q, 'u) srv \<Rightarrow> bool" where
  "starting s \<longleftrightarrow> sv_state s = STARTING \<and> sv_stop s = StopIdle \<and> life s = [EvStart]"

lemma start_catch_life: "starting s \<Longrightarrow> life_inv (start_catch cfg e s) \<and> 1 \<le> rank (sv_state (start_catch cfg e s))"
  by (simp add: starting_def start_catch_def start_failed_def emit_def life_inv_def life_def rank_def)

lemma listen_call_life: "starting s \<Longrightarrow> life_inv (listen_call cfg s) \<and> 1 \<le> rank (sv_state (listen_call cfg s))"
  using start_catch_life [of s cfg]
  by (simp add: listen_call_def) (simp add: starting_def life_inv_def life_def rank_def)

lemma ensureRoutesBuilt_sel [simp]:
  "sv_state (ensureRoutesBuilt cfg s) = sv_state s" "sv_stop (ensureRoutesBuilt cfg s) = sv_stop s"
  "sv_events (ensureRoutesBuilt cfg s) = sv_events s" "sv_start (ensureRoutesBuilt cfg s) = sv_start s"
  "sv_sm (ensureRoutesBuilt cfg s) = sv_sm s" "sv_tm (ensureRoutesBuilt cfg s) = sv_tm s"
  "sv_services (ensureRoutesBuilt cfg s) = sv_services s" "sv_bus (ensureRoutesBuilt cfg s) = sv_bus s"
  "sv_interceptors (ensureRoutesBuilt cfg s) = sv_interceptors s" "sv_late (ensureRoutesBuilt cfg s) = sv_late s"
  "sv_protocols (ensureRoutesBuilt cfg s) = sv_protocols s" "sv_abort (ensureRoutesBuilt cfg s) = sv_abort s"
  "sv_signals (ensureRoutesBuilt cfg s) = sv_signals s"
  by (simp_all add: ensureRoutesBuilt_def Let_def)

lemma start_body_cases:
  assumes "\<And>e. P (start_catch cfg e s)" "\<And>e. P (start_catch cfg e (ensureRoutesBuilt cfg s))"
    "cf_bus cfg \<Longrightarrow> P (ensureRoutesBuilt cfg s\<lparr>sv_bus := BusStarting, sv_start := AwaitBus\<rparr>)"
    "\<not> cf_bus cfg \<Longrightarrow> P (listen_call cfg (ensureRoutesBuilt cfg s))"
  shows "P (start_body cfg s)"
  unfolding start_body_def Let_def
  using assms by (simp split: option.split)

lemma start_body_life:
  assumes "starting s"
  shows "life_inv (start_body cfg s) \<and> 1 \<le> rank (sv_state (start_body cfg s))"
proof -
  have s1: "starting (ensureRoutesBuilt cfg s)" using assms by (simp add: starting_def life_def)
  have b: "life_inv (ensureRoutesBuilt cfg s\<lparr>sv_bus := BusStarting, sv_start := AwaitBus\<rparr>)"
    using s1 by (simp add: starting_def life_inv_def life_def)
  moreover have "1 \<le> rank (sv_state (ensureRoutesBuilt cfg s))"
    using s1 by (simp add: starting_def rank_def)
  ultimately have c: "life_inv (ensureRoutesBuilt cfg s\<lparr>sv_bus := BusStarting, sv_start := AwaitBus\<rparr>) \<and>
      1 \<le> rank (sv_state (ensureRoutesBuilt cfg s\<lparr>sv_bus := BusStarting, sv_start := AwaitBus\<rparr>))" by simp
  show ?thesis
    by (rule start_body_cases [where P = "\<lambda>t. life_inv t \<and> 1 \<le> rank (sv_state t)"])
      (rule start_catch_life [OF assms] start_catch_life [OF s1] listen_call_life [OF s1] c)+
qed

lemma life_inv_cong:
  assumes "life_inv s" "sv_state s' = sv_state s" "sv_start s' = sv_start s" "sv_stop s' = sv_stop s"
    "sv_events s' = sv_events s"
  shows "life_inv s' \<and> rank (sv_state s) \<le> rank (sv_state s')"
proof -
  have "life s' = life s" by (simp add: life_def assms(5))
  then have "life_inv s'"
    using assms(1) unfolding life_inv_def assms(2-4) by metis
  then show ?thesis by (simp add: assms(2))
qed

lemma rank_STOPPED [simp]: "rank st \<le> rank STOPPED"
  by (cases st) (simp_all add: rank_def)

lemma stop_failed_sel [simp]:
  "sv_state (stop_failed e s) = STOPPED" "sv_stop (stop_failed e s) = StopRejected e"
  "sv_start (stop_failed e s) = sv_start s" "life (stop_failed e s) = life s"
  "sv_sm (stop_failed e s) = sv_sm s" "sv_tm (stop_failed e s) = sv_tm s"
  "sv_abort (stop_failed e s) = sv_abort s" "sv_signals (stop_failed e s) = sv_signals s"
  "sv_built (stop_failed e s) = sv_built s" "sv_services (stop_failed e s) = sv_services s"
  "sv_interceptors (stop_failed e s) = sv_interceptors s" "sv_protocols (stop_failed e s) = sv_protocols s"
  "sv_bus (stop_failed e s) = sv_bus s" "sv_late (stop_failed e s) = sv_late s"
  by (simp_all add: stop_failed_def emit_def Let_def life_def)

lemma stop_failed_life:
  assumes "life_inv s" "life s \<in> {[EvStart, EvReady, EvStopping], [EvStart, EvReady, EvStopping, EvStop]}"
  shows "life_inv (stop_failed e s) \<and> rank (sv_state s) \<le> rank (sv_state (stop_failed e s))"
proof -
  have "sv_start s \<notin> {AwaitBus, AwaitListen, StartIdle}"
    using assms by (cases "sv_state s") (auto simp: life_inv_def)
  then show ?thesis using assms(2) by (simp add: life_inv_def)
qed

lemma stop_done_life:
  assumes "life_inv s" "life s = [EvStart, EvReady, EvStopping]"
  shows "life_inv (stop_done cfg ex s) \<and> rank (sv_state s) \<le> rank (sv_state (stop_done cfg ex s))"
proof -
  let ?s = "emit EvStop (s\<lparr>sv_state := STOPPED, sv_stop := Stopped ex\<rparr>)"
  have l: "life ?s = [EvStart, EvReady, EvStopping, EvStop]" using assms(2) by (simp add: emit_def life_def)
  moreover have "sv_start s \<notin> {AwaitBus, AwaitListen, StartIdle}"
    using assms by (cases "sv_state s") (auto simp: life_inv_def)
  ultimately have i: "life_inv ?s" by (simp add: life_inv_def emit_def)
  show ?thesis using i stop_failed_life [OF i] l
    by (auto simp: stop_done_def Let_def emit_def)
qed

lemma stop_call_life:
  assumes "life_inv s"
  shows "life_inv (snd (stop_call cfg s)) \<and> rank (sv_state s) \<le> rank (sv_state (snd (stop_call cfg s)))"
proof (cases "sv_state s = RUNNING")
  case True
  let ?s1 = "emit EvStopping (s\<lparr>sv_state := STOPPING\<rparr>)"
  let ?s2 = "removeAutoShutdown (?s1\<lparr>sv_abort := True\<rparr>)"
  have i: "life_inv ?s1" "life_inv ?s2" "life ?s2 = [EvStart, EvReady, EvStopping]"
    "life_inv (?s2\<lparr>sv_stop := AwaitRace\<rparr>)"
    using assms True by (simp_all add: life_inv_def emit_def life_def removeAutoShutdown_def)
  show ?thesis using True i stop_done_life [OF i(2,3), of cfg ex_init]
    by (simp add: stop_call_def Let_def) (simp add: emit_def removeAutoShutdown_def rank_def)
qed (use assms in \<open>simp add: stop_call_def\<close>)

lemma life_inv_emit_error:
  assumes "life_inv s"
  shows "life_inv (emit (EvError e) s)"
proof -
  have l: "life (emit (EvError e) s) = life s" by (simp add: life_def emit_def)
  have f: "sv_state (emit (EvError e) s) = sv_state s" "sv_start (emit (EvError e) s) = sv_start s"
    "sv_stop (emit (EvError e) s) = sv_stop s" by (simp_all add: emit_def)
  show ?thesis using assms unfolding life_inv_def l f .
qed

lemma life_inv_stop_pc:
  assumes "life_inv s" "life s = [EvStart, EvReady, EvStopping]" "sv_stop s \<noteq> StopIdle"
    "sv_state s' = sv_state s" "sv_start s' = sv_start s" "sv_events s' = sv_events s"
    "sv_stop s' = AwaitHooks ks ex"
  shows "life_inv s' \<and> rank (sv_state s) \<le> rank (sv_state s')"
proof -
  have l: "life s' = [EvStart, EvReady, EvStopping]" using assms(2) by (simp add: life_def assms(6))
  have "sv_state s \<notin> {CREATED, STARTING, RUNNING}" "sv_start s \<noteq> StartIdle"
    using assms(1-3) by (auto simp: life_inv_def)
  moreover have "sv_start s \<notin> {AwaitBus, AwaitListen}"
    using assms(1) calculation unfolding life_inv_def by blast
  ultimately show ?thesis unfolding life_inv_def l using assms(4,5,7) by simp
qed

lemma start_call_life:
  assumes "life_inv s"
  shows "life_inv (snd (start_call cfg s)) \<and> rank (sv_state s) \<le> rank (sv_state (snd (start_call cfg s)))"
proof -
  have c: "starting (emit EvStart (s\<lparr>sv_state := STARTING\<rparr>))" if "sv_state s = CREATED"
    using assms(1) that by (simp add: starting_def life_inv_def life_def emit_def)
  have t: "life_inv (emit EvStart (s\<lparr>sv_state := STARTING\<rparr>)\<lparr>sv_start := StartRejected (plain_error ''listener'')\<rparr>)"
    if "sv_state s = CREATED"
    using c [OF that] by (simp add: starting_def life_inv_def life_def)
  show ?thesis
    using assms(1) start_body_life [OF c, of cfg] t
    by (auto simp: start_call_def Let_def rank_def emit_def)
qed

lemma bus_settled_life:
  assumes "life_inv s" "sv_start s = AwaitBus"
  shows "life_inv (bus_settled cfg err s) \<and> rank (sv_state s) \<le> rank (sv_state (bus_settled cfg err s))"
proof -
  have c: "starting (s\<lparr>sv_bus := BusStarted, sv_sm := m\<rparr>)" "starting s" "sv_state s = STARTING" for m
    using assms(1) assms(2) by (simp_all add: starting_def life_inv_def life_def)
  show ?thesis
    using start_catch_life [OF c(1), of cfg] start_catch_life [OF c(2), of cfg] listen_call_life [OF c(1), of cfg] c(3)
    unfolding bus_settled_def by (simp add: rank_def split: option.split prod.split sum.split)
qed

lemma listen_settled_life:
  assumes "life_inv s" "sv_start s = AwaitListen"
  shows "life_inv (listen_settled cfg err s) \<and> rank (sv_state s) \<le> rank (sv_state (listen_settled cfg err s))"
proof -
  have c: "starting s" "sv_state s = STARTING"
    using assms(1) assms(2) by (simp_all add: starting_def life_inv_def life_def)
  show ?thesis
  proof (cases err)
    case None
    then show ?thesis using c
      by (simp add: starting_def server_ops life_inv_def life_def rank_def)
  next
    case (Some e)
    then show ?thesis
      using start_catch_life [OF c(1), of cfg e] c(2) by (simp add: listen_settled_def rank_def)
  qed
qed

lemma signal_call_life:
  assumes "life_inv s"
  shows "life_inv (signal_call cfg s) \<and> rank (sv_state s) \<le> rank (sv_state (signal_call cfg s))"
proof -
  obtain r t where st: "stop_call cfg s = (r, t)" by (cases "stop_call cfg s")
  have t: "life_inv t \<and> rank (sv_state s) \<le> rank (sv_state t)"
    using stop_call_life [OF assms(1), of cfg] st by simp
  then have "life_inv (t\<lparr>sv_bySignal := True\<rparr>)" using life_inv_cong [of t "t\<lparr>sv_bySignal := True\<rparr>"] by simp
  moreover have "life_inv (emit (EvError e) t)" for e
    using life_inv_emit_error t by blast
  ultimately show ?thesis unfolding signal_call_def st using t
    by (simp add: emit_def split: sum.split)
qed

lemma race_settled_life:
  assumes "life_inv s" "sv_stop s = AwaitRace"
  shows "life_inv (race_settled cfg r ex s) \<and> rank (sv_state s) \<le> rank (sv_state (race_settled cfg r ex s))"
proof -
  have l: "life s = [EvStart, EvReady, EvStopping]" using assms by (simp add: life_inv_def)
  show ?thesis
  proof (cases r)
    case (CloseRejected e)
    then show ?thesis using stop_failed_life [OF assms(1)] l by (simp add: race_settled_def)
  next
    case CloseResolved
    show ?thesis
      by (rule life_inv_stop_pc [OF assms(1) l]) (simp_all add: assms(2) race_settled_def CloseResolved)
  next
    case CloseTimeout
    show ?thesis
      by (rule life_inv_stop_pc [OF assms(1) l]) (simp_all add: assms(2) race_settled_def CloseTimeout)
  qed
qed

lemma hooks_settled_life:
  assumes "life_inv s" "sv_stop s = AwaitHooks ks ex"
  shows "life_inv (hooks_settled cfg ex s) \<and> rank (sv_state s) \<le> rank (sv_state (hooks_settled cfg ex s))"
proof -
  have l: "life s = [EvStart, EvReady, EvStopping]" using assms by (auto simp: life_inv_def)
  have "life_inv (s\<lparr>sv_tm := dispose (sv_tm s)\<rparr>)"
    using life_inv_cong [OF assms(1), of "s\<lparr>sv_tm := dispose (sv_tm s)\<rparr>"] by simp
  moreover have "life (s\<lparr>sv_tm := dispose (sv_tm s)\<rparr>) = life s" by (simp add: life_def)
  ultimately show ?thesis unfolding hooks_settled_def using l stop_done_life by fastforce
qed

lemma life_inv_step:
  assumes "server_step cfg throws s s'" "life_inv s"
  shows "life_inv s' \<and> rank (sv_state s) \<le> rank (sv_state s')"
  using assms(1)
proof cases
  case (st_addService d)
  then show ?thesis by (intro life_inv_cong [OF assms(2)]) (simp_all add: addService_def)
next
  case (st_addInterceptor i)
  then show ?thesis by (intro life_inv_cong [OF assms(2)]) (simp_all add: addInterceptor_def)
next
  case (st_addProtocol p)
  then show ?thesis by (intro life_inv_cong [OF assms(2)]) (simp_all add: addProtocol_def)
next
  case (st_onShutdown args)
  then show ?thesis
    by (intro life_inv_cong [OF assms(2)]) (simp_all add: onShutdown_def split: prod.split)
next
  case st_build
  then show ?thesis by (intro life_inv_cong [OF assms(2)]) simp_all
next
  case st_start
  show ?thesis unfolding st_start by (rule start_call_life [OF assms(2)])
next
  case (st_bus err)
  show ?thesis unfolding st_bus(1) by (rule bus_settled_life [OF assms(2) st_bus(2)])
next
  case (st_listen err)
  show ?thesis unfolding st_listen(1) by (rule listen_settled_life [OF assms(2) st_listen(2)])
next
  case (st_cleanup e)
  show ?thesis unfolding st_cleanup(1) using assms(2) st_cleanup(2)
    by (cases "sv_state s") (simp_all add: start_failed_def emit_def life_inv_def life_def rank_def)
next
  case (st_session i)
  then show ?thesis by (intro life_inv_cong [OF assms(2)]) simp_all
next
  case (st_session_close i)
  then show ?thesis by (intro life_inv_cong [OF assms(2)]) simp_all
next
  case st_stop
  show ?thesis unfolding st_stop by (rule stop_call_life [OF assms(2)])
next
  case (st_signal sg)
  show ?thesis unfolding st_signal(1) by (rule signal_call_life [OF assms(2)])
next
  case (st_race ex r)
  show ?thesis unfolding st_race(1) by (rule race_settled_life [OF assms(2) st_race(2)])
next
  case (st_hook ks ex ex')
  then have l: "life s = [EvStart, EvReady, EvStopping]" using assms(2) by (auto simp: life_inv_def)
  show ?thesis unfolding st_hook(1)
    by (rule life_inv_stop_pc [OF assms(2) l]) (simp_all add: st_hook(2))
next
  case (st_hooks_ok ks ex)
  show ?thesis unfolding st_hooks_ok(1) by (rule hooks_settled_life [OF assms(2) st_hooks_ok(2)])
next
  case (st_hooks_fail ks ex k e)
  then have "life s = [EvStart, EvReady, EvStopping]" using assms(2) by (auto simp: life_inv_def)
  then show ?thesis unfolding st_hooks_fail(1) using stop_failed_life [OF assms(2)] by simp
qed

lemma server_reach_life: "server_reach cfg throws s \<Longrightarrow> life_inv s"
  by (induction rule: server_reach.induct) (auto intro: life_inv_new dest: life_inv_step)

section \<open>The frozen configuration\<close>

definition conf_inv :: "'q server_config \<Rightarrow> ('s, 'm, 'h, 'q, 'u) srv \<Rightarrow> bool" where
  "conf_inv cfg s \<longleftrightarrow> sv_built s \<in> {None, Some (buildRoutes (sv_services s) (sv_protocols s) (sv_interceptors s)
    (cf_enabled cfg))}"

lemma built_ops [simp]:
  "sv_built (emit e s) = sv_built s" "sv_services (emit e s) = sv_services s"
  "sv_protocols (emit e s) = sv_protocols s" "sv_interceptors (emit e s) = sv_interceptors s"
  "sv_sm (emit e s) = sv_sm s" "sv_start (emit e s) = sv_start s" "sv_stop (emit e s) = sv_stop s"
  "sv_state (emit e s) = sv_state s" "sv_tm (emit e s) = sv_tm s" "sv_bus (emit e s) = sv_bus s"
  "sv_abort (emit e s) = sv_abort s" "sv_signals (emit e s) = sv_signals s" "sv_late (emit e s) = sv_late s"
  by (simp_all add: emit_def)

definition same_conf :: "('s, 'm, 'h, 'q, 'u) srv \<Rightarrow> ('s, 'm, 'h, 'q, 'u) srv \<Rightarrow> bool" where
  "same_conf s s' \<longleftrightarrow> sv_services s' = sv_services s \<and> sv_protocols s' = sv_protocols s \<and>
    sv_interceptors s' = sv_interceptors s \<and> sv_built s' = sv_built s"

lemma start_catch_conf [simp]: "same_conf s (start_catch cfg e s)"
  by (simp add: same_conf_def start_catch_def start_failed_def)

lemma listen_call_conf [simp]: "same_conf s (listen_call cfg s)"
  using start_catch_conf [of s cfg] by (simp add: listen_call_def) (simp add: same_conf_def)

lemma ensureRoutesBuilt_conf: "conf_inv cfg s \<Longrightarrow> conf_inv cfg (ensureRoutesBuilt cfg s)"
  by (auto simp: conf_inv_def ensureRoutesBuilt_def Let_def)

lemma same_conf_inv: "same_conf s s' \<Longrightarrow> conf_inv cfg s \<Longrightarrow> conf_inv cfg s'"
  by (simp add: same_conf_def conf_inv_def)

lemma same_conf_trans: "same_conf s t \<Longrightarrow> same_conf t u \<Longrightarrow> same_conf s u"
  by (simp add: same_conf_def)

lemma start_body_conf: "conf_inv cfg s \<Longrightarrow> conf_inv cfg (start_body cfg s) \<and>
    sv_services (start_body cfg s) = sv_services s \<and> (sv_built s \<noteq> None \<longrightarrow> sv_built (start_body cfg s) = sv_built s)"
proof -
  assume c: "conf_inv cfg s"
  have b: "sv_built s \<noteq> None \<Longrightarrow> sv_built (ensureRoutesBuilt cfg s) = sv_built s"
    by (simp add: ensureRoutesBuilt_def)
  have k: "conf_inv cfg t \<and> sv_services t = sv_services s \<and> (sv_built s \<noteq> None \<longrightarrow> sv_built t = sv_built s)"
    if "same_conf s t \<or> same_conf (ensureRoutesBuilt cfg s) t" for t
    using that same_conf_inv [OF _ c] same_conf_inv [OF _ ensureRoutesBuilt_conf [OF c]] b
    unfolding same_conf_def by fastforce
  show ?thesis
    by (rule start_body_cases [where P = "\<lambda>t. conf_inv cfg t \<and> sv_services t = sv_services s \<and>
        (sv_built s \<noteq> None \<longrightarrow> sv_built t = sv_built s)"]; rule k)
      (simp_all, simp add: same_conf_def)
qed

lemma stop_call_conf: "same_conf s (snd (stop_call cfg s))"
  by (simp add: stop_call_def Let_def same_conf_def stop_done_def removeAutoShutdown_def)

text \<open>The steps that change neither the services nor the routes.\<close>

lemma bus_settled_conf: "same_conf s (bus_settled cfg err s)"
proof -
  have u: "same_conf s (s\<lparr>sv_bus := b, sv_sm := m\<rparr>)" for b m by (simp add: same_conf_def)
  show ?thesis unfolding bus_settled_def
    by (auto intro!: same_conf_trans [OF u start_catch_conf] same_conf_trans [OF u listen_call_conf]
        split: option.split prod.split sum.split)
qed

lemma listen_settled_conf: "same_conf s (listen_settled cfg err s)"
  using start_catch_conf
  by (auto simp: listen_settled_def same_conf_def setupAutoShutdown_def Let_def start_catch_def
      start_failed_def split: option.split)

lemma signal_call_conf: "same_conf s (signal_call cfg s)"
  using stop_call_conf [of s cfg] by (auto simp: signal_call_def same_conf_def split: prod.split sum.split)

lemma other_steps_conf:
  "same_conf s (snd (onShutdown args s))" "same_conf s (race_settled cfg r ex s)"
  "same_conf s (hooks_settled cfg ex s)" "same_conf s (start_failed e s)"
  by (simp_all add: onShutdown_def race_settled_def hooks_settled_def stop_done_def start_failed_def same_conf_def
      Let_def split: prod.split race_result.split)

lemma conf_inv_step:
  assumes "server_step cfg throws s s'" "conf_inv cfg s"
  shows "conf_inv cfg s' \<and> (frozen s \<longrightarrow> sv_services s' = sv_services s \<and>
    (sv_built s \<noteq> None \<longrightarrow> sv_built s' = sv_built s))"
proof -
  have same: ?thesis if "same_conf s s'"
    using that same_conf_inv [OF that assms(2)] by (simp add: same_conf_def)
  from assms(1) show ?thesis
  proof cases
    case st_start
    have c: "conf_inv cfg (emit EvStart (s\<lparr>sv_state := STARTING\<rparr>))"
      using assms(2) by (simp add: conf_inv_def)
    show ?thesis unfolding st_start using assms(2) start_body_conf [OF c]
      by (simp add: start_call_def Let_def) (simp add: conf_inv_def)
  next
    case (st_bus err)
    show ?thesis by (rule same, unfold st_bus(1), rule bus_settled_conf)
  next
    case (st_listen err)
    show ?thesis by (rule same, unfold st_listen(1), rule listen_settled_conf)
  next
    case (st_signal sg)
    show ?thesis by (rule same, unfold st_signal(1), rule signal_call_conf)
  next
    case st_stop
    show ?thesis by (rule same, unfold st_stop, rule stop_call_conf)
  next
    case (st_onShutdown args)
    show ?thesis by (rule same, unfold st_onShutdown, rule other_steps_conf)
  next
    case st_build
    then show ?thesis using ensureRoutesBuilt_conf [OF assms(2)]
      by simp (simp add: ensureRoutesBuilt_def)
  next
    case (st_race ex r)
    show ?thesis by (rule same, unfold st_race(1), rule other_steps_conf)
  next
    case (st_hooks_ok ks ex)
    show ?thesis by (rule same, unfold st_hooks_ok(1), rule other_steps_conf)
  next
    case (st_cleanup e)
    show ?thesis by (rule same, unfold st_cleanup(1), rule other_steps_conf)
  qed (use assms(2) in \<open>auto simp: addService_def addInterceptor_def addProtocol_def conf_inv_def frozen_def\<close>)
qed

lemma server_reach_conf: "server_reach cfg throws s \<Longrightarrow> conf_inv cfg s"
  by (induction rule: server_reach.induct) (auto simp: conf_inv_def srv_new_def dest: conf_inv_step)

section \<open>What a stop has done\<close>

definition bus_hooked :: "'q server_config \<Rightarrow> ('s, 'm, 'h, 'q, 'u) srv \<Rightarrow> bool" where
  "bus_hooked cfg s \<longleftrightarrow> cf_bus cfg \<longrightarrow> BusStopHook \<in> set (hooks_of (sv_sm s) ''eventbus'')"

definition stop_inv :: "'q server_config \<Rightarrow> ('u hook \<Rightarrow> bool) \<Rightarrow> ('s, 'm, 'h, 'q, 'u) srv \<Rightarrow> bool" where
  "stop_inv cfg throws s \<longleftrightarrow>
    dep_acyclic (sv_sm s) \<and>
    (sv_abort s \<longleftrightarrow> sv_stop s \<noteq> StopIdle) \<and>
    (sv_stop s \<noteq> StopIdle \<longrightarrow> sv_signals s = [] \<and> bus_hooked cfg s) \<and>
    (sv_start s = AwaitListen \<longrightarrow> bus_hooked cfg s) \<and>
    (sv_state s = RUNNING \<longrightarrow> bus_hooked cfg s \<and> tm_server (sv_tm s) \<noteq> None) \<and>
    (sv_start s = AwaitListen \<longrightarrow> tm_server (sv_tm s) \<noteq> None) \<and>
    (\<forall>ks ex. sv_stop s = AwaitHooks ks ex \<longrightarrow> \<not> sv_late s \<longrightarrow>
      exec_reach throws (sv_sm s) ex \<and> ks = om_keys (sm_hooks (sv_sm s))) \<and>
    (\<forall>ex. sv_stop s = Stopped ex \<longrightarrow> tm_server (sv_tm s) = None \<and> tm_sessions (sv_tm s) = [] \<and>
      (\<not> sv_late s \<longrightarrow> (\<forall>n \<in> set (om_keys (sm_hooks (sv_sm s))). hooks_ended (sv_sm s) (ex_log ex) n)))"

lemma addHook_hooks_mono:
  assumes "addHook args m = (r, m')" "h \<in> set (hooks_of m n)"
  shows "h \<in> set (hooks_of m' n)"
  using assms(1)
proof (cases rule: addHook_cases)
  case (rejected n' ds h' a)
  then show ?thesis using assms(2) by (simp add: hooks_of_def)
next
  case (accepted n' ds h' a)
  then show ?thesis using assms(2) by (auto simp: hooks_of_def)
qed

lemma bus_addHook_ok:
  assumes "dep_acyclic m"
  shows "fst (addHook (HookNamed n h) m) = Inr ()"
proof (rule ccontr)
  assume a: "fst (addHook (HookNamed n h) m) \<noteq> Inr ()"
  obtain r m' where e: "addHook (HookNamed n h) m = (r, m')" by (cases "addHook (HookNamed n h) m")
  with a have "\<exists>e m'. addHook (HookNamed n h) m = (Inl e, m')" by (cases r) auto
  then have "\<not> acyclic (dep_rel (sm_tree m) \<union> {(n, d) |d. d \<in> set []})"
    using addHook_rejects_iff_cyclic [OF assms, of "HookNamed n h" n "[]" h "sm_anon m"]
    by (simp add: hook_parts_def)
  then show False using assms by (simp add: dep_acyclic_iff)
qed

lemma bus_addHook_registered:
  assumes "addHook (HookNamed n h) m = (Inr u, m')"
  shows "h \<in> set (hooks_of m' n)"
  using assms by (cases rule: addHook_cases) (auto simp: hook_parts_def hooks_of_def)

lemma stop_invI:
  assumes "dep_acyclic (sv_sm s)" "sv_abort s \<longleftrightarrow> sv_stop s \<noteq> StopIdle"
    "sv_stop s \<noteq> StopIdle \<Longrightarrow> sv_signals s = [] \<and> bus_hooked cfg s"
    "sv_start s = AwaitListen \<Longrightarrow> bus_hooked cfg s \<and> tm_server (sv_tm s) \<noteq> None"
    "sv_state s = RUNNING \<Longrightarrow> bus_hooked cfg s \<and> tm_server (sv_tm s) \<noteq> None"
    "\<And>ks ex. sv_stop s = AwaitHooks ks ex \<Longrightarrow> \<not> sv_late s \<Longrightarrow>
      exec_reach throws (sv_sm s) ex \<and> ks = om_keys (sm_hooks (sv_sm s))"
    "\<And>ex. sv_stop s = Stopped ex \<Longrightarrow> tm_server (sv_tm s) = None \<and> tm_sessions (sv_tm s) = [] \<and>
      (\<not> sv_late s \<longrightarrow> (\<forall>n \<in> set (om_keys (sm_hooks (sv_sm s))). hooks_ended (sv_sm s) (ex_log ex) n))"
  shows "stop_inv cfg throws s"
  using assms unfolding stop_inv_def by blast

lemma stop_invD:
  assumes "stop_inv cfg throws s"
  shows "dep_acyclic (sv_sm s)" "sv_abort s \<longleftrightarrow> sv_stop s \<noteq> StopIdle"
    "sv_stop s \<noteq> StopIdle \<Longrightarrow> sv_signals s = [] \<and> bus_hooked cfg s"
    "sv_start s = AwaitListen \<Longrightarrow> bus_hooked cfg s \<and> tm_server (sv_tm s) \<noteq> None"
    "sv_state s = RUNNING \<Longrightarrow> bus_hooked cfg s \<and> tm_server (sv_tm s) \<noteq> None"
  using assms unfolding stop_inv_def by (blast+)

lemma stop_inv_keep:
  assumes "stop_inv cfg throws s"
    "sv_sm s' = sv_sm s" "sv_abort s' = sv_abort s" "sv_stop s' = sv_stop s" "sv_signals s' = sv_signals s"
    "sv_late s' = sv_late s" "tm_server (sv_tm s') = tm_server (sv_tm s)"
    "tm_sessions (sv_tm s) = [] \<and> tm_server (sv_tm s) = None \<longrightarrow> tm_sessions (sv_tm s') = []"
    "sv_start s' = AwaitListen \<longrightarrow> sv_start s = AwaitListen" "sv_state s' = RUNNING \<longrightarrow> sv_state s = RUNNING"
  shows "stop_inv cfg throws s'"
  using assms(1) unfolding stop_inv_def bus_hooked_def assms(2-7) using assms(8-10) by blast

lemma start_catch_stop:
  assumes "stop_inv cfg throws s"
  shows "stop_inv cfg throws (start_catch cfg e s)"
  by (rule stop_inv_keep [OF assms]) (simp_all add: start_catch_def start_failed_def)

lemma listen_call_stop:
  assumes "stop_inv cfg throws s" "sv_stop s = StopIdle" "bus_hooked cfg s"
  shows "stop_inv cfg throws (listen_call cfg s)"
proof (cases "cf_tls cfg \<and> \<not> cf_certs_ok cfg")
  case True
  then show ?thesis using start_catch_stop [OF assms(1)] by (simp add: listen_call_def)
next
  case False
  have "tm_server (tm_create (cf_tls cfg) (cf_allowHTTP1 cfg) (sv_tm s)) \<noteq> None"
    by (simp add: tm_create_server)
  moreover have "listen_call cfg s = s\<lparr>sv_tm := tm_create (cf_tls cfg) (cf_allowHTTP1 cfg) (sv_tm s),
      sv_start := AwaitListen\<rparr>"
    using False unfolding listen_call_def by (rule if_not_P)
  ultimately show ?thesis using assms by (simp add: stop_inv_def bus_hooked_def)
qed

lemma start_body_stop:
  assumes "stop_inv cfg throws s" "sv_stop s = StopIdle" "sv_start s = StartIdle" "sv_state s \<noteq> RUNNING"
  shows "stop_inv cfg throws (start_body cfg s)"
proof -
  have e: "stop_inv cfg throws (ensureRoutesBuilt cfg s)"
    by (rule stop_inv_keep [OF assms(1)]) simp_all
  have b: "stop_inv cfg throws (ensureRoutesBuilt cfg s\<lparr>sv_bus := BusStarting, sv_start := AwaitBus\<rparr>)"
    by (rule stop_inv_keep [OF assms(1)]) simp_all
  have l: "stop_inv cfg throws (listen_call cfg (ensureRoutesBuilt cfg s))" if "\<not> cf_bus cfg"
    by (rule listen_call_stop [OF e]) (use that assms(2) in \<open>simp_all add: bus_hooked_def\<close>)
  show ?thesis
    by (rule start_body_cases [where P = "stop_inv cfg throws"])
      (rule start_catch_stop [OF assms(1)] start_catch_stop [OF e] b l | assumption)+
qed

lemma stop_failed_stop:
  assumes "stop_inv cfg throws s" "sv_stop s \<noteq> StopIdle" "sv_start s \<noteq> AwaitListen"
  shows "stop_inv cfg throws (stop_failed e s)"
  using assms unfolding stop_inv_def bus_hooked_def by simp

lemma stop_call_stop:
  assumes "stop_inv cfg throws s" "life_inv s"
  shows "stop_inv cfg throws (snd (stop_call cfg s))"
proof (cases "sv_state s = RUNNING")
  case True
  then have b: "bus_hooked cfg s" "tm_server (sv_tm s) \<noteq> None" "sv_stop s = StopIdle" "sv_start s \<noteq> AwaitListen"
    using assms by (auto simp: stop_inv_def life_inv_def)
  have "stop_inv cfg throws (emit EvStopping (s\<lparr>sv_state := STOPPING\<rparr>))"
    by (rule stop_inv_keep [OF assms(1)]) simp_all
  moreover have "stop_inv cfg throws (removeAutoShutdown (emit EvStopping (s\<lparr>sv_state := STOPPING\<rparr>)\<lparr>sv_abort := True\<rparr>)
      \<lparr>sv_stop := AwaitRace\<rparr>)"
    using assms(1) b by (simp add: stop_inv_def removeAutoShutdown_def bus_hooked_def)
  ultimately show ?thesis using True b by (auto simp: stop_call_def Let_def removeAutoShutdown_def)
qed (use assms in \<open>simp add: stop_call_def\<close>)

lemma onShutdown_stop:
  assumes "stop_inv cfg throws s" "life_inv s"
  shows "stop_inv cfg throws (snd (onShutdown args s))"
proof -
  obtain r m where a: "addHook args (sv_sm s) = (r, m)" by (cases "addHook args (sv_sm s)")
  show ?thesis
  proof (cases "sv_state s = STOPPED")
    case False
    have "dep_acyclic m" using addHook_acyclic [OF _ a] assms(1) by (simp add: stop_inv_def)
    let ?t = "s\<lparr>sv_sm := m, sv_late := sv_late s \<or> (case sv_stop s of AwaitHooks _ _ \<Rightarrow> True | _ \<Rightarrow> False)\<rparr>"
    have b: "bus_hooked cfg s \<Longrightarrow> bus_hooked cfg ?t"
      using addHook_hooks_mono [OF a] by (auto simp: bus_hooked_def)
    have n: "sv_stop s \<noteq> Stopped ex" for ex using assms(2) False unfolding life_inv_def by blast
    have "snd (onShutdown args s) = ?t" using False unfolding onShutdown_def a by simp
    moreover have "stop_inv cfg throws ?t"
    proof (rule stop_invI, goal_cases)
      case 1
      show ?case using \<open>dep_acyclic m\<close> by simp
    next
      case 2
      show ?case using stop_invD(2) [OF assms(1)] by simp
    next
      case 3
      then show ?case using stop_invD(3) [OF assms(1)] b by simp
    next
      case 4
      then show ?case using stop_invD(4) [OF assms(1)] b by simp
    next
      case 5
      then show ?case using stop_invD(5) [OF assms(1)] b by simp
    next
      case (6 ks ex)
      then show ?case by simp
    next
      case (7 ex)
      then show ?case using n by simp
    qed
    ultimately show ?thesis by simp
  qed (use assms(1) in \<open>simp add: onShutdown_def\<close>)
qed

lemma start_call_stop:
  assumes "stop_inv cfg throws s" "life_inv s"
  shows "stop_inv cfg throws (snd (start_call cfg s))"
proof -
  have k: "stop_inv cfg throws (emit EvStart (s\<lparr>sv_state := STARTING\<rparr>))"
    "stop_inv cfg throws (emit EvStart (s\<lparr>sv_state := STARTING\<rparr>)\<lparr>sv_start := StartRejected e\<rparr>)" for e
    by (rule stop_inv_keep [OF assms(1)]; simp)+
  show ?thesis
  proof (cases "sv_state s = CREATED")
    case True
    then have "sv_stop s = StopIdle" "sv_start s = StartIdle" using assms(2) by (simp_all add: life_inv_def)
    then have "stop_inv cfg throws (start_body cfg (emit EvStart (s\<lparr>sv_state := STARTING\<rparr>)))"
      by (intro start_body_stop [OF k(1)]) simp_all
    then show ?thesis using True k(2) by (simp add: start_call_def Let_def)
  qed (use assms(1) in \<open>simp add: start_call_def\<close>)
qed

lemma bus_settled_stop:
  assumes "stop_inv cfg throws s" "life_inv s" "sv_start s = AwaitBus"
  shows "stop_inv cfg throws (bus_settled cfg err s)"
proof -
  have st: "sv_stop s = StopIdle" "sv_state s \<noteq> RUNNING" using assms(2) assms(3) by (simp_all add: life_inv_def)
  have ac: "dep_acyclic (sv_sm s)" using assms(1) by (simp add: stop_inv_def)
  obtain r m where a: "addHook (HookNamed ''eventbus'' BusStopHook) (sv_sm s) = (r, m)"
    by (cases "addHook (HookNamed ''eventbus'' BusStopHook) (sv_sm s)")
  have r: "r = Inr ()" using bus_addHook_ok [OF ac, of "''eventbus''" BusStopHook] a by simp
  let ?s = "s\<lparr>sv_bus := BusStarted, sv_sm := m\<rparr>"
  have "dep_acyclic m" by (rule addHook_acyclic [OF ac a])
  then have "stop_inv cfg throws ?s" using assms(1) st assms(3) by (simp add: stop_inv_def)
  moreover have "bus_hooked cfg ?s" using bus_addHook_registered a r by (auto simp: bus_hooked_def)
  ultimately have "stop_inv cfg throws (listen_call cfg ?s)" using st by (intro listen_call_stop) simp_all
  then show ?thesis using start_catch_stop [OF assms(1)] a r
    by (simp add: bus_settled_def split: option.split)
qed

lemma listen_settled_stop:
  assumes "stop_inv cfg throws s" "life_inv s" "sv_start s = AwaitListen"
  shows "stop_inv cfg throws (listen_settled cfg err s)"
proof -
  have st: "sv_stop s = StopIdle" using assms(2) assms(3) by (simp add: life_inv_def)
  let ?s = "emit EvReady (setupAutoShutdown cfg (s\<lparr>sv_tm := tm_listen_done (sv_tm s), sv_state := RUNNING\<rparr>))"
  have b: "bus_hooked cfg s" "tm_server (sv_tm s) \<noteq> None" using assms(1) assms(3) by (simp_all add: stop_inv_def)
  have "stop_inv cfg throws ?s"
    using assms(1) st b by (simp add: stop_inv_def setupAutoShutdown_def bus_hooked_def tm_listen_done_def)
  moreover have "stop_inv cfg throws (?s\<lparr>sv_start := Started\<rparr>)"
    using calculation by (rule stop_inv_keep) simp_all
  ultimately show ?thesis using assms(1)
    by (simp add: listen_settled_def Let_def start_catch_stop split: option.split)
qed

lemma race_settled_stop:
  assumes "stop_inv cfg throws s" "life_inv s" "sv_stop s = AwaitRace" "executeAll_start throws (sv_sm s) = Some ex"
  shows "stop_inv cfg throws (race_settled cfg r ex s)"
proof -
  have n: "sv_start s \<noteq> AwaitListen" using assms(2) assms(3) by (auto simp: life_inv_def)
  have x: "exec_reach throws (sv_sm s) ex" by (rule exec_reach_init [OF assms(4)])
  show ?thesis
  proof (cases r)
    case (CloseRejected e)
    then show ?thesis using stop_failed_stop [OF assms(1) _ n] assms(3) by (simp add: race_settled_def)
  qed (use assms(1) n x assms(3) in
      \<open>auto simp: race_settled_def stop_inv_def bus_hooked_def destroyAllSessions_def\<close>)
qed

lemma hooks_settled_stop:
  assumes "stop_inv cfg throws s" "life_inv s" "sv_stop s = AwaitHooks ks ex" "\<forall>k \<in> set ks. ex_phase ex k = Some Done"
  shows "stop_inv cfg throws (hooks_settled cfg ex s)"
proof -
  have n: "sv_start s \<noteq> AwaitListen" "sv_state s \<noteq> RUNNING"
    using assms(2) assms(3) by (auto simp: life_inv_def)
  have ac: "dep_acyclic (sv_sm s)" using assms(1) by (simp add: stop_inv_def)
  have h: "hooks_ended (sv_sm s) (ex_log ex) k"
    if "\<not> sv_late s" "k \<in> set (om_keys (sm_hooks (sv_sm s)))" for k
  proof -
    have r: "exec_reach throws (sv_sm s) ex" "ks = om_keys (sm_hooks (sv_sm s))"
      using assms(1) assms(3) that(1) unfolding stop_inv_def by blast+
    then have "ex_phase ex k = Some Done" using assms(4) that(2) by simp
    then show ?thesis by (rule exec_invD(3) [OF exec_reach_inv [OF r(1) ac]])
  qed
  let ?s = "emit EvStop (s\<lparr>sv_tm := dispose (sv_tm s), sv_state := STOPPED, sv_stop := Stopped ex\<rparr>)"
  have i: "stop_inv cfg throws ?s"
    using assms(1) assms(3) h n by (simp add: stop_inv_def bus_hooked_def dispose_def)
  show ?thesis using i stop_failed_stop [OF i] n
    by (simp add: hooks_settled_def stop_done_def Let_def)
qed

lemma stop_inv_step:
  assumes "server_step cfg throws s s'" "stop_inv cfg throws s" "life_inv s"
  shows "stop_inv cfg throws s'"
  using assms(1)
proof cases
  case (st_onShutdown args)
  show ?thesis unfolding st_onShutdown by (rule onShutdown_stop [OF assms(2,3)])
next
  case st_start
  show ?thesis unfolding st_start by (rule start_call_stop [OF assms(2,3)])
next
  case (st_bus err)
  show ?thesis unfolding st_bus(1) by (rule bus_settled_stop [OF assms(2,3) st_bus(2)])
next
  case (st_listen err)
  show ?thesis unfolding st_listen(1) by (rule listen_settled_stop [OF assms(2,3) st_listen(2)])
next
  case (st_cleanup e)
  show ?thesis unfolding st_cleanup(1)
    by (rule stop_inv_keep [OF assms(2)]) (simp_all add: start_failed_def)
next
  case (st_session i)
  show ?thesis unfolding st_session(1)
    by (rule stop_inv_keep [OF assms(2)]) (use st_session(2) in \<open>simp_all add: tm_session_def\<close>)
next
  case (st_session_close i)
  show ?thesis unfolding st_session_close
    by (rule stop_inv_keep [OF assms(2)]) (simp_all add: tm_session_close_def)
next
  case st_stop
  show ?thesis unfolding st_stop by (rule stop_call_stop [OF assms(2,3)])
next
  case (st_signal sg)
  have t: "stop_inv cfg throws (snd (stop_call cfg s))" by (rule stop_call_stop [OF assms(2,3)])
  show ?thesis unfolding st_signal(1) signal_call_def
    by (simp split: prod.split sum.split)
      (auto intro!: stop_inv_keep [OF t])
next
  case (st_race ex r)
  show ?thesis unfolding st_race(1) by (rule race_settled_stop [OF assms(2,3) st_race(2,3)])
next
  case (st_hook ks ex ex')
  have "\<not> sv_late s \<longrightarrow> exec_reach throws (sv_sm s) ex' \<and> ks = om_keys (sm_hooks (sv_sm s))"
    using assms(2) st_hook(2,3) exec_reach_step unfolding stop_inv_def by blast
  then show ?thesis using assms(2) st_hook(1,2) by (simp add: stop_inv_def bus_hooked_def)
next
  case (st_hooks_ok ks ex)
  show ?thesis unfolding st_hooks_ok(1) by (rule hooks_settled_stop [OF assms(2,3) st_hooks_ok(2,3)])
next
  case (st_hooks_fail ks ex k e)
  then have "sv_start s \<noteq> AwaitListen" using assms(3) by (auto simp: life_inv_def)
  then show ?thesis using stop_failed_stop [OF assms(2)] st_hooks_fail(1,2) by simp
qed (rule stop_inv_keep [OF assms(2)]; simp add: addService_def addInterceptor_def addProtocol_def)+

lemma server_reach_stop: "server_reach cfg throws s \<Longrightarrow> stop_inv cfg throws s"
proof (induction rule: server_reach.induct)
  case (sr_new services interceptors protocols)
  show ?case by (rule stop_invI) (simp_all add: srv_new_def)
next
  case (sr_step s s')
  then show ?case using stop_inv_step server_reach_life by blast
qed

section \<open>Properties\<close>

text \<open>C7. Whatever the application and the environment do, a server's state only moves forward
  (created, starting, running, stopping, stopped), and apart from errors it emits a prefix of start,
  ready, stopping, stop, each at most once; start throws and changes nothing unless the server was
  just created; and once it has started or its routes are built, the services and the built routes
  are frozen, the routes being those of exactly the services, protocols and interceptors it holds.\<close>
theorem server_lifecycle_is_linear:
  assumes "server_reach cfg throws s" "server_step cfg throws s s'"
  shows "prefix (life s) [EvStart, EvReady, EvStopping, EvStop] \<and>
    rank (sv_state s) \<le> rank (sv_state s') \<and>
    (sv_state s \<noteq> CREATED \<longrightarrow> start_call cfg s = (Inl (plain_error ''Cannot start server''), s)) \<and>
    (frozen s \<longrightarrow> sv_services s' = sv_services s) \<and>
    (sv_built s \<noteq> None \<longrightarrow> sv_built s' = sv_built s \<and> sv_built s = Some (buildRoutes (sv_services s)
      (sv_protocols s) (sv_interceptors s) (cf_enabled cfg)))"
proof -
  have l: "life_inv s" by (rule server_reach_life [OF assms(1)])
  have c: "conf_inv cfg s" by (rule server_reach_conf [OF assms(1)])
  have "prefix (life s) [EvStart, EvReady, EvStopping, EvStop]"
    using l by (cases "sv_state s") (auto simp: life_inv_def)
  then show ?thesis
    using life_inv_step [OF assms(2) l] conf_inv_step [OF assms(2) c] c
    by (auto simp: start_call_def conf_inv_def frozen_def)
qed


text \<open>A listener of the ready event that throws leaves a server that reports itself stopped while
  its socket is still listening, and that can no longer be stopped.\<close>
theorem ready_listener_leaves_socket_open:
  "\<exists>(s :: (unit, unit, unit, unit, unit) srv) cfg throws. server_reach cfg throws s \<and>
    sv_state s = STOPPED \<and> tm_listening (sv_tm s) \<and> tm_server (sv_tm s) \<noteq> None \<and>
    fst (stop_call cfg s) \<noteq> Inr () \<and> snd (stop_call cfg s) = s"
proof -
  define cfg :: "unit server_config" where "cfg = \<lparr>cf_bus = False, cf_tls = False, cf_certs_ok = True,
    cf_allowHTTP1 = None, cf_validation = None, cf_catalog = None, cf_enabled = None, cf_files = (\<lambda>_. []),
    cf_auto = False, cf_signals = None, cf_force = None, cf_throws = (\<lambda>e. e = EvReady)\<rparr>"
  define s0 :: "(unit, unit, unit, unit, unit) srv" where "s0 = srv_new [] [] []"
  define s1 where "s1 = snd (start_call cfg s0)"
  define s2 where "s2 = listen_settled cfg None s1"
  have s1: "sv_start s1 = AwaitListen" "tm_server (sv_tm s1) \<noteq> None"
    by (simp_all add: s1_def s0_def cfg_def server_ops srv_new_def validateCatalogConfig_def buildRoutes_def
        routes_callback_def ro_empty_def validateTransport_def collectStreamingMethods_def tm_create_def)
  have "server_reach cfg (\<lambda>_. False) s1"
    unfolding s1_def s0_def by (rule sr_step [OF sr_new st_start])
  then have "server_reach cfg (\<lambda>_. False) s2"
    unfolding s2_def by (rule sr_step) (rule st_listen [OF s1(1)])
  moreover have "sv_state s2 = STOPPED \<and> tm_listening (sv_tm s2) \<and> tm_server (sv_tm s2) \<noteq> None"
    using s1 by (simp add: s2_def listen_settled_def cfg_def setupAutoShutdown_def start_catch_def
        start_failed_def tm_listen_done_def)
  ultimately show ?thesis
    by (intro exI [of _ s2] exI [of _ cfg] exI [of _ "\<lambda>_. False"]) (simp add: stop_call_def)
qed

section \<open>Witnesses\<close>

definition plain_config :: "unit server_config" where
  "plain_config = \<lparr>cf_bus = False, cf_tls = False, cf_certs_ok = True, cf_allowHTTP1 = None,
    cf_validation = None, cf_catalog = None, cf_enabled = None, cf_files = (\<lambda>_. []), cf_auto = False,
    cf_signals = None, cf_force = None, cf_throws = (\<lambda>_. False)\<rparr>"

definition fresh_server :: "(unit, unit, unit, unit, unit) srv" where
  "fresh_server = srv_new [] [] []"

lemma server_lifecycle_is_linear_witness:
  "rank (sv_state fresh_server) \<le> rank (sv_state (snd (start_call plain_config fresh_server)))"
proof -
  have "server_reach plain_config (\<lambda>_ :: unit hook. False) fresh_server"
    unfolding fresh_server_def by (rule sr_new)
  from server_lifecycle_is_linear [OF this st_start] show ?thesis by blast
qed


end
