(* ===== verification/Dispatcher.thy ===== *)
theory Dispatcher
  imports Prelude Connect Descriptors
begin

text \<open>
  Cross-service calls: packages/core/src/catalogDispatcher.ts, packages/core/src/catalogClient.ts,
  packages/core/src/remoteResolver.ts, and the remote-transport cache and client() of
  packages/core/src/Server.ts.

  A transport is an abstract value; what it does with a call is third-party code and an argument
  (unary, and stream_messages for the response messages of a streaming call). A resolver is a
  computation over an arbitrary world, so that not running it again is visible as an unchanged
  world. The dispatcher's own state is the cache of remote transports. A catalog is a JavaScript
  object, so looking a name up also finds what Object.prototype holds; object_prototype lists it.
\<close>

section \<open>Method keys and lookup\<close>

definition js_lastIndexOf :: "char \<Rightarrow> string \<Rightarrow> nat option" where
  "js_lastIndexOf c s =
    (let t = takeWhile (\<lambda>x. x \<noteq> c) (rev s) in if length t = length s then None else Some (length s - Suc (length t)))"

definition splitMethodKey :: "string \<Rightarrow> (string \<times> string) option" where
  "splitMethodKey key = (case js_lastIndexOf CHR ''/'' key of
      None \<Rightarrow> None
    | Some slash \<Rightarrow> if slash = 0 \<or> slash = length key - 1 then None
        else Some (take slash key, drop (Suc slash) key))"

definition object_prototype :: "string list" where
  "object_prototype = [''constructor'', ''__proto__'', ''hasOwnProperty'', ''isPrototypeOf'',
    ''propertyIsEnumerable'', ''toLocaleString'', ''toString'', ''valueOf'', ''__defineGetter__'',
    ''__defineSetter__'', ''__lookupGetter__'', ''__lookupSetter__'']"

definition lookupCatalogMethod :: "catalog option \<Rightarrow> string \<Rightarrow> string \<Rightarrow> jserr + (string \<times> desc_method)" where
  "lookupCatalogMethod catalog key caller = (case splitMethodKey key of
      None \<Rightarrow> Inl (connect_error (caller @ '': malformed method key '' @ key) code_Unimplemented)
    | Some (typeName, methodName) \<Rightarrow>
       (case catalog of
          None \<Rightarrow> Inl (connect_error (caller @ '': no catalog is configured'') code_FailedPrecondition)
        | Some c \<Rightarrow>
           (case om_get c typeName of
              None \<Rightarrow>
                if typeName \<in> set object_prototype
                then Inl (type_error ''Cannot read properties of undefined'')
                else Inl (connect_error (caller @ '': unknown service '' @ typeName) code_Unimplemented)
            | Some d \<Rightarrow>
               (case find (\<lambda>m. dm_name m = methodName) (ds_methods d) of
                  None \<Rightarrow> Inl (connect_error (caller @ '': '' @ typeName @ '' has no method '' @ methodName) code_Unimplemented)
                | Some m \<Rightarrow> Inr (typeName, m)))))"

lemma takeWhile_rev_split:
  "c \<notin> set m \<Longrightarrow> takeWhile (\<lambda>x. x \<noteq> c) (rev (t @ c # m)) = rev m"
  using takeWhile_append2 [of "rev m" "\<lambda>x. x \<noteq> c" "c # rev t"] by auto

lemma js_lastIndexOf_app: "c \<notin> set m \<Longrightarrow> js_lastIndexOf c (t @ c # m) = Some (length t)"
  unfolding js_lastIndexOf_def Let_def takeWhile_rev_split by simp

lemma js_lastIndexOf_None: "js_lastIndexOf c s = None \<longleftrightarrow> c \<notin> set s"
proof (cases "c \<in> set s")
  case True
  then obtain t m where "s = t @ c # m" "c \<notin> set m" by (meson split_list_last)
  then show ?thesis using js_lastIndexOf_app [of c m t] by auto
next
  case False
  then have "takeWhile (\<lambda>x. x \<noteq> c) (rev s) = rev s" by (auto simp: takeWhile_eq_all_conv)
  then have "length (takeWhile (\<lambda>x. x \<noteq> c) (rev s)) = length s" by (metis length_rev)
  then have "js_lastIndexOf c s = None" unfolding js_lastIndexOf_def Let_def by simp
  then show ?thesis using False by simp
qed

lemma splitMethodKey_iff:
  "splitMethodKey key = Some (t, m) \<longleftrightarrow>
    key = t @ CHR ''/'' # m \<and> t \<noteq> [] \<and> m \<noteq> [] \<and> CHR ''/'' \<notin> set m"
proof (cases "CHR ''/'' \<in> set key")
  case True
  then obtain a b where ab: "key = a @ CHR ''/'' # b" "CHR ''/'' \<notin> set b" by (meson split_list_last)
  have "splitMethodKey key = (if a = [] \<or> b = [] then None else Some (a, b))"
    using ab by (auto simp: splitMethodKey_def js_lastIndexOf_app)
  moreover have "key = t @ CHR ''/'' # m \<and> CHR ''/'' \<notin> set m \<longleftrightarrow> t = a \<and> m = b"
    using ab by (auto simp: append_eq_append_conv2 append_eq_Cons_conv Cons_eq_append_conv)
  ultimately show ?thesis by auto
next
  case False
  then show ?thesis by (auto simp: splitMethodKey_def js_lastIndexOf_None [THEN iffD2])
qed

section \<open>Frames\<close>

record 'sg handler_context =
  hc_signal :: 'sg
  hc_timeoutMs :: "int option"
  hc_requestHeader :: headers
  hc_values :: nat

record 'sg call_options =
  co_signal :: "'sg option"
  co_timeoutMs :: "int option"
  co_headers :: "headers option"
  co_endpoint :: "string option"

record 'sg call_frame =
  fr_signal :: "'sg option"
  fr_timeoutMs :: "int option"
  fr_headers :: "headers option"
  fr_contextValues :: "nat option"

definition no_options :: "'sg call_options" where
  "no_options = \<lparr>co_signal = None, co_timeoutMs = None, co_headers = None, co_endpoint = None\<rparr>"

definition clampTimeout :: "int option \<Rightarrow> int option \<Rightarrow> int option" where
  "clampTimeout caller remaining = (case caller of
      None \<Rightarrow> remaining
    | Some c \<Rightarrow> (case remaining of None \<Rightarrow> Some c | Some r \<Rightarrow> Some (min c r)))"

fun copy_allowed :: "headers \<Rightarrow> string list \<Rightarrow> headers \<Rightarrow> headers" where
  "copy_allowed inbound [] out = out"
| "copy_allowed inbound (n # ns) out =
    copy_allowed inbound ns (case hd_get inbound n of None \<Rightarrow> out | Some v \<Rightarrow> hd_put n v out)"

fun copy_all :: "headers \<Rightarrow> headers \<Rightarrow> headers" where
  "copy_all [] out = out"
| "copy_all ((k, v) # kvs) out = copy_all kvs (hd_put k v out)"

definition buildHeaders :: "string list \<Rightarrow> 'sg handler_context \<Rightarrow> 'sg call_options \<Rightarrow> headers option" where
  "buildHeaders propagateHeaders hctx options =
    (let out1 = copy_allowed (hc_requestHeader hctx) propagateHeaders [];
         out2 = (case co_headers options of None \<Rightarrow> out1 | Some hs \<Rightarrow> copy_all hs out1)
     in if out2 = [] then None else Some out2)"

definition buildFrame :: "string list \<Rightarrow> 'sg handler_context \<Rightarrow> 'sg call_options \<Rightarrow> 'sg call_frame" where
  "buildFrame propagateHeaders hctx options = \<lparr>
    fr_signal = (case co_signal options of None \<Rightarrow> Some (hc_signal hctx) | Some s \<Rightarrow> Some s),
    fr_timeoutMs = clampTimeout (co_timeoutMs options) (hc_timeoutMs hctx),
    fr_headers = buildHeaders propagateHeaders hctx options,
    fr_contextValues = Some (hc_values hctx)\<rparr>"

definition clientFrame :: "'sg call_options \<Rightarrow> 'sg call_frame" where
  "clientFrame options = \<lparr>fr_signal = co_signal options, fr_timeoutMs = co_timeoutMs options,
    fr_headers = co_headers options, fr_contextValues = None\<rparr>"

definition headers_ok :: "headers \<Rightarrow> bool" where
  "headers_ok h \<longleftrightarrow> om_ok h \<and> list_all (\<lambda>(k, v). js_lower k = k) h"

lemma copy_allowed_get:
  "hd_get (copy_allowed inbound ns out) n =
    (if js_lower n \<in> js_lower ` set ns \<and> hd_get inbound n \<noteq> None then hd_get inbound n else hd_get out n)"
proof (induction ns arbitrary: out)
  case (Cons a ns)
  have "js_lower a = js_lower n \<Longrightarrow> hd_get inbound a = hd_get inbound n" by (simp add: hd_get_def)
  then show ?case using Cons.IH by (auto split: option.splits)
qed simp

lemma copy_all_get:
  assumes "headers_ok hs"
  shows "hd_get (copy_all hs out) n = (case hd_get hs n of None \<Rightarrow> hd_get out n | Some v \<Rightarrow> Some v)"
  using assms
proof (induction hs arbitrary: out)
  case (Cons kv hs)
  obtain k v where kv: "kv = (k, v)" by (cases kv)
  have ok: "headers_ok hs" "js_lower k = k" "om_get hs k = None"
    using Cons.prems kv by (auto simp: headers_ok_def om_ok_def om_get_def map_of_eq_None_iff)
  show ?case
    using Cons.IH [OF ok(1), of "hd_put k v out"] ok(2,3) kv
    by (auto simp: hd_get_def om_get_cons hd_put_def split: option.splits)
qed simp

section \<open>Resolvers (remoteResolver.ts)\<close>

type_synonym ('w, 't) resolver = "string \<Rightarrow> string option \<Rightarrow> ('w, jserr, 't option) io"

definition singleTransportResolver :: "'t \<Rightarrow> ('w, 't) resolver" where
  "singleTransportResolver t typeName endpoint = io_return (Some t)"

definition mapResolver :: "(string, 't) omap \<Rightarrow> ('w, 't) resolver" where
  "mapResolver m typeName endpoint = io_return (om_get m typeName)"

definition strip_service :: "string \<Rightarrow> string" where
  "strip_service s = (if suffix ''Service'' s then take (length s - 7) s else s)"

definition shortNameOf :: "string \<Rightarrow> string" where
  "shortNameOf typeName = js_lower (strip_service (last (js_split CHR ''.'' typeName)))"

fun replace_all :: "nat \<Rightarrow> string \<Rightarrow> string \<Rightarrow> string \<Rightarrow> string" where
  "replace_all 0 pat sub s = s"
| "replace_all (Suc fuel) pat sub s = (case s of
      [] \<Rightarrow> []
    | c # cs \<Rightarrow> if prefix pat s \<and> pat \<noteq> [] then sub @ replace_all fuel pat sub (drop (length pat) s)
        else c # replace_all fuel pat sub cs)"

definition dnsResolver :: "string \<Rightarrow> (string \<Rightarrow> 't) \<Rightarrow> ('w, 't) resolver" where
  "dnsResolver template create typeName endpoint =
    (let shortName = shortNameOf typeName;
         u1 = replace_all (length template) ''{shortName}'' shortName template
     in io_return (Some (create (replace_all (length u1) ''{name}'' shortName u1))))"

definition perServiceEnvResolver :: "(string, string) omap \<Rightarrow> (string \<Rightarrow> string option) \<Rightarrow> (string \<Rightarrow> 't) \<Rightarrow> ('w, 't) resolver" where
  "perServiceEnvResolver m env create typeName endpoint = (case om_get m typeName of
      None \<Rightarrow> io_return None
    | Some envVar \<Rightarrow> if envVar = [] then io_return None
       else (case env envVar of
          None \<Rightarrow> io_return None
        | Some v \<Rightarrow> if js_trim v = [] then io_return None else io_return (Some (create (js_trim v)))))"

section \<open>Transports for a route\<close>

definition route_key :: "string \<Rightarrow> string option \<Rightarrow> string" where
  "route_key typeName endpoint = typeName @ '' '' @ (case endpoint of None \<Rightarrow> [] | Some e \<Rightarrow> e)"

type_synonym ('w, 't) cached = "(string, 't) omap \<times> 'w"

definition resolveRemoteTransport ::
  "('w, 't) resolver option \<Rightarrow> string \<Rightarrow> string option \<Rightarrow> (('w, 't) cached, jserr, 't option) io" where
  "resolveRemoteTransport resolver typeName endpoint s =
    (let key = route_key typeName endpoint in
     case om_get (fst s) key of
       Some t \<Rightarrow> (Inr (Some t), s)
     | None \<Rightarrow>
        (case resolver of
           None \<Rightarrow> (Inr None, s)
         | Some f \<Rightarrow>
            (case f typeName endpoint (snd s) of
               (Inl e, w) \<Rightarrow> (Inl e, (fst s, w))
             | (Inr None, w) \<Rightarrow> (Inr None, (fst s, w))
             | (Inr (Some t), w) \<Rightarrow> (Inr (Some t), (om_set key t (fst s), w)))))"

datatype 't target = LocalTarget | RemoteTarget 't

definition no_route :: "string \<Rightarrow> string \<Rightarrow> string option \<Rightarrow> jserr" where
  "no_route caller typeName endpoint = connect_error (caller @ '': no route for '' @ typeName @
    (case endpoint of None \<Rightarrow> [] | Some e \<Rightarrow> '' (endpoint '' @ e @ '')'')) code_Unavailable"

definition resolver_threw :: "string \<Rightarrow> string \<Rightarrow> jserr" where
  "resolver_threw caller typeName =
    connect_error (caller @ '': the remoteResolver threw while resolving '' @ typeName) code_Internal"

definition resolveTransport :: "(string \<Rightarrow> bool) \<Rightarrow> ('w, 't) resolver option \<Rightarrow> string \<Rightarrow> string option \<Rightarrow>
    (('w, 't) cached, jserr, 't target) io" where
  "resolveTransport isLocal resolver typeName endpoint s =
    (if isLocal typeName then (Inr LocalTarget, s)
     else case resolveRemoteTransport resolver typeName endpoint s of
       (Inl e, s') \<Rightarrow> (Inl (resolver_threw ''ctx.call'' typeName), s')
     | (Inr None, s') \<Rightarrow> (Inl (no_route ''ctx.call'' typeName endpoint), s')
     | (Inr (Some t), s') \<Rightarrow> (Inr (RemoteTarget t), s'))"

definition resolveRemoteTransportOrThrow ::
  "('w, 't) resolver \<Rightarrow> string \<Rightarrow> string option \<Rightarrow> string \<Rightarrow> ('w, jserr, 't) io" where
  "resolveRemoteTransportOrThrow resolver typeName endpoint caller w = (case resolver typeName endpoint w of
      (Inl e, w') \<Rightarrow> (Inl (resolver_threw caller typeName), w')
    | (Inr None, w') \<Rightarrow> (Inl (no_route caller typeName endpoint), w')
    | (Inr (Some t), w') \<Rightarrow> (Inr t, w'))"

definition client_resolveTransport ::
  "('w, 't) resolver \<Rightarrow> string \<Rightarrow> string option \<Rightarrow> string \<Rightarrow> (('w, 't) cached, jserr, 't target) io" where
  "client_resolveTransport resolver typeName endpoint caller s =
    (let key = route_key typeName endpoint in
     case om_get (fst s) key of
       Some t \<Rightarrow> (Inr (RemoteTarget t), s)
     | None \<Rightarrow> (case resolveRemoteTransportOrThrow resolver typeName endpoint caller (snd s) of
         (Inl e, w) \<Rightarrow> (Inl e, (fst s, w))
       | (Inr t, w) \<Rightarrow> (Inr (RemoteTarget t), (om_set key t (fst s), w))))"

definition server_client :: "(string \<Rightarrow> bool) \<Rightarrow> ('w, 't) resolver option \<Rightarrow> string \<Rightarrow> string option \<Rightarrow>
    (('w, 't) cached, jserr, 't target) io" where
  "server_client hasService resolver typeName endpoint s =
    (if hasService typeName then (Inr LocalTarget, s)
     else case resolver of
       None \<Rightarrow> (Inl (catalog_config_error (''Cannot create a client for '' @ typeName)), s)
     | Some f \<Rightarrow> (case resolveRemoteTransport (Some f) typeName endpoint s of
         (Inl e, s') \<Rightarrow> (Inl e, s')
       | (Inr None, s') \<Rightarrow> (Inl (no_route ''client'' typeName (if endpoint = Some [] then None else endpoint)), s')
       | (Inr (Some t), s') \<Rightarrow> (Inr (RemoteTarget t), s')))"

section \<open>Calls and streams\<close>

definition NON_TRAILER_HEADERS :: "string list" where
  "NON_TRAILER_HEADERS = [''content-length'', ''content-type'', ''content-encoding'']"

definition sanitizeCallError :: "jserr \<Rightarrow> jserr" where
  "sanitizeCallError e =
    (if is_connect_error e then e\<lparr>je_metadata := fold hd_delete NON_TRAILER_HEADERS (je_metadata e)\<rparr> else e)"

definition on_world :: "('w, 'e, 'a) io \<Rightarrow> ('c \<times> 'w, 'e, 'a) io" where
  "on_world m s = (case m (snd s) of (r, w) \<Rightarrow> (r, (fst s, w)))"

type_synonym ('w, 't, 'sg, 'm) unary_call =
  "'t target \<Rightarrow> desc_method \<Rightarrow> 'sg call_frame \<Rightarrow> 'm \<Rightarrow> ('w, jserr, 'm) io"

type_synonym ('w, 't, 'sg, 'm) stream_call =
  "'t target \<Rightarrow> desc_method \<Rightarrow> 'sg call_frame \<Rightarrow> 'm list \<Rightarrow> ('w, jserr, 'm list) io"

definition sanitized :: "('w, jserr, 'a) io \<Rightarrow> ('w, jserr, 'a) io" where
  "sanitized m = io_catch m (\<lambda>e. io_throw (sanitizeCallError e))"

definition dispatchUnaryCall :: "('w, 't, 'sg, 'm) unary_call \<Rightarrow> 't target \<Rightarrow> desc_method \<Rightarrow> 'm \<Rightarrow>
    'sg call_frame \<Rightarrow> ('w, jserr, 'm) io" where
  "dispatchUnaryCall unary transport m request frame = sanitized (unary transport m frame request)"

record ('w, 't) dispatch_host =
  dh_catalog :: "catalog option"
  dh_propagateHeaders :: "string list"
  dh_isLocal :: "string \<Rightarrow> bool"
  dh_resolver :: "('w, 't) resolver option"

definition dispatchUnary :: "('w, 't) dispatch_host \<Rightarrow> ('w, 't, 'sg, 'm) unary_call \<Rightarrow> string \<Rightarrow> 'm \<Rightarrow>
    'sg call_options \<Rightarrow> 'sg handler_context \<Rightarrow> (('w, 't) cached, jserr, 'm) io" where
  "dispatchUnary host unary key request options hctx =
    io_bind (io_lift (lookupCatalogMethod (dh_catalog host) key ''ctx'')) (\<lambda>(typeName, m).
      if dm_kind m \<noteq> Unary
      then io_throw (connect_error (''ctx.call: '' @ key @ '' is a streaming method'') code_Unimplemented)
      else io_bind (resolveTransport (dh_isLocal host) (dh_resolver host) typeName (co_endpoint options)) (\<lambda>transport.
        on_world (dispatchUnaryCall unary transport m request (buildFrame (dh_propagateHeaders host) hctx options))))"

definition clientCall :: "catalog \<Rightarrow> ('w, 't) resolver \<Rightarrow> ('w, 't, 'sg, 'm) unary_call \<Rightarrow> string \<Rightarrow> 'm \<Rightarrow>
    'sg call_options \<Rightarrow> (('w, 't) cached, jserr, 'm) io" where
  "clientCall catalog resolver unary key request options =
    io_bind (io_lift (lookupCatalogMethod (Some catalog) key ''catalogClient.call'')) (\<lambda>(typeName, m).
      if dm_kind m \<noteq> Unary
      then io_throw (connect_error (''catalogClient.call: '' @ key @ '' is a streaming method'') code_Unimplemented)
      else io_bind (client_resolveTransport resolver typeName (co_endpoint options) ''catalogClient.call'') (\<lambda>transport.
        on_world (dispatchUnaryCall unary transport m request (clientFrame options))))"

datatype stream_handle =
    ServerStreamHandle string desc_method
  | ClientStreamHandle string desc_method
  | BidiStreamHandle string desc_method

definition makeStreamHandle :: "catalog option \<Rightarrow> string \<Rightarrow> string \<Rightarrow> jserr + stream_handle" where
  "makeStreamHandle catalog caller key = (case lookupCatalogMethod catalog key caller of
      Inl e \<Rightarrow> Inl e
    | Inr (typeName, m) \<Rightarrow> (case dm_kind m of
        ServerStreaming \<Rightarrow> Inr (ServerStreamHandle typeName m)
      | ClientStreaming \<Rightarrow> Inr (ClientStreamHandle typeName m)
      | BidiStreaming \<Rightarrow> Inr (BidiStreamHandle typeName m)
      | Unary \<Rightarrow> Inl (connect_error (caller @ '': '' @ key @ '' is a unary method'') code_Unimplemented)))"

definition streamResolver :: "('w, 't) dispatch_host \<Rightarrow> string \<Rightarrow> 'sg call_options \<Rightarrow> 'sg handler_context \<Rightarrow>
    (('w, 't) cached, jserr, 't target \<times> 'sg call_frame) io" where
  "streamResolver host typeName options hctx =
    io_bind (resolveTransport (dh_isLocal host) (dh_resolver host) typeName (co_endpoint options))
      (\<lambda>t. io_return (t, buildFrame (dh_propagateHeaders host) hctx options))"

definition openServerStream :: "('s, jserr, 't target \<times> 'sg call_frame) io \<Rightarrow>
    ('s, 't, 'sg, 'm) stream_call \<Rightarrow> desc_method \<Rightarrow> 'm \<Rightarrow> ('s, jserr, 'm list) io" where
  "openServerStream resolve stream m request =
    sanitized (io_bind resolve (\<lambda>(t, frame). stream t m frame [request]))"

definition openBidiStream :: "('s, jserr, 't target \<times> 'sg call_frame) io \<Rightarrow>
    ('s, 't, 'sg, 'm) stream_call \<Rightarrow> desc_method \<Rightarrow> 'm list \<Rightarrow> ('s, jserr, 'm list) io" where
  "openBidiStream resolve stream m inputs =
    sanitized (io_bind resolve (\<lambda>(t, frame). stream t m frame inputs))"

definition openClientStream :: "('s, jserr, 't target \<times> 'sg call_frame) io \<Rightarrow>
    ('s, jserr, jserr + ('t target \<times> 'sg call_frame)) io" where
  "openClientStream resolve s = (case resolve s of (r, s') \<Rightarrow> (Inr r, s'))"

definition closeClientStream :: "jserr + ('t target \<times> 'sg call_frame) \<Rightarrow>
    ('s, 't, 'sg, 'm) stream_call \<Rightarrow> desc_method \<Rightarrow> 'm list \<Rightarrow> ('s, jserr, 'm) io" where
  "closeClientStream resolved stream m inputs =
    sanitized (io_bind (io_lift resolved) (\<lambda>(t, frame). io_bind (stream t m frame inputs) (\<lambda>out.
      case out of [] \<Rightarrow> io_throw (connect_error (''ctx.stream: client-streaming '' @ dm_name m @ '' produced no response'') code_Internal)
      | x # _ \<Rightarrow> io_return x)))"

section \<open>The resolver runs at most once per route\<close>

fun resolve_seq :: "('w, 't) resolver \<Rightarrow> (string \<times> string option) list \<Rightarrow> ('w, 't) cached \<Rightarrow> ('w, 't) cached" where
  "resolve_seq f [] s = s"
| "resolve_seq f ((n, e) # rs) s = resolve_seq f rs (snd (resolveRemoteTransport (Some f) n e s))"

definition logging :: "((string \<times> bool) list \<Rightarrow> string \<Rightarrow> string option \<Rightarrow> jserr + 't option) \<Rightarrow>
    ((string \<times> bool) list, 't) resolver" where
  "logging g n e log = (let r = g log n e in
    (r, log @ [(route_key n e, case r of Inr (Some t) \<Rightarrow> True | _ \<Rightarrow> False)]))"

definition log_inv :: "((string \<times> bool) list, 't) cached \<Rightarrow> bool" where
  "log_inv s \<longleftrightarrow> distinct (map fst (filter snd (snd s))) \<and>
    set (map fst (filter snd (snd s))) = set (om_keys (fst s))"

lemma resolve_log_inv:
  "log_inv s \<Longrightarrow> log_inv (snd (resolveRemoteTransport (Some (logging g)) n e s))"
proof (cases "om_get (fst s) (route_key n e)")
  case None
  moreover assume "log_inv s"
  moreover have "route_key n e \<notin> set (om_keys (fst s))" using None by (simp add: om_has_keys [symmetric] om_has_def)
  ultimately show ?thesis
    by (auto simp: resolveRemoteTransport_def logging_def log_inv_def Let_def split: sum.split option.split)
      force
qed (simp add: resolveRemoteTransport_def)

lemma resolve_seq_log_inv: "log_inv s \<Longrightarrow> log_inv (resolve_seq (logging g) rs s)"
proof (induction rs arbitrary: s)
  case (Cons r rs)
  then show ?case using resolve_log_inv [of s g "fst r" "snd r"] by (cases r) (simp del: split_paired_All)
qed simp

lemma route_key_eq:
  assumes "CHR '' '' \<notin> set n" "CHR '' '' \<notin> set n'"
  shows "route_key n e = route_key n' e' \<longleftrightarrow>
    n = n' \<and> (case e of None \<Rightarrow> [] | Some x \<Rightarrow> x) = (case e' of None \<Rightarrow> [] | Some x \<Rightarrow> x)"
  using assms by (auto simp: route_key_def append_eq_append_conv2 append_eq_Cons_conv Cons_eq_append_conv)

section \<open>Properties\<close>

text \<open>A method key is resolved exactly to the catalog entry it spells: lookup succeeds with
  (type name, method) if and only if the key is type name, slash, method name with both parts
  non-empty, the catalog has the type name and its descriptor's first method of that name is the
  result. Otherwise it fails with Unimplemented or, without a catalog, FailedPrecondition; the one
  exception is a type name that every JavaScript object inherits, which raises a TypeError.\<close>
theorem lookup_finds_exactly_catalog_methods:
  "(lookupCatalogMethod (Some c) key caller = Inr (t, m) \<longleftrightarrow>
     key = t @ CHR ''/'' # dm_name m \<and> t \<noteq> [] \<and> dm_name m \<noteq> [] \<and> CHR ''/'' \<notin> set (dm_name m) \<and>
     (\<exists>d. om_get c t = Some d \<and> find (\<lambda>x. dm_name x = dm_name m) (ds_methods d) = Some m)) \<and>
   (case lookupCatalogMethod catalog key caller of
      Inr _ \<Rightarrow> catalog \<noteq> None
    | Inl e \<Rightarrow> e = type_error ''Cannot read properties of undefined''
          \<and> (\<exists>n \<in> set object_prototype. \<exists>k. key = n @ CHR ''/'' # k)
        \<or> je_code e = Some (if splitMethodKey key \<noteq> None \<and> catalog = None then code_FailedPrecondition
             else code_Unimplemented))"
proof (intro conjI)
  show "lookupCatalogMethod (Some c) key caller = Inr (t, m) \<longleftrightarrow>
     key = t @ CHR ''/'' # dm_name m \<and> t \<noteq> [] \<and> dm_name m \<noteq> [] \<and> CHR ''/'' \<notin> set (dm_name m) \<and>
     (\<exists>d. om_get c t = Some d \<and> find (\<lambda>x. dm_name x = dm_name m) (ds_methods d) = Some m)"
    (is "?L \<longleftrightarrow> ?R")
  proof
    assume ?L
    then obtain n d where s: "splitMethodKey key = Some (t, n)" and d: "om_get c t = Some d"
      "find (\<lambda>x. dm_name x = n) (ds_methods d) = Some m"
      by (auto simp: lookupCatalogMethod_def split: option.splits prod.splits if_splits)
    then have "dm_name m = n" by (auto simp: find_Some_iff)
    then show ?R using s d by (auto simp: splitMethodKey_iff)
  next
    assume ?R
    then have "splitMethodKey key = Some (t, dm_name m)" by (auto simp: splitMethodKey_iff)
    then show ?L using \<open>?R\<close> by (auto simp: lookupCatalogMethod_def)
  qed
  have k: "splitMethodKey key = Some (n, k) \<Longrightarrow> key = n @ CHR ''/'' # k" for n k
    by (simp add: splitMethodKey_iff)
  show "case lookupCatalogMethod catalog key caller of
      Inr _ \<Rightarrow> catalog \<noteq> None
    | Inl e \<Rightarrow> e = type_error ''Cannot read properties of undefined''
          \<and> (\<exists>n \<in> set object_prototype. \<exists>k. key = n @ CHR ''/'' # k)
        \<or> je_code e = Some (if splitMethodKey key \<noteq> None \<and> catalog = None then code_FailedPrecondition
             else code_Unimplemented)"
    unfolding lookupCatalogMethod_def using k by (auto split: option.splits)
qed

text \<open>The frame of a ctx.call: a header of the outgoing call is the caller's explicit value if it
  gave one, else the inbound value if the name is on the allow-list, else absent; the deadline is
  the smaller of the two given, so that a caller may shorten the inbound deadline and never extend
  it; and the signal is the caller's or the inbound one.\<close>
theorem frame_of_catalog_call:
  assumes "case co_headers options of None \<Rightarrow> True | Some hs \<Rightarrow> headers_ok hs"
  shows "(case fr_headers (buildFrame allow hctx options) of None \<Rightarrow> None | Some h \<Rightarrow> hd_get h n) =
     (case (case co_headers options of None \<Rightarrow> None | Some hs \<Rightarrow> hd_get hs n) of
        Some v \<Rightarrow> Some v
      | None \<Rightarrow> if js_lower n \<in> js_lower ` set allow then hd_get (hc_requestHeader hctx) n else None) \<and>
    (case hc_timeoutMs hctx of
       None \<Rightarrow> fr_timeoutMs (buildFrame allow hctx options) = co_timeoutMs options
     | Some r \<Rightarrow> \<exists>t. fr_timeoutMs (buildFrame allow hctx options) = Some t \<and> t \<le> r \<and>
         (case co_timeoutMs options of None \<Rightarrow> t = r | Some c \<Rightarrow> t \<le> c \<and> (t = c \<or> t = r))) \<and>
    fr_signal (buildFrame allow hctx options) =
      Some (case co_signal options of None \<Rightarrow> hc_signal hctx | Some sg \<Rightarrow> sg)"
proof (intro conjI)
  show "(case fr_headers (buildFrame allow hctx options) of None \<Rightarrow> None | Some h \<Rightarrow> hd_get h n) =
     (case (case co_headers options of None \<Rightarrow> None | Some hs \<Rightarrow> hd_get hs n) of
        Some v \<Rightarrow> Some v
      | None \<Rightarrow> if js_lower n \<in> js_lower ` set allow then hd_get (hc_requestHeader hctx) n else None)"
  proof -
    let ?out = "case co_headers options of None \<Rightarrow> copy_allowed (hc_requestHeader hctx) allow []
      | Some hs \<Rightarrow> copy_all hs (copy_allowed (hc_requestHeader hctx) allow [])"
    have "(case fr_headers (buildFrame allow hctx options) of None \<Rightarrow> None | Some h \<Rightarrow> hd_get h n) = hd_get ?out n"
      by (simp add: buildFrame_def buildHeaders_def Let_def)
    also have "\<dots> = (case (case co_headers options of None \<Rightarrow> None | Some hs \<Rightarrow> hd_get hs n) of
        Some v \<Rightarrow> Some v
      | None \<Rightarrow> if js_lower n \<in> js_lower ` set allow then hd_get (hc_requestHeader hctx) n else None)"
      using assms by (simp add: copy_all_get copy_allowed_get split: option.splits)
    finally show ?thesis .
  qed
qed (auto simp: buildFrame_def clampTimeout_def split: option.splits)

lemma frame_of_catalog_call_witness:
  "\<exists>t. fr_timeoutMs (buildFrame [''traceparent''] \<lparr>hc_signal = (0 :: nat), hc_timeoutMs = Some 50,
      hc_requestHeader = [(''traceparent'', ''00'')], hc_values = 0\<rparr>
      \<lparr>co_signal = None, co_timeoutMs = Some 90, co_headers = Some [(''x-a'', ''1'')], co_endpoint = None\<rparr>) = Some t
    \<and> t \<le> 50"
  using frame_of_catalog_call [where allow = "[''traceparent'']"
      and options = "\<lparr>co_signal = None, co_timeoutMs = Some 90, co_headers = Some [(''x-a'', ''1'')], co_endpoint = None\<rparr>"
      and hctx = "\<lparr>hc_signal = (0 :: nat), hc_timeoutMs = Some 50,
        hc_requestHeader = [(''traceparent'', ''00'')], hc_values = 0\<rparr>"]
  by (auto simp: headers_ok_def om_ok_def js_lower_def js_lower_char_def)

text \<open>However many calls are made, in whatever order and with whatever outcomes of the resolver,
  the resolver succeeds at most once per route; and two routes share a transport only if they are
  the same type name with the same endpoint (no endpoint and the empty one being the same).\<close>
theorem resolver_succeeds_once_per_route:
  assumes "CHR '' '' \<notin> set n" "CHR '' '' \<notin> set n'"
  shows "distinct (map fst (filter snd (snd (resolve_seq (logging g) rs ([], []))))) \<and>
    (route_key n e = route_key n' e' \<longleftrightarrow>
      n = n' \<and> (case e of None \<Rightarrow> [] | Some x \<Rightarrow> x) = (case e' of None \<Rightarrow> [] | Some x \<Rightarrow> x))"
proof -
  have "log_inv (([], []) :: ((string \<times> bool) list, 'a) cached)" by (simp add: log_inv_def om_keys_def)
  then show ?thesis using resolve_seq_log_inv [of _ g rs] route_key_eq [OF assms] by (simp add: log_inv_def)
qed

lemma resolver_succeeds_once_per_route_witness:
  "distinct (map fst (filter snd (snd (resolve_seq (logging (\<lambda>_ _ _. Inr (Some (0 :: nat))))
     [(''a.A'', None), (''a.A'', Some ''e''), (''a.A'', None)] ([], [])))))"
  by (rule conjunct1 [OF resolver_succeeds_once_per_route [of "''a.A''" "''b.B''"]]) simp_all



end
