(* ===== verification/StreamBridge.thy ===== *)
theory StreamBridge
  imports Prelude Connect
begin

text \<open>
  packages/core/src/streamBridge.ts: the push-to-pull queue behind client and bidirectional streams.

  The producer calls push, close and fail; the single consumer iterates. The consumer's generator
  runs from one suspension to the next: consumer_turn is one such turn, and it ends by yielding a
  value, throwing, returning, or installing a notify callback and waiting; wake runs the callback,
  after which the consumer takes another turn. The fields qs_accepted and qs_delivered record the
  history and are not part of the program's state.

  The locale fifo_channel states what a stream relies on of such a queue; it is interpreted on the
  model's operations.
\<close>

section \<open>State and operations\<close>

datatype consumer = Suspended | WaitingNotify | Woken | Returned | Threw jserr

record 'a queue_state =
  qs_buffer :: "'a list"
  qs_closed :: bool
  qs_failure :: "jserr option"
  qs_consumer :: consumer
  qs_accepted :: "'a list"
  qs_delivered :: "'a list"

definition createInputQueue :: "'a queue_state" where
  "createInputQueue = \<lparr>qs_buffer = [], qs_closed = False, qs_failure = None, qs_consumer = Suspended,
    qs_accepted = [], qs_delivered = []\<rparr>"

definition wake :: "'a queue_state \<Rightarrow> 'a queue_state" where
  "wake q = (if qs_consumer q = WaitingNotify then q\<lparr>qs_consumer := Woken\<rparr> else q)"

definition queue_push :: "'a \<Rightarrow> 'a queue_state \<Rightarrow> 'a queue_state" where
  "queue_push v q =
    (if qs_closed q \<or> qs_failure q \<noteq> None then q
     else wake (q\<lparr>qs_buffer := qs_buffer q @ [v], qs_accepted := qs_accepted q @ [v]\<rparr>))"

definition queue_close :: "'a queue_state \<Rightarrow> 'a queue_state" where
  "queue_close q = wake (q\<lparr>qs_closed := True\<rparr>)"

definition queue_fail :: "jserr \<Rightarrow> 'a queue_state \<Rightarrow> 'a queue_state" where
  "queue_fail e q = wake (q\<lparr>qs_failure := (if qs_failure q = None then Some e else qs_failure q),
    qs_closed := True\<rparr>)"

definition consumer_turn :: "'a queue_state \<Rightarrow> 'a queue_state" where
  "consumer_turn q = (case qs_buffer q of
      x # xs \<Rightarrow> q\<lparr>qs_buffer := xs, qs_delivered := qs_delivered q @ [x], qs_consumer := Suspended\<rparr>
    | [] \<Rightarrow> (case qs_failure q of
        Some e \<Rightarrow> q\<lparr>qs_consumer := Threw e\<rparr>
      | None \<Rightarrow> if qs_closed q then q\<lparr>qs_consumer := Returned\<rparr> else q\<lparr>qs_consumer := WaitingNotify\<rparr>))"

definition singleInput :: "'a \<Rightarrow> 'a list" where
  "singleInput v = [v]"

inductive queue_step :: "'a queue_state \<Rightarrow> 'a queue_state \<Rightarrow> bool" where
  q_push: "queue_step q (queue_push v q)"
| q_close: "queue_step q (queue_close q)"
| q_fail: "queue_step q (queue_fail e q)"
| q_next: "qs_consumer q = Suspended \<Longrightarrow> queue_step q (consumer_turn q)"
| q_resume: "qs_consumer q = Woken \<Longrightarrow> queue_step q (consumer_turn q)"

inductive queue_reach :: "'a queue_state \<Rightarrow> bool" where
  qr_new: "queue_reach createInputQueue"
| qr_step: "queue_reach q \<Longrightarrow> queue_step q q' \<Longrightarrow> queue_reach q'"

inductive_cases queue_stepE [elim!]: "queue_step q q'"

section \<open>The channel a stream relies on\<close>

locale fifo_channel =
  fixes contents :: "'s \<Rightarrow> 'a list"
    and sealed :: "'s \<Rightarrow> bool"
    and push :: "'a \<Rightarrow> 's \<Rightarrow> 's"
    and seal :: "'s \<Rightarrow> 's"
    and turn :: "'s \<Rightarrow> 's"
    and received :: "'s \<Rightarrow> 'a list"
  assumes push_contents: "contents (push v s) = (if sealed s then contents s else contents s @ [v])"
    and push_sealed: "sealed (push v s) = sealed s"
    and push_received: "received (push v s) = received s"
    and seal_contents: "contents (seal s) = contents s"
    and seal_sealed: "sealed (seal s)"
    and seal_received: "received (seal s) = received s"
    and turn_some: "contents s = x # xs \<Longrightarrow> contents (turn s) = xs \<and> received (turn s) = received s @ [x]"
    and turn_none: "contents s = [] \<Longrightarrow> contents (turn s) = [] \<and> received (turn s) = received s"
    and turn_sealed: "sealed (turn s) = sealed s"
begin

lemma push_all:
  "\<not> sealed s \<Longrightarrow> contents (fold push vs s) = contents s @ vs \<and> \<not> sealed (fold push vs s) \<and>
    received (fold push vs s) = received s"
  by (induction vs arbitrary: s) (auto simp: push_contents push_sealed push_received)

lemma turns_drain:
  "length (contents s) \<le> n \<Longrightarrow> contents ((turn ^^ n) s) = [] \<and> received ((turn ^^ n) s) = received s @ contents s"
proof (induction n arbitrary: s)
  case (Suc n)
  have f: "(turn ^^ Suc n) s = (turn ^^ n) (turn s)" by (simp add: funpow_swap1)
  show ?case
  proof (cases "contents s")
    case Nil
    then show ?thesis using Suc.IH [of "turn s"] turn_none [of s] f by simp
  next
    case (Cons x xs)
    then show ?thesis using Suc.IH [of "turn s"] Suc.prems turn_some [of s x xs] f by simp
  qed
qed simp

lemma send_all_receive_all:
  assumes "\<not> sealed s" "length (contents s) + length vs \<le> n"
  shows "received ((turn ^^ n) (seal (fold push vs s))) = received s @ contents s @ vs"
  using push_all [OF assms(1), of vs] turns_drain [of "seal (fold push vs s)" n] assms(2)
  by (simp add: seal_contents seal_received)

end

lemma wake_sel [simp]:
  "qs_buffer (wake q) = qs_buffer q" "qs_closed (wake q) = qs_closed q" "qs_failure (wake q) = qs_failure q"
  "qs_accepted (wake q) = qs_accepted q" "qs_delivered (wake q) = qs_delivered q"
  by (simp_all add: wake_def)

lemmas queue_ops = queue_push_def queue_close_def queue_fail_def consumer_turn_def

interpretation bridge: fifo_channel qs_buffer "\<lambda>q. qs_closed q \<or> qs_failure q \<noteq> None" queue_push queue_close
    consumer_turn qs_delivered
  by unfold_locales (auto simp: queue_ops split: list.splits option.splits)

section \<open>Invariant\<close>

definition queue_inv :: "'a queue_state \<Rightarrow> bool" where
  "queue_inv q \<longleftrightarrow> qs_accepted q = qs_delivered q @ qs_buffer q \<and>
    (qs_failure q \<noteq> None \<longrightarrow> qs_closed q) \<and>
    (qs_consumer q = WaitingNotify \<longrightarrow> qs_buffer q = [] \<and> \<not> qs_closed q) \<and>
    (qs_consumer q = Returned \<or> (\<exists>e. qs_consumer q = Threw e) \<longrightarrow> qs_buffer q = [] \<and> qs_closed q)"

lemma queue_inv_step: "queue_step q q' \<Longrightarrow> queue_inv q \<Longrightarrow> queue_inv q'"
  by (auto simp: queue_inv_def queue_ops wake_def split: list.splits option.splits if_splits)

lemma queue_reach_inv: "queue_reach q \<Longrightarrow> queue_inv q"
proof (induction rule: queue_reach.induct)
  case qr_new
  show ?case by (simp add: createInputQueue_def queue_inv_def)
next
  case (qr_step q q')
  show ?case by (rule queue_inv_step [OF qr_step.hyps(2) qr_step.IH])
qed

lemma turn_returns:
  "qs_buffer q = [] \<Longrightarrow> qs_failure q = None \<Longrightarrow> qs_closed q \<Longrightarrow> qs_consumer (consumer_turn q) = Returned"
  by (simp add: consumer_turn_def)

section \<open>Properties\<close>

text \<open>C10. Whatever the interleaving of producer and consumer, the consumer is given the accepted
  values in order, none lost and none twice; it never waits while a value, an end or a failure is
  there (no wake-up is lost); when its iteration has ended it was given every accepted value; and
  nothing is accepted after a close or a failure.\<close>
theorem queue_is_fifo_without_loss:
  assumes "queue_reach q"
  shows "qs_accepted q = qs_delivered q @ qs_buffer q \<and>
    (qs_consumer q = WaitingNotify \<longrightarrow> qs_buffer q = [] \<and> \<not> qs_closed q \<and> qs_failure q = None) \<and>
    (qs_consumer q = Returned \<or> (\<exists>e. qs_consumer q = Threw e) \<longrightarrow> qs_delivered q = qs_accepted q) \<and>
    (qs_closed q \<longrightarrow> queue_push v q = q) \<and>
    qs_closed (queue_close q) \<and> qs_closed (queue_fail e q) \<and> qs_failure (queue_fail e q) \<noteq> None"
  using queue_reach_inv [OF assms] by (auto simp: queue_inv_def queue_ops)

lemma queue_is_fifo_without_loss_witness:
  "qs_delivered (consumer_turn (queue_push (7 :: nat) (consumer_turn createInputQueue))) = [7]"
proof -
  let ?q = "consumer_turn (queue_push (7 :: nat) (consumer_turn createInputQueue))"
  have "queue_reach (consumer_turn (createInputQueue :: nat queue_state))"
    by (rule qr_step [OF qr_new q_next]) (simp add: createInputQueue_def)
  then have "queue_reach (queue_push (7 :: nat) (consumer_turn createInputQueue))" by (rule qr_step [OF _ q_push])
  then have "queue_reach ?q"
    by (rule qr_step [OF _ q_resume]) (simp add: createInputQueue_def queue_ops wake_def)
  from queue_is_fifo_without_loss [OF this]
  show ?thesis by (simp add: createInputQueue_def queue_ops wake_def)
qed


end
