(* ===== verification/Resilience.thy ===== *)
theory Resilience
  imports Prelude Connect
begin

text \<open>
  packages/interceptors/src: errorHandler.ts, circuit-breaker.ts, bulkhead.ts, timeout.ts, retry.ts,
  fallback.ts and defaults.ts.

  The policies themselves come from the cockatiel package and are arguments: a policy takes a
  computation and yields a computation, over an arbitrary world in which it keeps its own state. What
  the sources add is modelled: option validation, which errors count as failures or are retried, how
  a policy's own errors become Connect errors, and that streaming calls bypass the policy. Numeric
  options are JavaScript numbers restricted to integers, the infinities and NaN. ConnectError.from
  is an argument too; connect_from_ok is what its documentation says of it.
\<close>

section \<open>Numbers\<close>

datatype js_num = Num int | PosInf | NegInf | NaN

definition num_finite :: "js_num \<Rightarrow> bool" where
  "num_finite n \<longleftrightarrow> (case n of Num _ \<Rightarrow> True | _ \<Rightarrow> False)"

definition num_lt :: "js_num \<Rightarrow> int \<Rightarrow> bool" where
  "num_lt n k \<longleftrightarrow> (case n of Num i \<Rightarrow> i < k | NegInf \<Rightarrow> True | _ \<Rightarrow> False)"

definition num_le :: "js_num \<Rightarrow> int \<Rightarrow> bool" where
  "num_le n k \<longleftrightarrow> (case n of Num i \<Rightarrow> i \<le> k | NegInf \<Rightarrow> True | _ \<Rightarrow> False)"

section \<open>Error handler (errorHandler.ts)\<close>

record error_info =
  ei_error :: jserr
  ei_code :: int
  ei_serverDetails :: "(string \<times> string list) list option"

type_synonym connect_from = "jserr \<Rightarrow> int \<Rightarrow> jserr"

definition connect_from_ok :: "connect_from \<Rightarrow> bool" where
  "connect_from_ok from \<longleftrightarrow> (\<forall>e c. (is_connect_error e \<longrightarrow> from e c = e) \<and>
    is_connect_error (from e c) \<and> (\<not> is_connect_error e \<longrightarrow> je_client (from e c) = None))"

definition sanitized_error :: "jserr \<Rightarrow> jserr" where
  "sanitized_error e = connect_error (case je_client e of None \<Rightarrow> [] | Some m \<Rightarrow> m)
    (case je_code e of None \<Rightarrow> code_Unknown | Some c \<Rightarrow> c)"

definition handle_error :: "connect_from \<Rightarrow> (error_info \<Rightarrow> ('s, jserr, unit) io) option \<Rightarrow> jserr \<Rightarrow> ('s, jserr, 'a) io" where
  "handle_error from onError err =
    (if isSanitizableError err
     then io_bind (case onError of
            None \<Rightarrow> io_return ()
          | Some f \<Rightarrow> f \<lparr>ei_error = err, ei_code = (case je_code err of None \<Rightarrow> code_Unknown | Some c \<Rightarrow> c),
              ei_serverDetails = je_details err\<rparr>)
        (\<lambda>_. io_throw (sanitized_error err))
     else let code = (case je_code err of None \<Rightarrow> code_Internal | Some c \<Rightarrow> c); error = from err code in
       io_bind (case onError of
            None \<Rightarrow> io_return ()
          | Some f \<Rightarrow> f \<lparr>ei_error = error, ei_code = code, ei_serverDetails = None\<rparr>)
        (\<lambda>_. io_throw error))"

definition createErrorHandlerInterceptor ::
  "connect_from \<Rightarrow> (error_info \<Rightarrow> ('s, jserr, unit) io) option \<Rightarrow> ('s, 'm) interceptor" where
  "createErrorHandlerInterceptor from onError next r = io_catch (next r) (handle_error from onError)"

section \<open>Circuit breaker (circuit-breaker.ts)\<close>

definition INFRASTRUCTURE_CODES :: "int list" where
  "INFRASTRUCTURE_CODES = [code_Unknown, code_DeadlineExceeded, code_Internal, code_Unavailable,
    code_DataLoss, code_ResourceExhausted]"

definition defaultFailurePredicate :: "jserr \<Rightarrow> bool" where
  "defaultFailurePredicate e =
    (if is_connect_error e then (case je_code e of None \<Rightarrow> False | Some c \<Rightarrow> c \<in> set INFRASTRUCTURE_CODES)
     else True)"

type_synonym failure_predicate = "jserr \<Rightarrow> (jserr \<Rightarrow> bool) \<Rightarrow> jserr + bool"

definition isFailure :: "failure_predicate option \<Rightarrow> jserr \<Rightarrow> bool" where
  "isFailure failurePredicate e = (case failurePredicate of
      None \<Rightarrow> defaultFailurePredicate e
    | Some p \<Rightarrow> (case p e defaultFailurePredicate of Inl _ \<Rightarrow> True | Inr b \<Rightarrow> b))"

type_synonym ('s, 'm) policy = "('s, jserr, 'm resp) io \<Rightarrow> ('s, jserr, 'm resp) io"

definition with_policy :: "bool \<Rightarrow> ('s, 'm) policy \<Rightarrow> (jserr \<Rightarrow> jserr) \<Rightarrow> ('s, 'm) interceptor" where
  "with_policy skipStreaming execute convert next r =
    (if skipStreaming \<and> rq_stream r then next r
     else io_catch (execute (next r)) (\<lambda>e. io_throw (convert e)))"

record breaker_options =
  cb_threshold :: "js_num option"
  cb_halfOpenAfter :: "js_num option"
  cb_skipStreaming :: "bool option"
  cb_failurePredicate :: "failure_predicate option"

type_synonym ('s, 'm) breaker_lib = "(jserr \<Rightarrow> bool) \<Rightarrow> js_num \<Rightarrow> js_num \<Rightarrow> ('s, 'm) policy"

definition broken_to_unavailable :: "jserr \<Rightarrow> jserr" where
  "broken_to_unavailable e =
    (if je_class e = BrokenCircuitC then connect_error ''Circuit breaker is open'' code_Unavailable else e)"

definition createCircuitBreakerInterceptor ::
  "('s, 'm) breaker_lib \<Rightarrow> breaker_options \<Rightarrow> jserr + ('s, 'm) interceptor" where
  "createCircuitBreakerInterceptor lib options =
    (let threshold = dflt (cb_threshold options) (Num 5);
         halfOpenAfter = dflt (cb_halfOpenAfter options) (Num 30000)
     in if num_lt threshold 1 \<or> \<not> num_finite threshold
        then Inl (plain_error ''threshold must be a positive finite number'')
        else if num_lt halfOpenAfter 0 \<or> \<not> num_finite halfOpenAfter
        then Inl (plain_error ''halfOpenAfter must be a non-negative finite number'')
        else Inr (with_policy (dflt (cb_skipStreaming options) True)
          (lib (isFailure (cb_failurePredicate options)) halfOpenAfter threshold) broken_to_unavailable))"

section \<open>Bulkhead, timeout, retry, fallback\<close>

record bulkhead_options =
  bh_capacity :: "js_num option"
  bh_queueSize :: "js_num option"
  bh_skipStreaming :: "bool option"

definition rejected_to_exhausted :: "jserr \<Rightarrow> jserr" where
  "rejected_to_exhausted e =
    (if je_class e = BulkheadRejectedC then connect_error ''Bulkhead capacity exceeded'' code_ResourceExhausted else e)"

definition createBulkheadInterceptor ::
  "(js_num \<Rightarrow> js_num \<Rightarrow> ('s, 'm) policy) \<Rightarrow> bulkhead_options \<Rightarrow> jserr + ('s, 'm) interceptor" where
  "createBulkheadInterceptor lib options =
    (let capacity = dflt (bh_capacity options) (Num 10); queueSize = dflt (bh_queueSize options) (Num 10)
     in if num_lt capacity 1 \<or> \<not> num_finite capacity
        then Inl (plain_error ''capacity must be a positive finite number'')
        else if num_lt queueSize 0 \<or> \<not> num_finite queueSize
        then Inl (plain_error ''queueSize must be a non-negative finite number'')
        else Inr (with_policy (dflt (bh_skipStreaming options) True) (lib capacity queueSize) rejected_to_exhausted))"

record timeout_options =
  to_duration :: "js_num option"
  to_skipStreaming :: "bool option"

definition cancelled_to_deadline :: "jserr \<Rightarrow> jserr" where
  "cancelled_to_deadline e =
    (if je_class e = TaskCancelledC then connect_error ''Request timeout'' code_DeadlineExceeded else e)"

definition createTimeoutInterceptor ::
  "(js_num \<Rightarrow> ('s, 'm) policy) \<Rightarrow> timeout_options \<Rightarrow> jserr + ('s, 'm) interceptor" where
  "createTimeoutInterceptor lib options =
    (let duration = dflt (to_duration options) (Num 30000)
     in if num_le duration 0 \<or> \<not> num_finite duration
        then Inl (plain_error ''duration must be a positive finite number'')
        else Inr (with_policy (dflt (to_skipStreaming options) True) (lib duration) cancelled_to_deadline))"

record retry_options =
  rt_maxRetries :: "js_num option"
  rt_initialDelay :: "js_num option"
  rt_maxDelay :: "js_num option"
  rt_skipStreaming :: "bool option"
  rt_retryableCodes :: "int list option"

definition retryable :: "connect_from \<Rightarrow> int list \<Rightarrow> jserr \<Rightarrow> bool" where
  "retryable from codes e = (case je_code (from e code_Unknown) of None \<Rightarrow> False | Some c \<Rightarrow> c \<in> set codes)"

type_synonym ('s, 'm) retry_lib = "(jserr \<Rightarrow> bool) \<Rightarrow> js_num \<Rightarrow> js_num \<Rightarrow> js_num \<Rightarrow> ('s, 'm) policy"

definition createRetryInterceptor ::
  "connect_from \<Rightarrow> ('s, 'm) retry_lib \<Rightarrow> retry_options \<Rightarrow> jserr + ('s, 'm) interceptor" where
  "createRetryInterceptor from lib options =
    (let maxRetries = dflt (rt_maxRetries options) (Num 3);
         initialDelay = dflt (rt_initialDelay options) (Num 200);
         maxDelay = dflt (rt_maxDelay options) (Num 5000);
         codes = dflt (rt_retryableCodes options) [code_Unavailable, code_ResourceExhausted]
     in if num_lt maxRetries 0 \<or> \<not> num_finite maxRetries
        then Inl (plain_error ''maxRetries must be a non-negative finite number'')
        else if num_lt initialDelay 0 \<or> \<not> num_finite initialDelay
        then Inl (plain_error ''initialDelay must be a non-negative finite number'')
        else if num_lt maxDelay 0 \<or> \<not> num_finite maxDelay
        then Inl (plain_error ''maxDelay must be a non-negative finite number'')
        else Inr (with_policy (dflt (rt_skipStreaming options) True)
          (lib (retryable from codes) maxRetries initialDelay maxDelay) (\<lambda>e. e)))"

record ('s, 'm) fallback_options =
  fb_handler :: "(jserr \<Rightarrow> ('s, jserr, 'm) io) option"
  fb_skipStreaming :: "bool option"

definition createFallbackInterceptor :: "('s, 'm) fallback_options \<Rightarrow> jserr + ('s, 'm) interceptor" where
  "createFallbackInterceptor options = (case fb_handler options of
      None \<Rightarrow> Inl (plain_error ''handler must be a function'')
    | Some handler \<Rightarrow> Inr (\<lambda>next r.
        if dflt (fb_skipStreaming options) True \<and> rq_stream r then next r
        else io_catch (next r) (\<lambda>err. io_bind (handler err) (\<lambda>fallbackValue. io_return
          \<lparr>rs_stream = False, rs_service = rq_service r, rs_method = rq_method r, rs_header = rq_header r,
           rs_trailer = [], rs_message = fallbackValue\<rparr>))))"

section \<open>The default chain (defaults.ts)\<close>

datatype 'a toggle = Unset | Off | On | Options 'a

datatype chain_slot = ErrorHandlerSlot | TimeoutSlot | BulkheadSlot | BreakerSlot | RetrySlot
  | FallbackSlot | ValidationSlot | SerializerSlot

definition opt_in :: "'a toggle \<Rightarrow> 'a \<Rightarrow> 'a option" where
  "opt_in t d = (case t of On \<Rightarrow> Some d | Options opts \<Rightarrow> Some opts | _ \<Rightarrow> None)"

definition opt_out :: "'a toggle \<Rightarrow> 'a \<Rightarrow> 'a option" where
  "opt_out t d = (case t of Off \<Rightarrow> None | Options opts \<Rightarrow> Some opts | _ \<Rightarrow> Some d)"

record ('s, 'm) default_options =
  do_errorHandler :: "(error_info \<Rightarrow> ('s, jserr, unit) io) option toggle"
  do_timeout :: "timeout_options toggle"
  do_bulkhead :: "bulkhead_options toggle"
  do_circuitBreaker :: "breaker_options toggle"
  do_retry :: "retry_options toggle"
  do_fallback :: "('s, 'm) fallback_options toggle"
  do_validation :: "unit toggle"
  do_serializer :: "unit toggle"

record ('s, 'm) chain_libs =
  lib_from :: connect_from
  lib_timeout :: "js_num \<Rightarrow> ('s, 'm) policy"
  lib_bulkhead :: "js_num \<Rightarrow> js_num \<Rightarrow> ('s, 'm) policy"
  lib_breaker :: "('s, 'm) breaker_lib"
  lib_retry :: "('s, 'm) retry_lib"
  lib_validate :: "('s, 'm) interceptor"
  lib_serializer :: "('s, 'm) interceptor"

type_synonym ('s, 'm) built_chain = "jserr + (chain_slot \<times> ('s, 'm) interceptor) list"

definition push_slot :: "chain_slot \<Rightarrow> (jserr + ('s, 'm) interceptor) option \<Rightarrow> ('s, 'm) built_chain \<Rightarrow> ('s, 'm) built_chain" where
  "push_slot slot made acc = (case acc of Inl e \<Rightarrow> Inl e | Inr is \<Rightarrow>
    (case made of None \<Rightarrow> Inr is | Some (Inl e) \<Rightarrow> Inl e | Some (Inr i) \<Rightarrow> Inr (is @ [(slot, i)])))"

definition no_timeout_options :: timeout_options where
  "no_timeout_options = \<lparr>to_duration = None, to_skipStreaming = None\<rparr>"

definition no_bulkhead_options :: bulkhead_options where
  "no_bulkhead_options = \<lparr>bh_capacity = None, bh_queueSize = None, bh_skipStreaming = None\<rparr>"

definition no_breaker_options :: breaker_options where
  "no_breaker_options = \<lparr>cb_threshold = None, cb_halfOpenAfter = None, cb_skipStreaming = None,
    cb_failurePredicate = None\<rparr>"

definition no_retry_options :: retry_options where
  "no_retry_options = \<lparr>rt_maxRetries = None, rt_initialDelay = None, rt_maxDelay = None,
    rt_skipStreaming = None, rt_retryableCodes = None\<rparr>"

definition createDefaultInterceptors :: "('s, 'm) chain_libs \<Rightarrow> ('s, 'm) default_options \<Rightarrow> ('s, 'm) built_chain" where
  "createDefaultInterceptors lib options =
    (let c1 = push_slot ErrorHandlerSlot (map_option (\<lambda>cb. Inr (createErrorHandlerInterceptor (lib_from lib) cb))
           (opt_out (do_errorHandler options) None)) (Inr []);
         c2 = push_slot TimeoutSlot (map_option (createTimeoutInterceptor (lib_timeout lib))
           (opt_in (do_timeout options) no_timeout_options)) c1;
         c3 = push_slot BulkheadSlot (map_option (createBulkheadInterceptor (lib_bulkhead lib))
           (opt_in (do_bulkhead options) no_bulkhead_options)) c2;
         c4 = push_slot BreakerSlot (map_option (createCircuitBreakerInterceptor (lib_breaker lib))
           (opt_in (do_circuitBreaker options) no_breaker_options)) c3;
         c5 = push_slot RetrySlot (map_option (createRetryInterceptor (lib_from lib) (lib_retry lib))
           (opt_in (do_retry options) no_retry_options)) c4;
         c6 = push_slot FallbackSlot (case do_fallback options of
             Options opts \<Rightarrow> Some (createFallbackInterceptor opts) | _ \<Rightarrow> None) c5;
         c7 = push_slot ValidationSlot (if do_validation options = Off then None else Some (Inr (lib_validate lib))) c6
     in push_slot SerializerSlot (map_option (\<lambda>_. Inr (lib_serializer lib)) (opt_in (do_serializer options) ())) c7)"

section \<open>Policy interceptors share one contract\<close>

text \<open>
  What an interceptor built on a policy owes its callers: streaming calls may bypass it, the
  policy's own error class never leaves it, and every other outcome is the policy's.
\<close>
locale policy_wrapper =
  fixes wrap :: "bool \<Rightarrow> ('s, 'm) policy \<Rightarrow> (jserr \<Rightarrow> jserr) \<Rightarrow> ('s, 'm) interceptor"
    and own :: err_class
    and convert :: "jserr \<Rightarrow> jserr"
  assumes bypass: "skip \<and> rq_stream r \<Longrightarrow> wrap skip execute convert next r = next r"
    and outcome: "\<not> (skip \<and> rq_stream r) \<Longrightarrow> wrap skip execute convert next r s =
      (case execute (next r) s of (Inl e, t) \<Rightarrow> (Inl (convert e), t) | (Inr x, t) \<Rightarrow> (Inr x, t))"
    and convert_own: "je_class e = own \<Longrightarrow> is_connect_error (convert e) \<and> je_class (convert e) \<noteq> own"
    and convert_other: "je_class e \<noteq> own \<Longrightarrow> convert e = e"
begin

lemma own_error_never_leaves:
  assumes "\<not> (skip \<and> rq_stream r)" "wrap skip execute convert next r s = (Inl e, t)"
  shows "je_class e \<noteq> own"
proof -
  obtain e' where "e = convert e'"
    using assms(2) outcome [OF assms(1), of execute "next" s]
    by (auto split: prod.splits sum.splits)
  then show ?thesis by (cases "je_class e' = own") (simp_all add: convert_own convert_other)
qed

lemma other_outcomes_kept:
  assumes "\<not> (skip \<and> rq_stream r)" "execute (next r) s = (res, t)" "\<And>e. res = Inl e \<Longrightarrow> je_class e \<noteq> own"
  shows "wrap skip execute convert next r s = (res, t)"
  using assms outcome [OF assms(1), of execute "next" s] convert_other by (cases res) auto

end

lemma with_policy_outcome:
  "\<not> (skip \<and> rq_stream r) \<Longrightarrow> with_policy skip execute convert next r s =
    (case execute (next r) s of (Inl e, t) \<Rightarrow> (Inl (convert e), t) | (Inr x, t) \<Rightarrow> (Inr x, t))"
  by (auto simp: with_policy_def io_catch_def split: prod.splits sum.splits)

interpretation breaker: policy_wrapper with_policy BrokenCircuitC broken_to_unavailable
  by unfold_locales (simp_all add: with_policy_outcome, simp_all add: with_policy_def broken_to_unavailable_def)

interpretation bulkhead: policy_wrapper with_policy BulkheadRejectedC rejected_to_exhausted
  by unfold_locales (simp_all add: with_policy_outcome, simp_all add: with_policy_def rejected_to_exhausted_def)

interpretation deadline: policy_wrapper with_policy TaskCancelledC cancelled_to_deadline
  by unfold_locales (simp_all add: with_policy_outcome, simp_all add: with_policy_def cancelled_to_deadline_def)

section \<open>The order of the chain\<close>

lemma push_slot_slots:
  "push_slot slot made acc = Inr is' \<Longrightarrow>
    \<exists>is. acc = Inr is \<and> map fst is' = map fst is @ (if made = None then [] else [slot])"
  by (auto simp: push_slot_def split: sum.splits option.splits)

definition slot_enabled :: "('s, 'm) default_options \<Rightarrow> chain_slot \<Rightarrow> bool" where
  "slot_enabled options slot = (case slot of
      ErrorHandlerSlot \<Rightarrow> do_errorHandler options \<noteq> Off
    | TimeoutSlot \<Rightarrow> do_timeout options \<notin> {Unset, Off}
    | BulkheadSlot \<Rightarrow> do_bulkhead options \<notin> {Unset, Off}
    | BreakerSlot \<Rightarrow> do_circuitBreaker options \<notin> {Unset, Off}
    | RetrySlot \<Rightarrow> do_retry options \<notin> {Unset, Off}
    | FallbackSlot \<Rightarrow> do_fallback options \<notin> {Unset, Off, On}
    | ValidationSlot \<Rightarrow> do_validation options \<noteq> Off
    | SerializerSlot \<Rightarrow> do_serializer options \<notin> {Unset, Off})"

lemma opt_in_None: "opt_in t d = None \<longleftrightarrow> t \<in> {Unset, Off}"
  by (cases t) (simp_all add: opt_in_def)

lemma opt_out_None: "opt_out t d = None \<longleftrightarrow> t = Off"
  by (cases t) (simp_all add: opt_out_def)

section \<open>Properties\<close>

text \<open>The interceptors of createDefaultInterceptors come in one fixed order, error handler first
  and serializer last, and each is there exactly when it is enabled: error handler and validation
  unless switched off, fallback only with a handler, every other only when asked for.\<close>
theorem default_chain_order:
  assumes "createDefaultInterceptors lib options = Inr chain"
  shows "map fst chain = filter (slot_enabled options)
    [ErrorHandlerSlot, TimeoutSlot, BulkheadSlot, BreakerSlot, RetrySlot, FallbackSlot, ValidationSlot, SerializerSlot]"
proof -
  have f: "(case do_fallback options of Options opts \<Rightarrow> Some (createFallbackInterceptor opts) | _ \<Rightarrow> None) = None
      \<longleftrightarrow> do_fallback options \<in> {Unset, Off, On}"
    by (cases "do_fallback options") simp_all
  from assms show ?thesis
    unfolding createDefaultInterceptors_def Let_def
    apply -
    apply (drule push_slot_slots, elim exE conjE)+
    apply (simp add: opt_in_None opt_out_None f slot_enabled_def)
    done
qed

lemma sanitizable_becomes_client_error:
  assumes "\<And>f i t. onError = Some f \<Longrightarrow> \<exists>t'. f i t = (Inr (), t')" "isSanitizableError err"
    "handle_error from onError err t = (res, s')"
  shows "res = Inl (connect_error (the (je_client err)) (the (je_code err)))"
proof -
  have cb: "\<exists>t'. (case onError of None \<Rightarrow> io_return () | Some f \<Rightarrow> f i) t = (Inr (), t')" for i t
    using assms(1) by (cases onError) auto
  obtain m c where "je_client err = Some m" "je_code err = Some c" using assms(2) by (auto simp: isSanitizableError_def)
  then show ?thesis
    using assms(2,3) cb by (auto simp: handle_error_def io_bind_def sanitized_error_def split: prod.splits sum.splits)
      (metis Inl_Inr_False prod.inject)+
qed

lemma other_errors_are_wrapped:
  assumes "\<And>f i t. onError = Some f \<Longrightarrow> \<exists>t'. f i t = (Inr (), t')" "\<not> isSanitizableError err"
    "handle_error from onError err t = (res, s')"
  shows "res = Inl (from err (case je_code err of None \<Rightarrow> code_Internal | Some c \<Rightarrow> c))"
proof -
  have cb: "\<exists>t'. (case onError of None \<Rightarrow> io_return () | Some f \<Rightarrow> f i) t = (Inr (), t')" for i t
    using assms(1) by (cases onError) auto
  show ?thesis
    using assms(2,3) cb by (auto simp: handle_error_def io_bind_def Let_def split: prod.splits sum.splits)
      (metis Inl_Inr_False prod.inject)+
qed

lemma wrapped_is_clean:
  assumes "connect_from_ok from" "\<not> isSanitizableError err"
  shows "is_connect_error (from err c) \<and> \<not> isSanitizableError (from err c)"
proof (cases "is_connect_error err")
  case True
  then have "from err c = err" using assms(1) unfolding connect_from_ok_def by blast
  then show ?thesis using True assms(2) by simp
next
  case False
  then have "je_client (from err c) = None" "is_connect_error (from err c)"
    using assms(1) unfolding connect_from_ok_def by blast+
  then show ?thesis by (simp add: isSanitizableError_def)
qed


text \<open>A circuit-breaker interceptor is only created with a finite threshold of at least one and a
  finite delay that is not negative. Streaming calls bypass it by default. On every other call an
  open circuit becomes an Unavailable error and is never seen as the policy's own error, and every
  other outcome of the policy passes unchanged. The policy counts a failure exactly by the predicate,
  by default the infrastructure codes and everything that is not a ConnectError, and a predicate that
  itself throws counts as a failure.\<close>
theorem circuit_breaker_contract:
  assumes "createCircuitBreakerInterceptor lib options = Inr i"
  shows "(\<exists>k h. 1 \<le> k \<and> 0 \<le> h \<and> dflt (cb_threshold options) (Num 5) = Num k \<and>
      dflt (cb_halfOpenAfter options) (Num 30000) = Num h \<and>
      (\<forall>next r s. i next r s =
        (if dflt (cb_skipStreaming options) True \<and> rq_stream r then next r s
         else case lib (isFailure (cb_failurePredicate options)) (Num h) (Num k) (next r) s of
           (Inr x, t) \<Rightarrow> (Inr x, t)
         | (Inl e, t) \<Rightarrow> (Inl (if je_class e = BrokenCircuitC
             then connect_error ''Circuit breaker is open'' code_Unavailable else e), t)))) \<and>
    (\<not> (dflt (cb_skipStreaming options) True \<and> rq_stream r) \<longrightarrow> i next r s = (Inl e, t) \<longrightarrow>
      je_class e \<noteq> BrokenCircuitC) \<and>
    (isFailure (cb_failurePredicate options) err \<longleftrightarrow>
      (case cb_failurePredicate options of
         None \<Rightarrow> is_connect_error err \<longrightarrow> (\<exists>c \<in> {code_Unknown, code_DeadlineExceeded, code_Internal,
           code_Unavailable, code_DataLoss, code_ResourceExhausted}. je_code err = Some c)
       | Some p \<Rightarrow> p err defaultFailurePredicate \<noteq> Inr False))"
proof (intro conjI)
  let ?T = "dflt (cb_threshold options) (Num 5)" and ?H = "dflt (cb_halfOpenAfter options) (Num 30000)"
  have T: "\<not> num_lt ?T 1" "num_finite ?T" "\<not> num_lt ?H 0" "num_finite ?H"
    using assms by (auto simp: createCircuitBreakerInterceptor_def Let_def split: if_splits)
  have i: "i = with_policy (dflt (cb_skipStreaming options) True)
      (lib (isFailure (cb_failurePredicate options)) ?H ?T) broken_to_unavailable"
    using assms by (auto simp: createCircuitBreakerInterceptor_def Let_def split: if_splits)
  obtain k h where kh: "?T = Num k" "?H = Num h" using T(2,4) by (auto simp: num_finite_def split: js_num.splits)
  have "1 \<le> k" "0 \<le> h" using T(1,3) by (auto simp: num_lt_def kh)
  then show "\<exists>k h. 1 \<le> k \<and> 0 \<le> h \<and> ?T = Num k \<and> ?H = Num h \<and>
      (\<forall>next r s. i next r s =
        (if dflt (cb_skipStreaming options) True \<and> rq_stream r then next r s
         else case lib (isFailure (cb_failurePredicate options)) (Num h) (Num k) (next r) s of
           (Inr x, t) \<Rightarrow> (Inr x, t)
         | (Inl e, t) \<Rightarrow> (Inl (if je_class e = BrokenCircuitC
             then connect_error ''Circuit breaker is open'' code_Unavailable else e), t)))"
    using kh by (intro exI [of _ k] exI [of _ h])
      (auto simp: i breaker.bypass breaker.outcome broken_to_unavailable_def split: prod.split sum.split)
  show "\<not> (dflt (cb_skipStreaming options) True \<and> rq_stream r) \<longrightarrow> i next r s = (Inl e, t) \<longrightarrow>
      je_class e \<noteq> BrokenCircuitC"
    unfolding i by (intro impI) (rule breaker.own_error_never_leaves)
  show "isFailure (cb_failurePredicate options) err \<longleftrightarrow>
      (case cb_failurePredicate options of
         None \<Rightarrow> is_connect_error err \<longrightarrow> (\<exists>c \<in> {code_Unknown, code_DeadlineExceeded, code_Internal,
           code_Unavailable, code_DataLoss, code_ResourceExhausted}. je_code err = Some c)
       | Some p \<Rightarrow> p err defaultFailurePredicate \<noteq> Inr False)"
    by (auto simp: isFailure_def defaultFailurePredicate_def INFRASTRUCTURE_CODES_def split: option.splits sum.splits)
qed

section \<open>Witnesses\<close>

definition no_chain_libs :: "(unit, unit) chain_libs" where
  "no_chain_libs = \<lparr>lib_from = (\<lambda>e c. if is_connect_error e then e else connect_error (je_message e) c),
    lib_timeout = (\<lambda>_ m. m), lib_bulkhead = (\<lambda>_ _ m. m), lib_breaker = (\<lambda>_ _ _ m. m),
    lib_retry = (\<lambda>_ _ _ _ m. m), lib_validate = (\<lambda>next. next), lib_serializer = (\<lambda>next. next)\<rparr>"

definition only_retry :: "(unit, unit) default_options" where
  "only_retry = \<lparr>do_errorHandler = Unset, do_timeout = Unset, do_bulkhead = Off, do_circuitBreaker = Unset,
    do_retry = On, do_fallback = On, do_validation = Unset, do_serializer = Unset\<rparr>"

lemma default_chain_order_witness:
  "\<exists>chain. createDefaultInterceptors no_chain_libs only_retry = Inr chain \<and>
    map fst chain = [ErrorHandlerSlot, RetrySlot, ValidationSlot]"
proof -
  obtain chain where c: "createDefaultInterceptors no_chain_libs only_retry = Inr chain"
    by (simp add: createDefaultInterceptors_def only_retry_def no_chain_libs_def opt_out_def opt_in_def push_slot_def
        createRetryInterceptor_def no_retry_options_def dflt_def num_lt_def num_finite_def)
  show ?thesis using default_chain_order [OF c] c by (simp add: slot_enabled_def only_retry_def)
qed


lemma circuit_breaker_contract_witness:
  "\<exists>i :: (unit, unit) interceptor. createCircuitBreakerInterceptor (\<lambda>_ _ _ m. m) no_breaker_options = Inr i"
proof -
  obtain i :: "(unit, unit) interceptor" where i: "createCircuitBreakerInterceptor (\<lambda>_ _ _ m. m) no_breaker_options = Inr i"
    by (simp add: createCircuitBreakerInterceptor_def no_breaker_options_def dflt_def num_lt_def num_finite_def)
  have "\<exists>k. 1 \<le> k \<and> dflt (cb_threshold no_breaker_options) (Num 5) = Num k"
    using circuit_breaker_contract [OF i] by blast
  then show ?thesis using i by blast
qed

end
