(* ===== verification/MethodMatch.thy ===== *)
theory MethodMatch
  imports Prelude Connect
begin

text \<open>
  Method patterns: packages/auth/src/method-match.ts, which decides whether a method matches one of a
  list of patterns, and packages/interceptors/src/method-filter.ts, which runs the interceptors
  registered under the patterns that match. The record of patterns given to the filter is an ordered
  map; its parsed form is the record pattern_groups.
\<close>

section \<open>method-match.ts\<close>

definition full_method :: "string \<Rightarrow> string \<Rightarrow> string" where
  "full_method service method = service @ CHR ''/'' # method"

definition pattern_matches :: "string \<Rightarrow> string \<Rightarrow> string \<Rightarrow> bool" where
  "pattern_matches service method pattern \<longleftrightarrow>
    pattern = ''*'' \<or> pattern = full_method service method \<or>
    (suffix ''/*'' pattern \<and> service = take (length pattern - 2) pattern)"

fun matchesMethodPattern :: "string \<Rightarrow> string \<Rightarrow> string list \<Rightarrow> bool" where
  "matchesMethodPattern service method [] = False"
| "matchesMethodPattern service method (pattern # patterns) =
    (if pattern_matches service method pattern then True else matchesMethodPattern service method patterns)"

lemma pattern_matches_iff:
  "pattern_matches service method p \<longleftrightarrow> p \<in> {''*'', full_method service method, full_method service ''*''}"
proof -
  have "suffix ''/*'' p \<and> service = take (length p - 2) p \<longleftrightarrow> p = service @ ''/*''"
    by (auto simp: suffix_def)
  then show ?thesis by (auto simp: pattern_matches_def full_method_def)
qed

lemma matchesMethodPattern_iff:
  "matchesMethodPattern service method ps \<longleftrightarrow> (\<exists>p \<in> set ps. pattern_matches service method p)"
  by (induction ps) auto

section \<open>method-filter.ts\<close>

record ('s, 'm) pattern_groups =
  pg_global :: "('s, 'm) interceptor list"
  pg_service :: "(string, ('s, 'm) interceptor list) omap"
  pg_exact :: "(string, ('s, 'm) interceptor list) omap"

definition om_append :: "'k \<Rightarrow> 'v list \<Rightarrow> ('k, 'v list) omap \<Rightarrow> ('k, 'v list) omap" where
  "om_append k vs m = (case om_get m k of None \<Rightarrow> om_set k vs m | Some ws \<Rightarrow> om_set k (ws @ vs) m)"

fun parse_entries :: "(string \<times> ('s, 'm) interceptor list) list \<Rightarrow> ('s, 'm) pattern_groups \<Rightarrow>
    jserr + ('s, 'm) pattern_groups" where
  "parse_entries [] g = Inr g"
| "parse_entries ((pattern, is) # es) g =
    (if pattern = ''*'' then parse_entries es (g\<lparr>pg_global := pg_global g @ is\<rparr>)
     else if suffix ''/*'' pattern then
       (let serviceName = take (length pattern - 2) pattern in
        if serviceName = [] then Inl (plain_error (''Invalid method filter pattern: '' @ pattern))
        else parse_entries es (g\<lparr>pg_service := om_append serviceName is (pg_service g)\<rparr>))
     else if CHR ''/'' \<in> set pattern then
       parse_entries es (g\<lparr>pg_exact := om_append pattern is (pg_exact g)\<rparr>)
     else Inl (plain_error (''Invalid method filter pattern: '' @ pattern)))"

definition parsePatterns :: "(string \<times> ('s, 'm) interceptor list) list \<Rightarrow> jserr + ('s, 'm) pattern_groups" where
  "parsePatterns methods = parse_entries methods \<lparr>pg_global = [], pg_service = [], pg_exact = []\<rparr>"

definition matched_interceptors :: "('s, 'm) pattern_groups \<Rightarrow> string \<Rightarrow> string \<Rightarrow> ('s, 'm) interceptor list" where
  "matched_interceptors g service method =
    pg_global g @
    (case om_get (pg_service g) service of None \<Rightarrow> [] | Some is \<Rightarrow> is) @
    (case om_get (pg_exact g) (full_method service method) of None \<Rightarrow> [] | Some is \<Rightarrow> is)"

fun composeInterceptors :: "('s, 'm) interceptor list \<Rightarrow> ('s, 'm) handler \<Rightarrow> ('s, 'm) handler" where
  "composeInterceptors [] next = next"
| "composeInterceptors (i # is) next = i (composeInterceptors is next)"

definition createMethodFilterInterceptor ::
  "(string \<times> ('s, 'm) interceptor list) list \<Rightarrow> jserr + ('s, 'm) interceptor" where
  "createMethodFilterInterceptor methods = (case parsePatterns methods of
      Inl e \<Rightarrow> Inl e
    | Inr g \<Rightarrow> Inr (\<lambda>next r.
        let matched = matched_interceptors g (rq_service r) (rq_method r)
        in if matched = [] then next r else composeInterceptors matched next r))"

lemma composeInterceptors_chain: "composeInterceptors is next = run_chain is next"
  by (induction "is") auto

definition pattern_ok :: "string \<Rightarrow> bool" where
  "pattern_ok p \<longleftrightarrow> p = ''*'' \<or> (p \<noteq> ''/*'' \<and> CHR ''/'' \<in> set p)"

definition under :: "(string \<times> 'i list) list \<Rightarrow> string \<Rightarrow> 'i list" where
  "under methods p = concat (map snd (filter (\<lambda>(q, _). q = p) methods))"

lemma under_simps [simp]:
  "under [] p = []"
  "under ((q, is) # es) p = (if q = p then is @ under es p else under es p)"
  by (simp_all add: under_def)

lemma om_append_get:
  "(case om_get (om_append k vs m) k' of None \<Rightarrow> [] | Some is \<Rightarrow> is) =
    (case om_get m k' of None \<Rightarrow> [] | Some is \<Rightarrow> is) @ (if k' = k then vs else [])"
  by (auto simp: om_append_def split: option.splits)

lemma suffix_star_iff: "suffix ''/*'' p \<longleftrightarrow> p = full_method (take (length p - 2) p) ''*''"
  by (auto simp: suffix_def full_method_def)

lemma pattern_ok_cases:
  "pattern_ok p \<longleftrightarrow> p = ''*'' \<or> (suffix ''/*'' p \<and> take (length p - 2) p \<noteq> []) \<or>
    (\<not> suffix ''/*'' p \<and> CHR ''/'' \<in> set p)"
proof (cases "suffix ''/*'' p")
  case True
  then obtain z where "p = z @ ''/*''" by (auto simp: suffix_def)
  then show ?thesis by (auto simp: pattern_ok_def)
next
  case False
  moreover have "suffix ''/*'' ''/*''" by simp
  ultimately show ?thesis by (auto simp: pattern_ok_def)
qed

lemma parse_entries_ok: "(\<exists>g'. parse_entries es g = Inr g') \<longleftrightarrow> list_all (\<lambda>(p, _). pattern_ok p) es"
  by (induction es g rule: parse_entries.induct) (auto simp: pattern_ok_cases Let_def)

lemma full_method_neq:
  assumes "CHR ''/'' \<notin> set method" "method \<noteq> ''*''"
  shows "full_method service m \<noteq> ''*''" "full_method service method \<noteq> full_method service ''*''"
    "\<not> suffix ''/*'' (full_method service method)" "CHR ''/'' \<in> set (full_method service m)"
proof -
  show "\<not> suffix ''/*'' (full_method service method)"
  proof
    assume s: "suffix ''/*'' (full_method service method)"
    show False
    proof (cases "method" rule: rev_cases)
      case Nil
      then show False using s by (auto simp: full_method_def suffix_def append_eq_Cons_conv)
    next
      case (snoc ys y)
      from s obtain z where "(service @ CHR ''/'' # ys) @ [y] = (z @ [CHR ''/'']) @ [CHR ''*'']"
        by (auto simp: full_method_def suffix_def snoc)
      then have e: "service @ CHR ''/'' # ys = z @ [CHR ''/'']" "y = CHR ''*''" by (simp_all only: append1_eq_conv)
      show False
      proof (cases ys rule: rev_cases)
        case Nil
        then show False using e(2) snoc assms(2) by simp
      next
        case (snoc ws w)
        then have "w = CHR ''/''" using e(1) by (metis append1_eq_conv append_Cons append_assoc)
        then show False using snoc \<open>method = ys @ [y]\<close> assms(1) by simp
      qed
    qed
  qed
  show "full_method service m \<noteq> ''*''" by (cases service) (simp_all add: full_method_def)
  show "full_method service method \<noteq> full_method service ''*''" using assms by (simp add: full_method_def)
  show "CHR ''/'' \<in> set (full_method service m)" by (simp add: full_method_def)
qed

lemma full_method_inj:
  assumes "CHR ''/'' \<notin> set m" "CHR ''/'' \<notin> set m'"
  shows "full_method s m = full_method s' m' \<longleftrightarrow> s = s' \<and> m = m'"
proof
  have last: "js_split CHR ''/'' (rev (full_method s m)) = rev m # js_split CHR ''/'' (rev s)"
    if "CHR ''/'' \<notin> set m" for s m
    using js_split_append [of "CHR ''/''" "rev m" "rev s"] that by (simp add: full_method_def)
  assume e: "full_method s m = full_method s' m'"
  then have "m = m'" using last [OF assms(1), of s] last [OF assms(2), of s'] by simp
  then show "s = s' \<and> m = m'" using e by (simp add: full_method_def)
qed simp

lemma take_service: "take (length p - 2) p = service \<Longrightarrow> suffix ''/*'' p \<Longrightarrow> p = full_method service ''*''"
  by (simp add: suffix_star_iff)

lemma service_pattern: "suffix ''/*'' (full_method service ''*'')"
  "take (length (full_method service ''*'') - 2) (full_method service ''*'') = service"
  by (simp_all add: full_method_def suffix_def)

definition group_of :: "string \<Rightarrow> (string, 'i list) omap \<Rightarrow> 'i list" where
  "group_of k m = (case om_get m k of None \<Rightarrow> [] | Some is \<Rightarrow> is)"

lemma group_of_append: "group_of k' (om_append k vs m) = group_of k' m @ (if k' = k then vs else [])"
  unfolding group_of_def by (rule om_append_get)

lemma parse_entries_groups:
  assumes "parse_entries es g = Inr g'" "CHR ''/'' \<notin> set method" "method \<noteq> ''*''"
  shows "pg_global g' = pg_global g @ under es ''*'' \<and>
    group_of service (pg_service g') = group_of service (pg_service g) @ under es (full_method service ''*'') \<and>
    group_of (full_method service method) (pg_exact g') =
      group_of (full_method service method) (pg_exact g) @ under es (full_method service method) \<or> service = []"
  using assms
proof (induction es g rule: parse_entries.induct)
  case (2 pattern "is" es g)
  note neq = full_method_neq [OF "2.prems"(2,3)]
  note star_neq = not_sym [OF neq(1)]
  consider (star) "pattern = ''*''"
    | (service) "pattern \<noteq> ''*''" "suffix ''/*'' pattern" "take (length pattern - 2) pattern \<noteq> []"
    | (exact) "pattern \<noteq> ''*''" "\<not> suffix ''/*'' pattern" "CHR ''/'' \<in> set pattern"
    using "2.prems"(1) by (auto simp: Let_def split: if_splits)
  then show ?case
  proof cases
    case star
    show ?thesis using 2 star_neq unfolding star by simp
  next
    case service
    have p: "service = take (length pattern - 2) pattern \<longleftrightarrow> pattern = full_method service ''*''"
      using service(2) take_service service_pattern by metis
    have "pattern \<noteq> full_method service method" using neq(3) service(2) by metis
    then show ?thesis using 2 neq service p by (auto simp: group_of_append Let_def)
  next
    case exact
    then have "pattern \<noteq> full_method service ''*''" using service_pattern(1) by metis
    then show ?thesis using 2 neq exact by (auto simp: group_of_append Let_def)
  qed
qed simp

text \<open>A method filter is created exactly when every pattern is the star, or holds a slash and is
  not just slash-star. On a call it runs, in this order and each group in the order given, the
  interceptors under the star, under the service wildcard and under the exact name, then the
  continuation; they are the entries whose pattern matches in the sense of the auth package's
  matchesMethodPattern, so a call no pattern matches goes straight to the continuation.\<close>
theorem method_filter_runs_matching:
  assumes "rq_service r \<noteq> []" "CHR ''/'' \<notin> set (rq_method r)" "rq_method r \<noteq> ''*''"
  shows "case createMethodFilterInterceptor methods of
      Inl e \<Rightarrow> \<not> list_all (\<lambda>(p, _). pattern_ok p) methods
    | Inr i \<Rightarrow> list_all (\<lambda>(p, _). pattern_ok p) methods \<and>
        i next r = run_chain (under methods ''*'' @ under methods (full_method (rq_service r) ''*'')
          @ under methods (full_method (rq_service r) (rq_method r))) next r \<and>
        (\<not> matchesMethodPattern (rq_service r) (rq_method r) (map fst methods) \<longrightarrow> i next r = next r)"
proof (cases "parsePatterns methods")
  case (Inl e)
  then have "\<not> list_all (\<lambda>(p, _). pattern_ok p) methods"
    unfolding parse_entries_ok [symmetric, of _ "\<lparr>pg_global = [], pg_service = [], pg_exact = []\<rparr>"]
    by (simp add: parsePatterns_def)
  then show ?thesis using Inl by (simp add: createMethodFilterInterceptor_def)
next
  case (Inr g)
  let ?s = "rq_service r" and ?m = "rq_method r"
  let ?is = "under methods ''*'' @ under methods (full_method ?s ''*'') @ under methods (full_method ?s ?m)"
  have ok: "list_all (\<lambda>(p, _). pattern_ok p) methods"
    using Inr unfolding parse_entries_ok [symmetric, of _ "\<lparr>pg_global = [], pg_service = [], pg_exact = []\<rparr>"]
    by (simp add: parsePatterns_def)
  have m: "matched_interceptors g ?s ?m = ?is"
    using parse_entries_groups [OF Inr [unfolded parsePatterns_def] assms(2,3), of ?s] assms(1)
    by (simp add: matched_interceptors_def group_of_def)
  have none: "?is = []" if "\<not> matchesMethodPattern ?s ?m (map fst methods)"
    using that by (auto simp: matchesMethodPattern_iff pattern_matches_iff under_def filter_empty_conv)
  show ?thesis
  proof (cases "?is = []")
    case True
    then show ?thesis using Inr ok m by (simp add: createMethodFilterInterceptor_def)
  next
    case False
    then show ?thesis using Inr ok m none
      by (auto simp: createMethodFilterInterceptor_def composeInterceptors_chain Let_def)
  qed
qed

lemma method_filter_runs_matching_witness:
  "(case createMethodFilterInterceptor [(''a.A/Get'', [\<lambda>_ _. io_throw (plain_error ''denied'')])] of
      Inl e \<Rightarrow> False
    | Inr i \<Rightarrow> i (\<lambda>_ :: unit req. io_throw (plain_error ''reached''))
        \<lparr>rq_stream = False, rq_url = [], rq_service = ''a.A'', rq_method = ''Get'', rq_header = [], rq_context = None, rq_message = ()\<rparr>
        () = (Inl (plain_error ''denied''), ()))"
proof -
  let ?r = "\<lparr>rq_stream = False, rq_url = [], rq_service = ''a.A'', rq_method = ''Get'', rq_header = [], rq_context = None, rq_message = ()\<rparr>"
  let ?ms = "[(''a.A/Get'', [\<lambda>_ _. io_throw (plain_error ''denied'')])] :: (string \<times> (unit, unit) interceptor list) list"
  have p: "list_all (\<lambda>(p, _). pattern_ok p) ?ms" by (simp add: pattern_ok_def)
  show ?thesis
    using method_filter_runs_matching [of ?r ?ms "\<lambda>_. io_throw (plain_error ''reached'')"] p
    by (auto simp: full_method_def split: sum.splits)
qed

end
