(* ===== verification/Authz.thy ===== *)
theory Authz
  imports Prelude Connect MethodMatch
begin

text \<open>
  Authorization: packages/auth/src/authz-utils.ts, authz-interceptor.ts, errors.ts, proto/reader.ts and
  proto/proto-authz-interceptor.ts. The options a .proto file attaches to a service and a method are
  records (an optional proto2 field is an option value, an unset string is empty); the method
  descriptor a request carries is given by the function method_of. The WeakMap that caches the
  resolved options is an ordered map on the descriptor's identity, kept in front of the world the
  handlers change.

  A verdict table states what the proto interceptor decides; the interceptor is proved to implement
  it for every continuation.
\<close>

section \<open>authz-utils.ts and errors.ts\<close>

record requirements =
  need_roles :: "string list option"
  need_scopes :: "string list option"

definition satisfiesRequirements :: "auth_context \<Rightarrow> requirements \<Rightarrow> bool" where
  "satisfiesRequirements context requires =
    (if (case need_roles requires of None \<Rightarrow> False | Some roles \<Rightarrow> roles \<noteq> [] \<and>
          \<not> list_ex (\<lambda>role. role \<in> set (ac_roles context)) roles) then False
     else if (case need_scopes requires of None \<Rightarrow> False | Some scopes \<Rightarrow> scopes \<noteq> [] \<and>
          \<not> list_all (\<lambda>scope. scope \<in> set (ac_scopes context)) scopes) then False
     else True)"

record authz_details =
  ad_ruleName :: string
  ad_roles :: "string list option"
  ad_scopes :: "string list option"

definition serverDetails :: "authz_details \<Rightarrow> (string \<times> string list) list" where
  "serverDetails d = (''ruleName'', [ad_ruleName d]) #
    (case ad_roles d of None \<Rightarrow> [] | Some rs \<Rightarrow> [(''requiredRoles'', rs)]) @
    (case ad_scopes d of None \<Rightarrow> [] | Some ss \<Rightarrow> [(''requiredScopes'', ss)])"

definition AuthzDeniedError :: "authz_details \<Rightarrow> jserr" where
  "AuthzDeniedError d = \<lparr>je_class = AuthzDeniedC, je_message = ''Access denied by rule: '' @ ad_ruleName d,
    je_code = Some code_PermissionDenied, je_client = Some ''Access denied'',
    je_details = Some (serverDetails d), je_metadata = []\<rparr>"

section \<open>authz-interceptor.ts\<close>

datatype authz_effect = ALLOW | DENY

record authz_rule =
  ar_name :: string
  ar_methods :: "string list"
  ar_requires :: "requirements option"
  ar_effect :: authz_effect

record rule_result =
  rr_effect :: authz_effect
  rr_ruleName :: string
  rr_roles :: "string list option"
  rr_scopes :: "string list option"

fun evaluateRules :: "authz_rule list \<Rightarrow> auth_context \<Rightarrow> string \<Rightarrow> string \<Rightarrow> rule_result option" where
  "evaluateRules [] context service method = None"
| "evaluateRules (rule # rules) context service method =
    (if \<not> matchesMethodPattern service method (ar_methods rule) then evaluateRules rules context service method
     else (case ar_requires rule of
         Some requires \<Rightarrow>
           (if satisfiesRequirements context requires
            then Some \<lparr>rr_effect = ar_effect rule, rr_ruleName = ar_name rule,
              rr_roles = need_roles requires, rr_scopes = need_scopes requires\<rparr>
            else evaluateRules rules context service method)
       | None \<Rightarrow> Some \<lparr>rr_effect = ar_effect rule, rr_ruleName = ar_name rule, rr_roles = None, rr_scopes = None\<rparr>))"

type_synonym 's authorize = "auth_context \<Rightarrow> string \<Rightarrow> string \<Rightarrow> ('s, jserr, bool) io"

record 's authz_options =
  az_defaultPolicy :: "authz_effect option"
  az_rules :: "authz_rule list option"
  az_authorize :: "'s authorize option"
  az_skipMethods :: "string list option"

definition rule_denied :: "rule_result \<Rightarrow> jserr" where
  "rule_denied res = AuthzDeniedError \<lparr>ad_ruleName = rr_ruleName res, ad_roles = rr_roles res, ad_scopes = rr_scopes res\<rparr>"

definition no_authentication :: jserr where
  "no_authentication = connect_error ''Authentication required for authorization'' code_Unauthenticated"

definition ask_callback :: "'s authorize \<Rightarrow> auth_context \<Rightarrow> ('s, 'm) handler \<Rightarrow> 'm req \<Rightarrow> ('s, jserr, 'm resp) io" where
  "ask_callback authorize context next r =
    io_bind (authorize context (rq_service r) (rq_method r)) (\<lambda>allowed.
      if \<not> allowed then io_throw (connect_error ''Access denied'' code_PermissionDenied) else next r)"

definition createAuthzInterceptor :: "'s authz_options \<Rightarrow> ('s, 'm) interceptor" where
  "createAuthzInterceptor options next r =
    (let defaultPolicy = dflt (az_defaultPolicy options) DENY;
         rules = dflt (az_rules options) [];
         skipMethods = dflt (az_skipMethods options) [];
         serviceName = rq_service r; methodName = rq_method r;
         fallback = (\<lambda>context. case az_authorize options of
             Some authorize \<Rightarrow> ask_callback authorize context next r
           | None \<Rightarrow> if defaultPolicy = DENY
               then io_throw (connect_error ''Access denied by default policy'' code_PermissionDenied)
               else next r)
     in if matchesMethodPattern serviceName methodName skipMethods then next r
        else (case rq_context r of
            None \<Rightarrow> io_throw no_authentication
          | Some context \<Rightarrow>
              (if rules \<noteq> [] then
                 (case evaluateRules rules context serviceName methodName of
                    Some res \<Rightarrow> if rr_effect res = DENY then io_throw (rule_denied res) else next r
                  | None \<Rightarrow> fallback context)
               else fallback context)))"

section \<open>proto/reader.ts\<close>

record service_auth =
  sa_public :: "bool option"
  sa_internal :: "bool option"
  sa_defaultRequires :: "(string list \<times> string list) option"
  sa_defaultPolicy :: string

record method_auth =
  ma_public :: "bool option"
  ma_internal :: "bool option"
  ma_requires :: "(string list \<times> string list) option"
  ma_policy :: string

record proto_method =
  pm_id :: nat
  pm_name :: string
  pm_service_auth :: "service_auth option"
  pm_method_auth :: "method_auth option"

record proto_service =
  ps_typeName :: string
  ps_methods :: "proto_method list"

record resolved_auth =
  ra_public :: bool
  ra_internal :: bool
  ra_policy :: "authz_effect option"
  ra_requires :: "(string list \<times> string list) option"

definition DEFAULT_RESOLVED :: resolved_auth where
  "DEFAULT_RESOLVED = \<lparr>ra_public = False, ra_internal = False, ra_policy = None, ra_requires = None\<rparr>"

definition normalizePolicy :: "string \<Rightarrow> authz_effect option" where
  "normalizePolicy value = (if value = ''allow'' then Some ALLOW else if value = ''deny'' then Some DENY else None)"

definition resolve_flag :: "bool option \<Rightarrow> bool option \<Rightarrow> bool" where
  "resolve_flag methodFlag serviceFlag = (case methodFlag of Some b \<Rightarrow> b
    | None \<Rightarrow> (case serviceFlag of Some b \<Rightarrow> b | None \<Rightarrow> False))"

definition computeMethodAuth :: "proto_method \<Rightarrow> resolved_auth" where
  "computeMethodAuth method =
    (let svcAuth = pm_service_auth method; mtdAuth = pm_method_auth method in
     if svcAuth = None \<and> mtdAuth = None then DEFAULT_RESOLVED
     else
       \<lparr>ra_public = resolve_flag (Option.bind mtdAuth ma_public) (Option.bind svcAuth sa_public),
        ra_internal = resolve_flag (Option.bind mtdAuth ma_internal) (Option.bind svcAuth sa_internal),
        ra_policy = (if mtdAuth \<noteq> None \<and> ma_policy (the mtdAuth) \<noteq> [] then normalizePolicy (ma_policy (the mtdAuth))
          else if svcAuth \<noteq> None \<and> sa_defaultPolicy (the svcAuth) \<noteq> [] then normalizePolicy (sa_defaultPolicy (the svcAuth))
          else None),
        ra_requires = (if mtdAuth \<noteq> None \<and> ma_requires (the mtdAuth) \<noteq> None then ma_requires (the mtdAuth)
          else if svcAuth \<noteq> None \<and> sa_defaultRequires (the svcAuth) \<noteq> None then sa_defaultRequires (the svcAuth)
          else None)\<rparr>)"

type_synonym auth_cache = "(nat, resolved_auth) omap"

definition resolveMethodAuth :: "proto_method \<Rightarrow> auth_cache \<Rightarrow> resolved_auth \<times> auth_cache" where
  "resolveMethodAuth method cache = (case om_get cache (pm_id method) of
      Some cached \<Rightarrow> (cached, cache)
    | None \<Rightarrow> (let res = computeMethodAuth method in (res, om_set (pm_id method) res cache)))"

fun collect_patterns :: "(resolved_auth \<Rightarrow> bool) \<Rightarrow> string \<Rightarrow> proto_method list \<Rightarrow> auth_cache \<Rightarrow>
    string list \<times> auth_cache" where
  "collect_patterns flag service [] cache = ([], cache)"
| "collect_patterns flag service (m # ms) cache =
    (let (resolved, cache') = resolveMethodAuth m cache;
         (ps, cache'') = collect_patterns flag service ms cache'
     in ((if flag resolved then [full_method service (pm_name m)] else []) @ ps, cache''))"

fun collect_services :: "(resolved_auth \<Rightarrow> bool) \<Rightarrow> proto_service list \<Rightarrow> auth_cache \<Rightarrow> string list \<times> auth_cache" where
  "collect_services flag [] cache = ([], cache)"
| "collect_services flag (s # ss) cache =
    (let (ps, cache') = collect_patterns flag (ps_typeName s) (ps_methods s) cache;
         (qs, cache'') = collect_services flag ss cache'
     in (ps @ qs, cache''))"

definition getPublicMethods :: "proto_service list \<Rightarrow> auth_cache \<Rightarrow> string list \<times> auth_cache" where
  "getPublicMethods services cache = collect_services ra_public services cache"

definition getInternalMethods :: "proto_service list \<Rightarrow> auth_cache \<Rightarrow> string list \<times> auth_cache" where
  "getInternalMethods services cache = collect_services ra_internal services cache"

section \<open>proto/proto-authz-interceptor.ts\<close>

fun proto_evaluateRules :: "authz_rule list \<Rightarrow> auth_context option \<Rightarrow> string \<Rightarrow> string \<Rightarrow> rule_result option" where
  "proto_evaluateRules [] context service method = None"
| "proto_evaluateRules (rule # rules) context service method =
    (if \<not> matchesMethodPattern service method (ar_methods rule) then proto_evaluateRules rules context service method
     else (case ar_requires rule of
         Some requires \<Rightarrow>
           (case context of
              None \<Rightarrow> proto_evaluateRules rules context service method
            | Some c \<Rightarrow>
                (if satisfiesRequirements c requires
                 then Some \<lparr>rr_effect = ar_effect rule, rr_ruleName = ar_name rule,
                   rr_roles = need_roles requires, rr_scopes = need_scopes requires\<rparr>
                 else proto_evaluateRules rules context service method))
       | None \<Rightarrow> Some \<lparr>rr_effect = ar_effect rule, rr_ruleName = ar_name rule, rr_roles = None, rr_scopes = None\<rparr>))"

definition proto_needs :: "string list \<times> string list \<Rightarrow> requirements" where
  "proto_needs q = \<lparr>need_roles = Some (fst q), need_scopes = Some (snd q)\<rparr>"

definition proto_denied :: "string list \<times> string list \<Rightarrow> jserr" where
  "proto_denied q = AuthzDeniedError \<lparr>ad_ruleName = ''proto'',
    ad_roles = (if length (fst q) > 0 then Some (fst q) else None),
    ad_scopes = (if length (snd q) > 0 then Some (snd q) else None)\<rparr>"

definition policy_denied :: jserr where
  "policy_denied = AuthzDeniedError \<lparr>ad_ruleName = ''proto:policy'', ad_roles = None, ad_scopes = None\<rparr>"

definition proto_fallback :: "'s authz_options \<Rightarrow> ('s, 'm) handler \<Rightarrow> 'm req \<Rightarrow> ('s, jserr, 'm resp) io" where
  "proto_fallback options next r =
    (case az_authorize options of
       Some authorize \<Rightarrow>
         (case rq_context r of
            None \<Rightarrow> io_throw no_authentication
          | Some context \<Rightarrow> ask_callback authorize context next r)
     | None \<Rightarrow>
         (if dflt (az_defaultPolicy options) DENY = DENY then
            (if rq_context r = None then io_throw no_authentication
             else io_throw (connect_error ''Access denied by default policy'' code_PermissionDenied))
          else next r))"

definition proto_programmatic :: "'s authz_options \<Rightarrow> ('s, 'm) handler \<Rightarrow> 'm req \<Rightarrow> ('s, jserr, 'm resp) io" where
  "proto_programmatic options next r =
    (let rules = dflt (az_rules options) [] in
     if rules \<noteq> [] then
       (case proto_evaluateRules rules (rq_context r) (rq_service r) (rq_method r) of
          Some res \<Rightarrow> if rr_effect res = DENY then io_throw (rule_denied res) else next r
        | None \<Rightarrow> proto_fallback options next r)
     else proto_fallback options next r)"

definition proto_declared :: "'s authz_options \<Rightarrow> resolved_auth \<Rightarrow> ('s, 'm) handler \<Rightarrow> 'm req \<Rightarrow> ('s, jserr, 'm resp) io" where
  "proto_declared options resolved next r =
    (case ra_requires resolved of
       Some requires \<Rightarrow>
         (case rq_context r of
            None \<Rightarrow> io_throw no_authentication
          | Some context \<Rightarrow>
              if satisfiesRequirements context (proto_needs requires) then next r
              else io_throw (proto_denied requires))
     | None \<Rightarrow>
         (if ra_policy resolved = Some ALLOW then next r
          else if ra_policy resolved = Some DENY then io_throw policy_denied
          else proto_programmatic options next r))"

definition createProtoAuthzInterceptor :: "(auth_cache \<times> 's) authz_options \<Rightarrow> ('m req \<Rightarrow> proto_method) \<Rightarrow>
    (auth_cache \<times> 's, 'm) interceptor" where
  "createProtoAuthzInterceptor options method_of next r = (\<lambda>(cache, s).
    let (resolved, cache') = resolveMethodAuth (method_of r) cache in
    (if ra_public resolved then next r
     else if ra_internal resolved then
       (if rq_context r = None then io_throw no_authentication
        else if ra_requires resolved = None then next r
        else proto_declared options resolved next r)
     else proto_declared options resolved next r) (cache', s))"

section \<open>What the rules decide\<close>

definition applicable :: "auth_context option \<Rightarrow> string \<Rightarrow> string \<Rightarrow> authz_rule \<Rightarrow> bool" where
  "applicable context service method rule \<longleftrightarrow> matchesMethodPattern service method (ar_methods rule) \<and>
    (case ar_requires rule of None \<Rightarrow> True
     | Some q \<Rightarrow> (case context of None \<Rightarrow> False | Some c \<Rightarrow> satisfiesRequirements c q))"

definition result_of :: "authz_rule \<Rightarrow> rule_result" where
  "result_of rule = \<lparr>rr_effect = ar_effect rule, rr_ruleName = ar_name rule,
    rr_roles = Option.bind (ar_requires rule) need_roles, rr_scopes = Option.bind (ar_requires rule) need_scopes\<rparr>"

lemma result_of_sel [simp]: "rr_effect (result_of rule) = ar_effect rule" "rr_ruleName (result_of rule) = ar_name rule"
  by (simp_all add: result_of_def)

lemma applicable_cases:
  "\<not> matchesMethodPattern service method (ar_methods rule) \<Longrightarrow> \<not> applicable c service method rule"
  "ar_requires rule = None \<Longrightarrow> applicable c service method rule = matchesMethodPattern service method (ar_methods rule)"
  "ar_requires rule = Some q \<Longrightarrow> \<not> applicable None service method rule"
  "ar_requires rule = Some q \<Longrightarrow> applicable (Some x) service method rule =
    (matchesMethodPattern service method (ar_methods rule) \<and> satisfiesRequirements x q)"
  by (simp_all add: applicable_def)

lemma evaluateRules_first:
  "evaluateRules rules x service method = map_option result_of (find (applicable (Some x) service method) rules)"
proof (induction rules)
  case (Cons rule rules)
  then show ?case by (cases "ar_requires rule") (simp_all add: applicable_cases result_of_def)
qed simp

lemma proto_evaluateRules_first:
  "proto_evaluateRules rules c service method = map_option result_of (find (applicable c service method) rules)"
proof (induction rules)
  case (Cons rule rules)
  then show ?case by (cases "ar_requires rule"; cases c) (simp_all add: applicable_cases result_of_def)
qed simp

lemma satisfiesRequirements_iff:
  "satisfiesRequirements c q \<longleftrightarrow>
    (\<forall>roles. need_roles q = Some roles \<longrightarrow> roles = [] \<or> set roles \<inter> set (ac_roles c) \<noteq> {}) \<and>
    (\<forall>scopes. need_scopes q = Some scopes \<longrightarrow> set scopes \<subseteq> set (ac_scopes c))"
  by (auto simp: satisfiesRequirements_def list_ex_iff list_all_iff split: option.splits if_splits)

lemma AuthzDeniedError_sel [simp]:
  "je_code (AuthzDeniedError d) = Some code_PermissionDenied" "isSanitizableError (AuthzDeniedError d)"
  "is_connect_error (AuthzDeniedError d)" "je_client (AuthzDeniedError d) = Some ''Access denied''"
  by (simp_all add: AuthzDeniedError_def isSanitizableError_def is_connect_error_def)

lemma denial_codes [simp]:
  "je_code (rule_denied d) = Some code_PermissionDenied" "je_code (proto_denied q) = Some code_PermissionDenied"
  "je_code policy_denied = Some code_PermissionDenied" "je_code no_authentication = Some code_Unauthenticated"
  by (simp_all add: rule_denied_def proto_denied_def policy_denied_def no_authentication_def)

section \<open>The cache\<close>

definition cache_ok :: "proto_method set \<Rightarrow> auth_cache \<Rightarrow> bool" where
  "cache_ok ms cache \<longleftrightarrow> inj_on pm_id ms \<and>
    (\<forall>m \<in> ms. om_get cache (pm_id m) \<in> {None, Some (computeMethodAuth m)})"

lemma resolveMethodAuth_ok:
  assumes "cache_ok ms cache" "m \<in> ms"
  shows "fst (resolveMethodAuth m cache) = computeMethodAuth m" "cache_ok ms (snd (resolveMethodAuth m cache))"
proof -
  have v: "om_get cache (pm_id m) \<in> {None, Some (computeMethodAuth m)}"
    using assms by (simp add: cache_ok_def)
  then show "fst (resolveMethodAuth m cache) = computeMethodAuth m"
    by (auto simp: resolveMethodAuth_def Let_def)
  show "cache_ok ms (snd (resolveMethodAuth m cache))"
    unfolding cache_ok_def
  proof (intro conjI ballI)
    show "inj_on pm_id ms" using assms(1) by (simp add: cache_ok_def)
    fix k assume k: "k \<in> ms"
    have "pm_id k = pm_id m \<Longrightarrow> k = m"
      using assms k by (simp add: cache_ok_def inj_on_def)
    moreover have "om_get cache (pm_id k) \<in> {None, Some (computeMethodAuth k)}"
      using assms(1) k by (simp add: cache_ok_def)
    ultimately show "om_get (snd (resolveMethodAuth m cache)) (pm_id k) \<in> {None, Some (computeMethodAuth k)}"
      by (auto simp: resolveMethodAuth_def Let_def split: option.splits)
  qed
qed

lemma collect_patterns_ok:
  assumes "cache_ok ms cache" "set methods \<subseteq> ms"
  shows "fst (collect_patterns flag service methods cache) =
      map (\<lambda>m. full_method service (pm_name m)) (filter (\<lambda>m. flag (computeMethodAuth m)) methods)
    \<and> cache_ok ms (snd (collect_patterns flag service methods cache))"
  using assms
proof (induction methods arbitrary: cache)
  case (Cons m methods)
  note r = resolveMethodAuth_ok [OF Cons.prems(1), of m]
  have "m \<in> ms" "set methods \<subseteq> ms" using Cons.prems(2) by auto
  with Cons.IH [of "snd (resolveMethodAuth m cache)"] r show ?case
    by (auto simp: Let_def split: prod.splits)
qed simp

lemma collect_services_ok:
  assumes "cache_ok ms cache" "\<Union> (set ` ps_methods ` set services) \<subseteq> ms"
  shows "fst (collect_services flag services cache) =
      concat (map (\<lambda>s. map (\<lambda>m. full_method (ps_typeName s) (pm_name m))
        (filter (\<lambda>m. flag (computeMethodAuth m)) (ps_methods s))) services)
    \<and> cache_ok ms (snd (collect_services flag services cache))"
  using assms
proof (induction services arbitrary: cache)
  case (Cons s services)
  have "set (ps_methods s) \<subseteq> ms" "\<Union> (set ` ps_methods ` set services) \<subseteq> ms" using Cons.prems(2) by auto
  with collect_patterns_ok [OF Cons.prems(1), of "ps_methods s" flag "ps_typeName s"]
    Cons.IH [of "snd (collect_patterns flag (ps_typeName s) (ps_methods s) cache)"]
  show ?case by (auto simp: Let_def split: prod.splits)
qed simp

section \<open>The verdict table\<close>

datatype verdict = Grant | Refuse jserr | Consult auth_context

definition first_stage :: "(bool \<times> 'a) list \<Rightarrow> 'a option" where
  "first_stage stages = map_option snd (find fst stages)"

lemma first_stage_simps [simp]:
  "first_stage [] = None" "first_stage ((b, v) # stages) = (if b then Some v else first_stage stages)"
  by (simp_all add: first_stage_def)

definition proto_table :: "'s authz_options \<Rightarrow> resolved_auth \<Rightarrow> 'm req \<Rightarrow> (bool \<times> verdict) list" where
  "proto_table options d r =
    (let c = rq_context r;
         found = find (applicable c (rq_service r) (rq_method r)) (dflt (az_rules options) []) in
     [(ra_public d, Grant),
      (c = None \<and> (ra_internal d \<or> ra_requires d \<noteq> None), Refuse no_authentication),
      (ra_internal d \<and> ra_requires d = None, Grant),
      (ra_requires d \<noteq> None \<and> satisfiesRequirements (the c) (proto_needs (the (ra_requires d))), Grant),
      (ra_requires d \<noteq> None, Refuse (proto_denied (the (ra_requires d)))),
      (ra_policy d = Some ALLOW, Grant),
      (ra_policy d = Some DENY, Refuse policy_denied),
      (found \<noteq> None \<and> ar_effect (the found) = ALLOW, Grant),
      (found \<noteq> None, Refuse (rule_denied (result_of (the found)))),
      (az_authorize options \<noteq> None \<and> c = None, Refuse no_authentication),
      (az_authorize options \<noteq> None, Consult (the c)),
      (dflt (az_defaultPolicy options) DENY = ALLOW, Grant),
      (c = None, Refuse no_authentication),
      (True, Refuse (connect_error ''Access denied by default policy'' code_PermissionDenied))])"

definition proto_verdict :: "'s authz_options \<Rightarrow> resolved_auth \<Rightarrow> 'm req \<Rightarrow> verdict" where
  "proto_verdict options d r = the (first_stage (proto_table options d r))"

definition carry_out :: "'s authz_options \<Rightarrow> verdict \<Rightarrow> ('s, 'm) handler \<Rightarrow> 'm req \<Rightarrow> ('s, jserr, 'm resp) io" where
  "carry_out options v next r = (case v of
      Grant \<Rightarrow> next r
    | Refuse e \<Rightarrow> io_throw e
    | Consult c \<Rightarrow> ask_callback (the (az_authorize options)) c next r)"

lemma not_ALLOW: "e \<noteq> ALLOW \<longleftrightarrow> e = DENY"
  by (cases e) simp_all

lemma not_DENY: "e \<noteq> DENY \<longleftrightarrow> e = ALLOW"
  by (cases e) simp_all

lemma proto_fallback_table:
  "proto_fallback options next r = carry_out options (the (first_stage
     [(az_authorize options \<noteq> None \<and> rq_context r = None, Refuse no_authentication),
      (az_authorize options \<noteq> None, Consult (the (rq_context r))),
      (dflt (az_defaultPolicy options) DENY = ALLOW, Grant),
      (rq_context r = None, Refuse no_authentication),
      (True, Refuse (connect_error ''Access denied by default policy'' code_PermissionDenied))])) next r"
  by (cases "az_authorize options"; cases "rq_context r"; cases "dflt (az_defaultPolicy options) DENY")
    (simp_all add: proto_fallback_def carry_out_def)

lemma proto_programmatic_table:
  fixes options :: "'s authz_options" and r :: "'m req"
  defines "found \<equiv> find (applicable (rq_context r) (rq_service r) (rq_method r)) (dflt (az_rules options) [])"
  shows "proto_programmatic options next r = (case found of
      Some rule \<Rightarrow> if ar_effect rule = ALLOW then next r else io_throw (rule_denied (result_of rule))
    | None \<Rightarrow> proto_fallback options next r)"
  by (cases "dflt (az_rules options) []"; cases found)
    (auto simp: proto_programmatic_def found_def proto_evaluateRules_first not_ALLOW not_DENY split: if_splits)

lemma proto_declared_verdict:
  assumes "\<not> ra_public d" "\<not> (ra_internal d \<and> (rq_context r = None \<or> ra_requires d = None))"
  shows "proto_declared options d next r = carry_out options (proto_verdict options d r) next r"
proof (cases "ra_requires d")
  case (Some q)
  then show ?thesis using assms
    by (cases "rq_context r") (auto simp: proto_declared_def proto_verdict_def proto_table_def Let_def carry_out_def)
next
  case None
  then have i: "\<not> ra_internal d" using assms(2) by simp
  let ?found = "find (applicable (rq_context r) (rq_service r) (rq_method r)) (dflt (az_rules options) [])"
  show ?thesis
  proof (cases "ra_policy d")
    case (Some p)
    then show ?thesis using assms(1) None i
      by (cases p) (simp_all add: proto_declared_def proto_verdict_def proto_table_def Let_def carry_out_def)
  next
    case np: None
    show ?thesis
    proof (cases ?found)
      case (Some rule)
      then show ?thesis using assms(1) None i np
        by (simp add: proto_declared_def proto_verdict_def proto_table_def Let_def carry_out_def proto_programmatic_table)
    next
      case nf: None
      then show ?thesis using assms(1) None i np
        by (simp add: proto_declared_def proto_verdict_def proto_table_def Let_def proto_programmatic_table
            proto_fallback_table)
    qed
  qed
qed

lemma proto_interceptor_verdict:
  assumes "cache_ok ms cache" "method_of r \<in> ms"
  shows "\<exists>cache'. cache_ok ms cache' \<and> (\<forall>next. createProtoAuthzInterceptor options method_of next r (cache, s)
    = carry_out options (proto_verdict options (computeMethodAuth (method_of r)) r) next r (cache', s))"
proof -
  define d where "d = computeMethodAuth (method_of r)"
  obtain cache' where e: "resolveMethodAuth (method_of r) cache = (d, cache')"
    using resolveMethodAuth_ok(1) [OF assms(1), of "method_of r"] assms(2)
    by (cases "resolveMethodAuth (method_of r) cache") (simp add: d_def)
  have "createProtoAuthzInterceptor options method_of next r (cache, s)
      = carry_out options (proto_verdict options d r) next r (cache', s)" for "next"
  proof (cases "ra_public d \<or> ra_internal d \<and> (rq_context r = None \<or> ra_requires d = None)")
    case True
    then consider "ra_public d" | "\<not> ra_public d" "ra_internal d" "rq_context r = None"
      | "\<not> ra_public d" "ra_internal d" "rq_context r \<noteq> None" "ra_requires d = None"
      by argo
    then show ?thesis
      by cases (auto simp: createProtoAuthzInterceptor_def e proto_verdict_def proto_table_def Let_def carry_out_def)
  next
    case False
    then have "createProtoAuthzInterceptor options method_of next r (cache, s) = proto_declared options d next r (cache', s)"
      by (cases "ra_internal d") (auto simp: createProtoAuthzInterceptor_def e)
    then show ?thesis
      using proto_declared_verdict [of d r options "next"] False by simp
  qed
  moreover have "cache_ok ms cache'" using resolveMethodAuth_ok(2) [OF assms(1), of "method_of r"] assms(2) by (simp add: e)
  ultimately show ?thesis unfolding d_def by blast
qed

lemma proto_verdict_refuse:
  assumes "proto_verdict options d r = Refuse e"
  shows "je_code e = Some code_Unauthenticated \<and> rq_context r = None \<or> je_code e = Some code_PermissionDenied"
  using assms unfolding proto_verdict_def proto_table_def Let_def
  by (simp split: if_splits) auto

lemma proto_verdict_consult:
  assumes "proto_verdict options d r = Consult c"
  shows "rq_context r = Some c \<and> az_authorize options \<noteq> None"
  using assms unfolding proto_verdict_def proto_table_def Let_def
  by (simp split: if_splits) auto

section \<open>Properties\<close>

text \<open>C13. The proto authorization interceptor implements the verdict table, whatever the state of the
  cache of resolved options: public methods pass; without an authentication context internal methods
  and methods with requirements are refused as Unauthenticated; internal methods without requirements
  pass; requirements decide alone; then the declared policy, then the first applicable rule, then the
  callback, then the default policy. A refusal never runs the continuation and leaves the world as it
  was apart from the cache; it is Unauthenticated only without an authentication context and
  PermissionDenied otherwise.\<close>
theorem proto_authz_decides:
  assumes "cache_ok ms cache" "method_of r \<in> ms"
  shows "\<exists>cache'. cache_ok ms cache' \<and>
    (case proto_verdict options (computeMethodAuth (method_of r)) r of
       Grant \<Rightarrow> (\<forall>next. createProtoAuthzInterceptor options method_of next r (cache, s) = next r (cache', s))
     | Refuse e \<Rightarrow> (\<forall>next. createProtoAuthzInterceptor options method_of next r (cache, s) = (Inl e, cache', s)) \<and>
         (je_code e = Some code_Unauthenticated \<and> rq_context r = None \<or> je_code e = Some code_PermissionDenied)
     | Consult c \<Rightarrow> rq_context r = Some c \<and> (\<exists>f. az_authorize options = Some f \<and>
         (\<forall>next. createProtoAuthzInterceptor options method_of next r (cache, s) =
           (case f c (rq_service r) (rq_method r) (cache', s) of
              (Inl e, t) \<Rightarrow> (Inl e, t)
            | (Inr allowed, t) \<Rightarrow> if allowed then next r t
                else (Inl (connect_error ''Access denied'' code_PermissionDenied), t)))))"
proof -
  obtain cache' where ok: "cache_ok ms cache'"
    and run: "\<And>next. createProtoAuthzInterceptor options method_of next r (cache, s)
      = carry_out options (proto_verdict options (computeMethodAuth (method_of r)) r) next r (cache', s)"
    using proto_interceptor_verdict [where method_of = method_of and r = r and options = options and s = s,
      OF assms] by blast
  show ?thesis
  proof (intro exI [of _ cache'] conjI ok)
    show "case proto_verdict options (computeMethodAuth (method_of r)) r of
       Grant \<Rightarrow> (\<forall>next. createProtoAuthzInterceptor options method_of next r (cache, s) = next r (cache', s))
     | Refuse e \<Rightarrow> (\<forall>next. createProtoAuthzInterceptor options method_of next r (cache, s) = (Inl e, cache', s)) \<and>
         (je_code e = Some code_Unauthenticated \<and> rq_context r = None \<or> je_code e = Some code_PermissionDenied)
     | Consult c \<Rightarrow> rq_context r = Some c \<and> (\<exists>f. az_authorize options = Some f \<and>
         (\<forall>next. createProtoAuthzInterceptor options method_of next r (cache, s) =
           (case f c (rq_service r) (rq_method r) (cache', s) of
              (Inl e, t) \<Rightarrow> (Inl e, t)
            | (Inr allowed, t) \<Rightarrow> if allowed then next r t
                else (Inl (connect_error ''Access denied'' code_PermissionDenied), t))))"
    proof (cases "proto_verdict options (computeMethodAuth (method_of r)) r")
      case Grant
      then show ?thesis using run by (simp add: carry_out_def)
    next
      case (Refuse e)
      then show ?thesis using run proto_verdict_refuse [OF Refuse] by (simp add: carry_out_def)
    next
      case (Consult c)
      then show ?thesis using run proto_verdict_consult [OF Consult]
        by (auto simp: carry_out_def ask_callback_def io_bind_def split: prod.split sum.split)
    qed
  qed
qed

text \<open>The list of public methods handed to the authentication interceptor names exactly the methods
  the authorization interceptor takes as public: a well-formed method name matches the list if and only
  if one of the given services declares such a method whose resolved options are public, whatever the
  cache held before; likewise for internal methods.\<close>
theorem public_methods_agree:
  assumes "cache_ok ms cache" "\<Union> (set ` ps_methods ` set services) \<subseteq> ms"
    "\<forall>m \<in> ms. pm_name m \<noteq> ''*'' \<and> CHR ''/'' \<notin> set (pm_name m)"
    "mname \<noteq> ''*''" "CHR ''/'' \<notin> set mname"
  shows "(matchesMethodPattern service mname (fst (getPublicMethods services cache)) \<longleftrightarrow>
      (\<exists>s \<in> set services. ps_typeName s = service \<and>
        (\<exists>m \<in> set (ps_methods s). pm_name m = mname \<and> ra_public (computeMethodAuth m)))) \<and>
    (matchesMethodPattern service mname (fst (getInternalMethods services cache)) \<longleftrightarrow>
      (\<exists>s \<in> set services. ps_typeName s = service \<and>
        (\<exists>m \<in> set (ps_methods s). pm_name m = mname \<and> ra_internal (computeMethodAuth m))))"
proof -
  have eq: "full_method s m = full_method s' m' \<longleftrightarrow> s = s' \<and> m = m'"
    if "CHR ''/'' \<notin> set m" "CHR ''/'' \<notin> set m'" for s m s' m'
    using that by (rule full_method_inj)
  have "matchesMethodPattern service mname (fst (collect_services flag services cache)) \<longleftrightarrow>
      (\<exists>s \<in> set services. ps_typeName s = service \<and>
        (\<exists>m \<in> set (ps_methods s). pm_name m = mname \<and> flag (computeMethodAuth m)))" (is "?L \<longleftrightarrow> ?R") for flag
  proof -
    have ps: "set (fst (collect_services flag services cache)) =
      {full_method (ps_typeName s) (pm_name m) | s m. s \<in> set services \<and> m \<in> set (ps_methods s) \<and> flag (computeMethodAuth m)}"
      using collect_services_ok [OF assms(1,2), of flag] by auto
    have "pattern_matches service mname (full_method (ps_typeName s) (pm_name m)) \<longleftrightarrow>
        ps_typeName s = service \<and> pm_name m = mname"
      if "s \<in> set services" "m \<in> set (ps_methods s)" for s m
    proof -
      have n: "pm_name m \<noteq> ''*''" "CHR ''/'' \<notin> set (pm_name m)" using that assms(2,3) by auto
      have "full_method (ps_typeName s) (pm_name m) \<noteq> ''*''" by (rule full_method_neq(1) [OF n(2,1)])
      moreover have "full_method (ps_typeName s) (pm_name m) \<noteq> full_method service ''*''"
        using eq [of "pm_name m" "''*''"] n by simp
      ultimately show ?thesis using eq [OF n(2) assms(5)] by (simp add: pattern_matches_iff)
    qed
    then show ?thesis unfolding matchesMethodPattern_iff ps by blast
  qed
  then show ?thesis by (simp add: getPublicMethods_def getInternalMethods_def)
qed

text \<open>For an authenticated call to a method without declared options, the proto interceptor and the
  programmatic interceptor with the same options and no skip list decide alike: with every
  continuation they give the same result and the same world.\<close>
theorem authz_interceptors_agree:
  assumes "rq_context r = Some c" "pm_service_auth (method_of r) = None" "pm_method_auth (method_of r) = None"
    "cache_ok ms cache" "method_of r \<in> ms" "dflt (az_skipMethods options) [] = []"
  shows "\<exists>cache'. cache_ok ms cache' \<and> (\<forall>next. createProtoAuthzInterceptor options method_of next r (cache, s) =
    createAuthzInterceptor options next r (cache', s))"
proof -
  have d: "computeMethodAuth (method_of r) = DEFAULT_RESOLVED" using assms(2,3) by (simp add: computeMethodAuth_def)
  obtain cache' where ok: "cache_ok ms cache'"
    and run: "\<And>next. createProtoAuthzInterceptor options method_of next r (cache, s)
      = carry_out options (proto_verdict options DEFAULT_RESOLVED r) next r (cache', s)"
    using proto_interceptor_verdict [where method_of = method_of and r = r and options = options and s = s,
      OF assms(4,5)] unfolding d by blast
  have "proto_declared options DEFAULT_RESOLVED next r = createAuthzInterceptor options next r" for "next"
    using assms(1,6)
    by (auto simp: proto_declared_def DEFAULT_RESOLVED_def proto_programmatic_def proto_fallback_def Let_def
      createAuthzInterceptor_def evaluateRules_first proto_evaluateRules_first split: option.split)
  then have "carry_out options (proto_verdict options DEFAULT_RESOLVED r) next r = createAuthzInterceptor options next r" for "next"
    using proto_declared_verdict [of DEFAULT_RESOLVED r options "next"] by (simp add: DEFAULT_RESOLVED_def)
  then show ?thesis using ok run by auto
qed

section \<open>Witnesses\<close>

definition deny_by_default :: "'s authz_options" where
  "deny_by_default = \<lparr>az_defaultPolicy = None, az_rules = None, az_authorize = None, az_skipMethods = None\<rparr>"

definition method_delete :: proto_method where
  "method_delete = \<lparr>pm_id = 0, pm_name = ''Delete'', pm_service_auth = None,
    pm_method_auth = Some \<lparr>ma_public = None, ma_internal = None, ma_requires = Some ([''admin''], []), ma_policy = []\<rparr>\<rparr>"

definition method_get :: proto_method where
  "method_get = \<lparr>pm_id = 1, pm_name = ''Get'', pm_service_auth = None, pm_method_auth = None\<rparr>"

definition method_ping :: proto_method where
  "method_ping = \<lparr>pm_id = 2, pm_name = ''Ping'',
    pm_service_auth = Some \<lparr>sa_public = Some True, sa_internal = None, sa_defaultRequires = None, sa_defaultPolicy = []\<rparr>,
    pm_method_auth = None\<rparr>"

definition some_user :: auth_context where
  "some_user = \<lparr>ac_subject = ''u'', ac_name = None, ac_roles = [], ac_scopes = [], ac_claims = [],
    ac_type = ''jwt'', ac_expiresAt = None\<rparr>"

definition delete_request :: "unit req" where
  "delete_request = \<lparr>rq_stream = False, rq_url = [], rq_service = ''a.A'', rq_method = ''Delete'', rq_header = [],
    rq_context = None, rq_message = ()\<rparr>"

lemma proto_authz_decides_witness:
  "\<exists>w. createProtoAuthzInterceptor (deny_by_default :: (auth_cache \<times> unit) authz_options) (\<lambda>_. method_delete)
    (\<lambda>_. io_throw (plain_error ''reached'')) delete_request ([], ()) = (Inl no_authentication, w)"
proof -
  have v: "proto_verdict (deny_by_default :: (auth_cache \<times> unit) authz_options) (computeMethodAuth method_delete) delete_request
      = Refuse no_authentication"
    by (simp add: proto_verdict_def proto_table_def computeMethodAuth_def method_delete_def delete_request_def resolve_flag_def Let_def)
  show ?thesis
    using proto_authz_decides [where ms = "{method_delete}" and cache = "[]" and method_of = "\<lambda>_. method_delete"
        and r = delete_request and options = "deny_by_default :: (auth_cache \<times> unit) authz_options" and s = "()"] v
    by (auto simp: cache_ok_def)
qed

lemma public_methods_agree_witness:
  "matchesMethodPattern ''a.A'' ''Ping'' (fst (getPublicMethods
      [\<lparr>ps_typeName = ''a.A'', ps_methods = [method_get, method_ping]\<rparr>] [])) \<and>
   \<not> matchesMethodPattern ''a.A'' ''Get'' (fst (getPublicMethods
      [\<lparr>ps_typeName = ''a.A'', ps_methods = [method_get, method_ping]\<rparr>] []))"
proof -
  let ?ss = "[\<lparr>ps_typeName = ''a.A'', ps_methods = [method_get, method_ping]\<rparr>]"
  have c: "cache_ok {method_get, method_ping} []"
    by (simp add: cache_ok_def method_get_def method_ping_def)
  have n: "\<forall>m \<in> {method_get, method_ping}. pm_name m \<noteq> ''*'' \<and> CHR ''/'' \<notin> set (pm_name m)"
    by (simp add: method_get_def method_ping_def)
  show ?thesis
    using public_methods_agree [where services = ?ss and service = "''a.A''" and mname = "''Ping''", OF c _ n]
      public_methods_agree [where services = ?ss and service = "''a.A''" and mname = "''Get''", OF c _ n]
    by (simp add: method_get_def method_ping_def computeMethodAuth_def resolve_flag_def DEFAULT_RESOLVED_def)
qed

lemma authz_interceptors_agree_witness:
  "\<exists>cache'. createProtoAuthzInterceptor (deny_by_default :: (auth_cache \<times> unit) authz_options) (\<lambda>_. method_get)
      (\<lambda>_. io_throw (plain_error ''reached'')) (delete_request\<lparr>rq_context := Some some_user\<rparr>) ([], ()) =
    createAuthzInterceptor deny_by_default (\<lambda>_. io_throw (plain_error ''reached''))
      (delete_request\<lparr>rq_context := Some some_user\<rparr>) (cache', ())"
  using authz_interceptors_agree [where ms = "{method_get}" and cache = "[]" and method_of = "\<lambda>_. method_get"
      and r = "delete_request\<lparr>rq_context := Some some_user\<rparr>" and s = "()"
      and options = "deny_by_default :: (auth_cache \<times> unit) authz_options"]
  by (auto simp: cache_ok_def method_get_def deny_by_default_def dflt_def)

end
