(* ===== verification/LruCache.thy ===== *)
theory LruCache
  imports Prelude
begin

text \<open>
  packages/auth/src/cache.ts. The insertion-ordered Map of the class is an ordered map from keys to
  entries, oldest first; Date.now is the argument now. Values are objects, so a stored entry is always
  truthy. The time to live is an integer of milliseconds.

  The locale lookup_cache states what the authentication interceptors rely on: what a lookup returns
  has been stored under that very key. The property is the guarantee of the least-recently-used
  discipline over every sequence of operations.
\<close>

section \<open>The class\<close>

record 'v cache_entry =
  ce_value :: 'v
  ce_expiresAt :: int

record 'v lru =
  lru_maxSize :: int
  lru_ttl :: int
  lru_entries :: "(string, 'v cache_entry) omap"

definition lru_new :: "int \<Rightarrow> int option \<Rightarrow> string + 'v lru" where
  "lru_new ttl maxSize =
    (if ttl \<le> 0 then Inl ''ttl must be a positive number''
     else Inr \<lparr>lru_maxSize = dflt maxSize 1000, lru_ttl = ttl, lru_entries = []\<rparr>)"

definition lru_get :: "int \<Rightarrow> string \<Rightarrow> 'v lru \<Rightarrow> 'v option \<times> 'v lru" where
  "lru_get now key c = (case om_get (lru_entries c) key of
      None \<Rightarrow> (None, c)
    | Some entry \<Rightarrow>
        if now \<ge> ce_expiresAt entry then (None, c\<lparr>lru_entries := om_del key (lru_entries c)\<rparr>)
        else (Some (ce_value entry), c\<lparr>lru_entries := om_set key entry (om_del key (lru_entries c))\<rparr>))"

definition lru_evict :: "int \<Rightarrow> (string, 'v cache_entry) omap \<Rightarrow> (string, 'v cache_entry) omap" where
  "lru_evict maxSize es =
    (if int (length es) \<ge> maxSize then (case om_keys es of [] \<Rightarrow> es | firstKey # _ \<Rightarrow> om_del firstKey es) else es)"

definition lru_set :: "int \<Rightarrow> string \<Rightarrow> 'v \<Rightarrow> 'v lru \<Rightarrow> 'v lru" where
  "lru_set now key v c = c\<lparr>lru_entries := om_set key \<lparr>ce_value = v, ce_expiresAt = now + lru_ttl c\<rparr>
    (lru_evict (lru_maxSize c) (om_del key (lru_entries c)))\<rparr>"

definition lru_clear :: "'v lru \<Rightarrow> 'v lru" where
  "lru_clear c = c\<lparr>lru_entries := []\<rparr>"

definition lru_size :: "'v lru \<Rightarrow> nat" where
  "lru_size c = length (lru_entries c)"

section \<open>Invariant\<close>

definition lru_ok :: "'v lru \<Rightarrow> bool" where
  "lru_ok c \<longleftrightarrow> om_ok (lru_entries c) \<and> int (lru_size c) \<le> max 1 (lru_maxSize c)"

lemma om_del_length: "om_ok m \<Longrightarrow> length (om_del k m) = (if om_has m k then length m - 1 else length m)"
  by (simp add: om_length_del om_del_absent)

lemma om_has_length: "om_has m k \<Longrightarrow> length m > 0"
  by (cases m) (auto simp: om_has_def)

lemma om_set_length: "length (om_set k v m) = (if om_has m k then length m else length m + 1)"
proof -
  have "length (om_keys (om_set k v m)) = (if om_has m k then length (om_keys m) else length (om_keys m) + 1)"
    by (simp add: om_keys_set om_has_keys)
  then show ?thesis by (simp add: om_keys_def)
qed

lemma lru_evict_ok: "om_ok es \<Longrightarrow> om_ok (lru_evict n es)"
  by (auto simp: lru_evict_def split: list.splits)

lemma lru_evict_length: "om_ok es \<Longrightarrow> int (length es) \<le> max 1 n \<Longrightarrow> int (length (lru_evict n es)) \<le> max 1 n - 1"
  by (cases es) (auto simp: lru_evict_def om_keys_def om_del_length om_has_def om_get_def)

lemma lru_evict_keys: "set (om_keys (lru_evict n es)) \<subseteq> set (om_keys es)"
  by (auto simp: lru_evict_def om_keys_del split: list.splits)

lemma lru_get_ok: "lru_ok c \<Longrightarrow> lru_ok (snd (lru_get now key c))"
  using om_has_length [of "lru_entries c" key]
  by (auto simp: lru_get_def lru_ok_def lru_size_def om_set_length om_del_length om_has_def split: option.splits)

lemma lru_set_ok:
  assumes "lru_ok c"
  shows "lru_ok (lru_set now key v c)"
proof -
  let ?d = "om_del key (lru_entries c)"
  have ok: "om_ok ?d" using assms by (simp add: lru_ok_def)
  have "length ?d \<le> length (lru_entries c)" using assms by (auto simp: lru_ok_def om_del_length)
  then have "int (length ?d) \<le> max 1 (lru_maxSize c)" using assms by (simp add: lru_ok_def lru_size_def)
  from lru_evict_length [OF ok this] lru_evict_ok [OF ok] show ?thesis
    using om_set_length [of key "\<lparr>ce_value = v, ce_expiresAt = now + lru_ttl c\<rparr>" "lru_evict (lru_maxSize c) ?d"]
    by (auto simp: lru_set_def lru_ok_def lru_size_def)
qed

section \<open>What a client relies on\<close>

locale lookup_cache =
  fixes get :: "int \<Rightarrow> string \<Rightarrow> 'c \<Rightarrow> 'v option \<times> 'c"
    and put :: "int \<Rightarrow> string \<Rightarrow> 'v \<Rightarrow> 'c \<Rightarrow> 'c"
    and holds :: "'c \<Rightarrow> string \<Rightarrow> 'v \<Rightarrow> bool"
  assumes get_held: "get now k c = (Some v, c') \<Longrightarrow> holds c k v"
    and get_keeps: "holds (snd (get now k c)) k' v' \<Longrightarrow> holds c k' v'"
    and put_holds: "holds (put now k v c) k' v' \<Longrightarrow> (k' = k \<and> v' = v) \<or> holds c k' v'"
begin

definition all_held :: "(string \<Rightarrow> 'v \<Rightarrow> bool) \<Rightarrow> 'c \<Rightarrow> bool" where
  "all_held P c \<longleftrightarrow> (\<forall>k v. holds c k v \<longrightarrow> P k v)"

lemma all_held_get: "all_held P c \<Longrightarrow> all_held P (snd (get now k c))"
  unfolding all_held_def using get_keeps by blast

lemma all_held_put: "all_held P c \<Longrightarrow> P k v \<Longrightarrow> all_held P (put now k v c)"
  unfolding all_held_def using put_holds by blast

lemma hit_satisfies: "all_held P c \<Longrightarrow> get now k c = (Some v, c') \<Longrightarrow> P k v"
  unfolding all_held_def using get_held by blast

end

definition lru_holds :: "'v lru \<Rightarrow> string \<Rightarrow> 'v \<Rightarrow> bool" where
  "lru_holds c k v \<longleftrightarrow> map_option ce_value (om_get (lru_entries c) k) = Some v"

lemma lru_evict_get: "om_get (lru_evict n es) k = Some e \<Longrightarrow> om_get es k = Some e"
  by (auto simp: lru_evict_def split: if_splits list.splits)

interpretation lru: lookup_cache lru_get lru_set lru_holds
proof unfold_locales
  show "lru_get now k c = (Some v, c') \<Longrightarrow> lru_holds c k v" for now k and c :: "'a lru" and v c'
    by (auto simp: lru_get_def lru_holds_def split: option.splits if_splits)
  show "lru_holds (snd (lru_get now k c)) k' v' \<Longrightarrow> lru_holds c k' v'" for now k and c :: "'a lru" and k' v'
    by (auto simp: lru_get_def lru_holds_def split: option.splits if_splits)
  show "lru_holds (lru_set now k v c) k' v' \<Longrightarrow> (k' = k \<and> v' = v) \<or> lru_holds c k' v'"
    for now k v and c :: "'a lru" and k' v'
    by (auto simp: lru_set_def lru_holds_def split: if_splits dest: lru_evict_get)
qed

section \<open>Runs\<close>

datatype 'v lru_op = Get int string | Set int string 'v | Clear

fun lru_step :: "'v lru_op \<Rightarrow> 'v lru \<Rightarrow> 'v lru" where
  "lru_step (Get now k) c = snd (lru_get now k c)"
| "lru_step (Set now k v) c = lru_set now k v c"
| "lru_step Clear c = lru_clear c"

definition lru_run :: "'v lru_op list \<Rightarrow> 'v lru \<Rightarrow> 'v lru" where
  "lru_run ops c = fold lru_step ops c"

fun op_key :: "'v lru_op \<Rightarrow> string set" where
  "op_key (Get now k) = {k}"
| "op_key (Set now k v) = {k}"
| "op_key Clear = {}"

definition last_set :: "'v lru_op list \<Rightarrow> string \<Rightarrow> (int \<times> 'v) option" where
  "last_set ops k = fold (\<lambda>op acc. case op of
      Get _ _ \<Rightarrow> acc
    | Set now k' v \<Rightarrow> if k' = k then Some (now, v) else acc
    | Clear \<Rightarrow> None) ops None"

lemma lru_step_ok: "lru_ok c \<Longrightarrow> lru_ok (lru_step op c)"
  by (cases op) (simp_all add: lru_get_ok lru_set_ok, simp add: lru_clear_def lru_ok_def lru_size_def)

lemma lru_run_ok: "lru_ok c \<Longrightarrow> lru_ok (lru_run ops c)"
  unfolding lru_run_def by (induction ops arbitrary: c) (simp_all add: lru_step_ok)

lemma lru_step_params [simp]:
  "lru_maxSize (lru_step op c) = lru_maxSize c" "lru_ttl (lru_step op c) = lru_ttl c"
  by (cases op; simp add: lru_get_def lru_set_def lru_clear_def split: option.splits)+

lemma lru_run_params: "lru_maxSize (lru_run ops c) = lru_maxSize c \<and> lru_ttl (lru_run ops c) = lru_ttl c"
  unfolding lru_run_def by (induction ops arbitrary: c) simp_all

lemma lru_run_snoc: "lru_run (ops @ [op]) c = lru_step op (lru_run ops c)"
  by (simp add: lru_run_def)

lemma lru_run_append: "lru_run (ops @ ops') c = lru_run ops' (lru_run ops c)"
  by (simp add: lru_run_def)

lemma last_set_snoc:
  "last_set (ops @ [op]) k = (case op of
      Get _ _ \<Rightarrow> last_set ops k
    | Set now k' v \<Rightarrow> if k' = k then Some (now, v) else last_set ops k
    | Clear \<Rightarrow> None)"
  by (cases op) (simp_all add: last_set_def)

lemma entry_is_last_set:
  assumes "om_get (lru_entries (lru_run ops c)) k = Some e" "lru_entries c = []"
  shows "\<exists>t. last_set ops k = Some (t, ce_value e) \<and> ce_expiresAt e = t + lru_ttl c"
  using assms
proof (induction ops arbitrary: e rule: rev_induct)
  case (snoc op ops)
  show ?case
  proof (cases op)
    case (Get now k')
    then have "om_get (lru_entries (lru_run ops c)) k = Some e"
      using snoc.prems(1) by (auto simp: lru_run_snoc lru_get_def split: option.splits if_splits)
    then show ?thesis using snoc.IH snoc.prems(2) Get by (simp add: last_set_snoc)
  next
    case (Set now k' v)
    then have "(k' = k \<and> e = \<lparr>ce_value = v, ce_expiresAt = now + lru_ttl c\<rparr>) \<or>
        (k' \<noteq> k \<and> om_get (lru_entries (lru_run ops c)) k = Some e)"
      using snoc.prems(1) lru_run_params [of ops c]
      by (auto simp: lru_run_snoc lru_set_def dest!: lru_evict_get split: if_splits)
    then show ?thesis using snoc.IH snoc.prems(2) Set by (auto simp: last_set_snoc)
  next
    case Clear
    then show ?thesis using snoc.prems(1) by (simp add: lru_run_snoc lru_clear_def)
  qed
qed (simp add: lru_run_def)

section \<open>Recency\<close>

definition after_key :: "string \<Rightarrow> string list \<Rightarrow> string list" where
  "after_key k ks = tl (dropWhile (\<lambda>x. x \<noteq> k) ks)"

lemma after_key_filter: "k \<noteq> k' \<Longrightarrow> after_key k (filter (\<lambda>x. x \<noteq> k') ks) = filter (\<lambda>x. x \<noteq> k') (after_key k ks)"
  unfolding after_key_def by (induction ks) auto

lemma after_key_snoc: "k \<in> set ks \<Longrightarrow> after_key k (ks @ [k']) = after_key k ks @ [k']"
  unfolding after_key_def by (induction ks) auto

lemma after_key_last: "k \<notin> set ks \<Longrightarrow> after_key k (ks @ [k]) = []"
  unfolding after_key_def by (induction ks) auto

lemma after_key_skip: "f \<noteq> k \<Longrightarrow> after_key k (f # ks) = after_key k ks"
  by (simp add: after_key_def)

lemma after_key_head: "after_key k (k # ks) = ks"
  by (simp add: after_key_def)

definition recent :: "string \<Rightarrow> 'v cache_entry \<Rightarrow> string set \<Rightarrow> 'v lru \<Rightarrow> bool" where
  "recent k e A c \<longleftrightarrow> om_ok (lru_entries c) \<and> om_get (lru_entries c) k = Some e \<and>
    set (after_key k (om_keys (lru_entries c))) \<subseteq> A"

lemma recent_in_keys: "recent k e A c \<Longrightarrow> k \<in> set (om_keys (lru_entries c))"
  by (simp add: recent_def om.keys_get)

lemma recent_get_self:
  assumes "recent k e A c" "now < ce_expiresAt e"
  shows "recent k e {} (snd (lru_get now k c))" "fst (lru_get now k c) = Some (ce_value e)"
  using assms by (auto simp: recent_def lru_get_def om.move_to_end after_key_last)

lemma recent_get_other:
  assumes "recent k e A c" "k' \<noteq> k"
  shows "recent k e (insert k' A) (snd (lru_get now k' c))"
proof -
  have k: "k \<in> set (filter (\<lambda>x. x \<noteq> k') (om_keys (lru_entries c)))"
    using recent_in_keys [OF assms(1)] assms(2) by simp
  show ?thesis
    using assms by (auto simp: recent_def lru_get_def om.move_to_end om.keys_del after_key_filter
      after_key_snoc [OF k] split: option.splits)
qed

lemma evict_keeps_recent:
  assumes "om_ok es" "om_get es k = Some e" "set (after_key k (om_keys es)) \<subseteq> A" "finite A" "int (card A) + 1 < n"
  shows "om_get (lru_evict n es) k = Some e \<and> set (after_key k (om_keys (lru_evict n es))) \<subseteq> A"
proof (cases "int (length es) \<ge> n")
  case True
  have kin: "k \<in> set (om_keys es)" using assms(2) by (simp add: om.keys_get)
  then obtain f ks where ks: "om_keys es = f # ks" by (cases "om_keys es") auto
  have d: "distinct (f # ks)" using assms(1) ks by (simp add: om.ok_distinct)
  have "f \<noteq> k"
  proof
    assume "f = k"
    then have "set ks \<subseteq> A" using assms(3) ks by (simp add: after_key_head)
    then have "card (set ks) \<le> card A" using assms(4) by (simp add: card_mono)
    moreover have "card (set ks) = length ks" using d by (simp add: distinct_card)
    moreover have "length es = length ks + 1" using arg_cong [OF ks, of length] by (simp add: om_keys_def)
    ultimately show False using True assms(5) by simp
  qed
  moreover have "filter (\<lambda>x. x \<noteq> f) ks = ks" using d by (auto simp: filter_id_conv)
  ultimately show ?thesis using True assms(2,3) ks
    by (simp add: lru_evict_def om.keys_del after_key_skip)
qed (use assms in \<open>simp add: lru_evict_def\<close>)

lemma recent_set_other:
  assumes "recent k e A c" "k' \<noteq> k" "finite A" "int (card (insert k' A)) < lru_maxSize c"
  shows "recent k e (insert k' A) (lru_set now k' v c)"
proof -
  let ?d = "om_del k' (lru_entries c)"
  have "set (after_key k (om_keys ?d)) \<subseteq> A - {k'}"
    using assms(1,2) by (auto simp: recent_def om.keys_del after_key_filter)
  moreover have "int (card (A - {k'})) + 1 < lru_maxSize c"
    using assms(3,4) by (simp add: card_insert_if card_Diff_singleton_if split: if_splits)
      (metis One_nat_def card_gt_0_iff Suc_pred empty_iff of_nat_Suc add.commute)
  ultimately have e: "om_get (lru_evict (lru_maxSize c) ?d) k = Some e"
      "set (after_key k (om_keys (lru_evict (lru_maxSize c) ?d))) \<subseteq> A - {k'}"
    using evict_keeps_recent [of ?d k e "A - {k'}" "lru_maxSize c"] assms(1-3) by (auto simp: recent_def)
  have ok: "om_ok (lru_evict (lru_maxSize c) ?d)" using assms(1) by (simp add: recent_def lru_evict_ok)
  have k: "k \<in> set (om_keys (lru_evict (lru_maxSize c) ?d))" using e(1) by (simp add: om.keys_get)
  have "k' \<notin> set (om_keys ?d)" by (simp add: om.keys_del)
  then have "k' \<notin> set (om_keys (lru_evict (lru_maxSize c) ?d))" using lru_evict_keys by blast
  then show ?thesis
    using e ok assms(2) by (auto simp: recent_def lru_set_def om.keys_put after_key_snoc [OF k])
qed

definition undisturbed :: "string \<Rightarrow> int \<Rightarrow> 'v lru_op \<Rightarrow> bool" where
  "undisturbed k expires op \<longleftrightarrow> (case op of Get now k' \<Rightarrow> k' = k \<longrightarrow> now < expires | Set _ k' _ \<Rightarrow> k' \<noteq> k | Clear \<Rightarrow> False)"

definition others :: "string \<Rightarrow> 'v lru_op list \<Rightarrow> string set" where
  "others k ops = \<Union> (op_key ` set ops) - {k}"

lemma others_snoc: "others k (ops @ [op]) = others k ops \<union> (op_key op - {k})"
  by (auto simp: others_def)

lemma finite_op_key [simp]: "finite (op_key op)"
  by (cases op) simp_all

lemma finite_others: "finite (others k ops)"
  by (simp add: others_def)

lemma recent_mono: "recent k e A c \<Longrightarrow> A \<subseteq> B \<Longrightarrow> recent k e B c"
  by (auto simp: recent_def)

lemma recent_run:
  assumes "recent k e {} c" "\<forall>op \<in> set ops. undisturbed k (ce_expiresAt e) op"
    "int (card (others k ops)) < lru_maxSize c"
  shows "recent k e (others k ops) (lru_run ops c)"
  using assms(2,3)
proof (induction ops rule: rev_induct)
  case Nil
  then show ?case using assms(1) by (simp add: lru_run_def others_def)
next
  case (snoc op ops)
  let ?A = "others k ops"
  have "card ?A \<le> card (others k (ops @ [op]))"
    by (rule card_mono) (simp_all add: finite_others others_snoc del: Un_Diff)
  then have r: "recent k e ?A (lru_run ops c)" using snoc by simp
  have u: "undisturbed k (ce_expiresAt e) op" using snoc.prems(1) by simp
  show ?case
  proof (cases "op_key op - {k} = {}")
    case True
    then obtain now where "op = Get now k" "now < ce_expiresAt e"
      using u by (cases op) (auto simp: undisturbed_def)
    then have "recent k e {} (lru_run (ops @ [op]) c)" using recent_get_self(1) [OF r] by (simp add: lru_run_snoc)
    then show ?thesis by (rule recent_mono) simp
  next
    case False
    then obtain k' where k': "op_key op = {k'}" "k' \<noteq> k" by (cases op) auto
    then have o: "others k (ops @ [op]) = insert k' ?A" by (auto simp: others_snoc)
    show ?thesis
    proof (cases op)
      case (Get now k'')
      then show ?thesis unfolding o using recent_get_other [OF r k'(2)] k'(1) by (simp add: lru_run_snoc)
    next
      case (Set now k'' v)
      then show ?thesis unfolding o
        using recent_set_other [OF r k'(2) finite_others] k'(1) snoc.prems(2) [unfolded o] lru_run_params [of ops c]
        by (simp add: lru_run_snoc)
    qed (use k' in simp)
  qed
qed

lemma recent_after_set:
  "lru_ok c \<Longrightarrow> recent k \<lparr>ce_value = v, ce_expiresAt = now + lru_ttl c\<rparr> {} (lru_set now k v c)"
proof -
  assume ok: "lru_ok c"
  let ?d = "lru_evict (lru_maxSize c) (om_del k (lru_entries c))"
  have "om_ok ?d" using ok by (simp add: lru_ok_def lru_evict_ok)
  moreover have "k \<notin> set (om_keys ?d)"
    using lru_evict_keys [of "lru_maxSize c" "om_del k (lru_entries c)"] by (auto simp: om.keys_del)
  ultimately show ?thesis by (simp add: recent_def lru_set_def om.keys_put after_key_last)
qed

section \<open>Property\<close>

text \<open>C14. Over every sequence of operations on a new cache: the cache never holds more than its maximum
  (one, if a smaller maximum was given); a lookup only returns the value most recently stored under
  that key since the last clear, and only before its time to live has passed; and a value is found
  until then, if its key is neither stored again nor looked up too late and fewer than the maximum of
  other keys have been touched since it was stored. A time to live that is not positive is refused.\<close>
theorem lru_cache_guarantee:
  assumes "lru_new ttl maxSize = Inr c0"
  shows "ttl > 0 \<and> int (lru_size (lru_run ops c0)) \<le> max 1 (dflt maxSize 1000) \<and>
    (fst (lru_get now k (lru_run ops c0)) = Some v \<longrightarrow>
      (\<exists>t. last_set ops k = Some (t, v) \<and> now < t + ttl)) \<and>
    (ops = before @ Set t k w # since \<longrightarrow> (\<forall>op \<in> set since. undisturbed k (t + ttl) op) \<longrightarrow>
      int (card (others k since)) < dflt maxSize 1000 \<longrightarrow> now < t + ttl \<longrightarrow>
      fst (lru_get now k (lru_run ops c0)) = Some w)"
proof (intro conjI impI)
  have c0: "ttl > 0" "lru_ok c0" "lru_entries c0 = []" "lru_ttl c0 = ttl" "lru_maxSize c0 = dflt maxSize 1000"
    using assms by (auto simp: lru_new_def lru_ok_def lru_size_def split: if_splits)
  have params: "lru_maxSize (lru_run xs c0) = dflt maxSize 1000 \<and> lru_ttl (lru_run xs c0) = ttl" for xs
    using lru_run_params [of xs c0] c0 by simp
  show "ttl > 0" by (rule c0)
  show "int (lru_size (lru_run ops c0)) \<le> max 1 (dflt maxSize 1000)"
    using lru_run_ok [OF c0(2), of ops] params by (simp add: lru_ok_def)
  show "\<exists>t. last_set ops k = Some (t, v) \<and> now < t + ttl" if g: "fst (lru_get now k (lru_run ops c0)) = Some v"
  proof -
    obtain e where "om_get (lru_entries (lru_run ops c0)) k = Some e" "now < ce_expiresAt e" "v = ce_value e"
      using g by (auto simp: lru_get_def split: option.splits if_splits)
    then show ?thesis using entry_is_last_set [where k = k and ops = ops and c = c0 and e = e] c0 by auto
  qed
  show "fst (lru_get now k (lru_run ops c0)) = Some w"
    if "ops = before @ Set t k w # since" "\<forall>op \<in> set since. undisturbed k (t + ttl) op"
      "int (card (others k since)) < dflt maxSize 1000" "now < t + ttl"
  proof -
    let ?c = "lru_set t k w (lru_run before c0)" and ?e = "\<lparr>ce_value = w, ce_expiresAt = t + ttl\<rparr>"
    have ok: "lru_ok (lru_run before c0)" using c0(2) by (rule lru_run_ok)
    have "recent k ?e {} ?c"
      using recent_after_set [OF ok, where k = k and v = w and now = t] params by simp
    moreover have "lru_maxSize ?c = dflt maxSize 1000" using params by (simp add: lru_set_def)
    ultimately have "recent k ?e (others k since) (lru_run since ?c)"
      using recent_run [where k = k and e = ?e and c = ?c and ops = since] that by simp
    moreover have "lru_run ops c0 = lru_run since ?c" using that(1) by (simp add: lru_run_def)
    ultimately show ?thesis using recent_get_self(2) [where k = k and e = ?e and c = "lru_run since ?c" and now = now] that(4) by simp
  qed
qed

lemma lru_cache_guarantee_witness:
  "fst (lru_get 9 ''a'' (lru_run [Set 0 ''a'' (1 :: nat), Set 1 ''b'' 2, Get 2 ''c'']
    \<lparr>lru_maxSize = 3, lru_ttl = 10, lru_entries = []\<rparr>)) = Some 1"
proof -
  have n: "lru_new 10 (Some 3) = Inr (\<lparr>lru_maxSize = 3, lru_ttl = 10, lru_entries = []\<rparr> :: nat lru)"
    by (simp add: lru_new_def dflt_def)
  show ?thesis
    using lru_cache_guarantee [where now = 9 and k = "''a''" and before = "[]" and t = 0 and w = 1
      and since = "[Set 1 ''b'' 2, Get 2 ''c'']" and ops = "[Set 0 ''a'' (1 :: nat), Set 1 ''b'' 2, Get 2 ''c'']", OF n]
    by (simp add: undisturbed_def others_def dflt_def)
qed

end
