(* ===== verification/AuthHeaders.thy ===== *)
theory AuthHeaders
  imports Prelude Connect
begin

text \<open>
  packages/auth/src/headers.ts: the authentication context written to and read from request headers.
  JSON.stringify and JSON.parse are the two fields of the record json_lib; what the round trip needs
  of them is the predicate json_faithful on the values at hand: parsing what was printed gives it back,
  and the printed text is a header value the platform takes unchanged.
\<close>

section \<open>Names and limits\<close>

definition HDR_SUBJECT :: string where "HDR_SUBJECT = ''x-auth-subject''"
definition HDR_ROLES :: string where "HDR_ROLES = ''x-auth-roles''"
definition HDR_SCOPES :: string where "HDR_SCOPES = ''x-auth-scopes''"
definition HDR_CLAIMS :: string where "HDR_CLAIMS = ''x-auth-claims''"
definition HDR_NAME :: string where "HDR_NAME = ''x-auth-name''"
definition HDR_TYPE :: string where "HDR_TYPE = ''x-auth-type''"

definition AUTH_HEADERS :: "string list" where
  "AUTH_HEADERS = [HDR_SUBJECT, HDR_ROLES, HDR_SCOPES, HDR_CLAIMS, HDR_NAME, HDR_TYPE]"

definition MAX_HEADER_BYTES :: nat where
  "MAX_HEADER_BYTES = 8192"

lemmas hdr_defs = HDR_SUBJECT_def HDR_ROLES_def HDR_SCOPES_def HDR_CLAIMS_def HDR_NAME_def HDR_TYPE_def

lemma hdr_distinct: "distinct (map js_lower AUTH_HEADERS)"
  by code_simp

lemma hdr_neq [simp]:
  "js_lower HDR_SUBJECT \<noteq> js_lower HDR_ROLES" "js_lower HDR_ROLES \<noteq> js_lower HDR_SUBJECT"
  "js_lower HDR_SUBJECT \<noteq> js_lower HDR_SCOPES" "js_lower HDR_SCOPES \<noteq> js_lower HDR_SUBJECT"
  "js_lower HDR_SUBJECT \<noteq> js_lower HDR_CLAIMS" "js_lower HDR_CLAIMS \<noteq> js_lower HDR_SUBJECT"
  "js_lower HDR_SUBJECT \<noteq> js_lower HDR_NAME" "js_lower HDR_NAME \<noteq> js_lower HDR_SUBJECT"
  "js_lower HDR_SUBJECT \<noteq> js_lower HDR_TYPE" "js_lower HDR_TYPE \<noteq> js_lower HDR_SUBJECT"
  "js_lower HDR_ROLES \<noteq> js_lower HDR_SCOPES" "js_lower HDR_SCOPES \<noteq> js_lower HDR_ROLES"
  "js_lower HDR_ROLES \<noteq> js_lower HDR_CLAIMS" "js_lower HDR_CLAIMS \<noteq> js_lower HDR_ROLES"
  "js_lower HDR_ROLES \<noteq> js_lower HDR_NAME" "js_lower HDR_NAME \<noteq> js_lower HDR_ROLES"
  "js_lower HDR_ROLES \<noteq> js_lower HDR_TYPE" "js_lower HDR_TYPE \<noteq> js_lower HDR_ROLES"
  "js_lower HDR_SCOPES \<noteq> js_lower HDR_CLAIMS" "js_lower HDR_CLAIMS \<noteq> js_lower HDR_SCOPES"
  "js_lower HDR_SCOPES \<noteq> js_lower HDR_NAME" "js_lower HDR_NAME \<noteq> js_lower HDR_SCOPES"
  "js_lower HDR_SCOPES \<noteq> js_lower HDR_TYPE" "js_lower HDR_TYPE \<noteq> js_lower HDR_SCOPES"
  "js_lower HDR_CLAIMS \<noteq> js_lower HDR_NAME" "js_lower HDR_NAME \<noteq> js_lower HDR_CLAIMS"
  "js_lower HDR_CLAIMS \<noteq> js_lower HDR_TYPE" "js_lower HDR_TYPE \<noteq> js_lower HDR_CLAIMS"
  "js_lower HDR_NAME \<noteq> js_lower HDR_TYPE" "js_lower HDR_TYPE \<noteq> js_lower HDR_NAME"
  using hdr_distinct by (simp_all add: AUTH_HEADERS_def eq_commute)

record json_lib =
  json_parse :: "string \<Rightarrow> json option"
  json_stringify :: "json \<Rightarrow> string"

section \<open>headers.ts\<close>

definition ctl_char :: "char \<Rightarrow> bool" where
  "ctl_char c \<longleftrightarrow> (let n = (of_char c :: nat) in n \<le> 8 \<or> n = 11 \<or> n = 12 \<or> (14 \<le> n \<and> n \<le> 31) \<or> n = 127)"

definition sanitizeHeaderValue :: "string \<Rightarrow> nat \<Rightarrow> string" where
  "sanitizeHeaderValue v maxLength = take maxLength (filter (\<lambda>c. \<not> ctl_char c) v)"

definition put_short :: "string \<Rightarrow> string \<Rightarrow> headers \<Rightarrow> jserr + headers" where
  "put_short name v h = (if length v \<le> MAX_HEADER_BYTES then hd_set name v h else Inr h)"

definition setAuthHeaders :: "json_lib \<Rightarrow> headers \<Rightarrow> auth_context \<Rightarrow> string list option \<Rightarrow> jserr + headers" where
  "setAuthHeaders lib h context propagatedClaims =
    res_bind (hd_set HDR_SUBJECT (sanitizeHeaderValue (ac_subject context) 512) h) (\<lambda>h.
    res_bind (hd_set HDR_TYPE (sanitizeHeaderValue (ac_type context) 128) h) (\<lambda>h.
    res_bind (case ac_name context of None \<Rightarrow> Inr h
      | Some name \<Rightarrow> if name = [] then Inr h else hd_set HDR_NAME (sanitizeHeaderValue name 256) h) (\<lambda>h.
    res_bind (if ac_roles context \<noteq> []
      then put_short HDR_ROLES (json_stringify lib (JArr (map JStr (ac_roles context)))) h else Inr h) (\<lambda>h.
    res_bind (if ac_scopes context \<noteq> [] then put_short HDR_SCOPES (js_join '' '' (ac_scopes context)) h else Inr h) (\<lambda>h.
    (if ac_claims context \<noteq> [] then
       (let filteredClaims = (case propagatedClaims of None \<Rightarrow> ac_claims context
            | Some ks \<Rightarrow> filter (\<lambda>(k, _). k \<in> set ks) (ac_claims context)) in
        if filteredClaims \<noteq> [] then put_short HDR_CLAIMS (json_stringify lib (JObj filteredClaims)) h else Inr h)
     else Inr h))))))"

fun json_strings :: "json list \<Rightarrow> string list" where
  "json_strings [] = []"
| "json_strings (JStr s # vs) = s # json_strings vs"
| "json_strings (_ # vs) = json_strings vs"

definition truthy :: "string option \<Rightarrow> string option" where
  "truthy v = (case v of None \<Rightarrow> None | Some s \<Rightarrow> if s = [] then None else Some s)"

definition split_words :: "string \<Rightarrow> string list" where
  "split_words s = filter (\<lambda>w. w \<noteq> []) (js_split CHR '' '' s)"

definition parse_roles :: "json_lib \<Rightarrow> string option \<Rightarrow> string list" where
  "parse_roles lib raw = (case truthy raw of None \<Rightarrow> []
    | Some rolesRaw \<Rightarrow> if length rolesRaw \<le> MAX_HEADER_BYTES
        then (case json_parse lib rolesRaw of Some (JArr vs) \<Rightarrow> json_strings vs | _ \<Rightarrow> []) else [])"

definition parse_claims :: "json_lib \<Rightarrow> string option \<Rightarrow> (string \<times> json) list" where
  "parse_claims lib raw = (case truthy raw of None \<Rightarrow> []
    | Some claimsRaw \<Rightarrow> if length claimsRaw > MAX_HEADER_BYTES then []
        else (case json_parse lib claimsRaw of Some (JObj kvs) \<Rightarrow> kvs | _ \<Rightarrow> []))"

definition parse_scopes :: "string option \<Rightarrow> string list" where
  "parse_scopes raw = (case truthy raw of None \<Rightarrow> []
    | Some scopesRaw \<Rightarrow> if length scopesRaw \<le> MAX_HEADER_BYTES then split_words scopesRaw else [])"

definition parseAuthHeaders :: "json_lib \<Rightarrow> headers \<Rightarrow> auth_context option" where
  "parseAuthHeaders lib h = (case truthy (hd_get h HDR_SUBJECT) of
      None \<Rightarrow> None
    | Some subjectHeader \<Rightarrow> Some
        \<lparr>ac_subject = sanitizeHeaderValue subjectHeader 512,
         ac_name = map_option (\<lambda>n. sanitizeHeaderValue n 256) (truthy (hd_get h HDR_NAME)),
         ac_roles = parse_roles lib (hd_get h HDR_ROLES),
         ac_scopes = parse_scopes (hd_get h HDR_SCOPES),
         ac_claims = parse_claims lib (hd_get h HDR_CLAIMS),
         ac_type = (case truthy (hd_get h HDR_TYPE) of None \<Rightarrow> ''unknown'' | Some t \<Rightarrow> sanitizeHeaderValue t 128),
         ac_expiresAt = None\<rparr>)"

section \<open>Values that survive\<close>

definition json_faithful :: "json_lib \<Rightarrow> json \<Rightarrow> bool" where
  "json_faithful lib v \<longleftrightarrow> (let s = json_stringify lib v in
    json_parse lib s = Some v \<and> s \<noteq> [] \<and> hd_value_ok s \<and> hd_normalize s = s)"

definition clean_value :: "nat \<Rightarrow> string \<Rightarrow> bool" where
  "clean_value n s \<longleftrightarrow> s \<noteq> [] \<and> length s \<le> n \<and> list_all (\<lambda>c. \<not> ctl_char c) s \<and> hd_value_ok s \<and>
    \<not> http_ws (hd s) \<and> \<not> http_ws (last s)"

definition clean_word :: "string \<Rightarrow> bool" where
  "clean_word s \<longleftrightarrow> s \<noteq> [] \<and> list_all (\<lambda>c. \<not> http_ws c) s \<and> hd_value_ok s"

lemma clean_value_sanitize: "clean_value n s \<Longrightarrow> sanitizeHeaderValue s n = s"
  by (simp add: clean_value_def sanitizeHeaderValue_def list_all_iff)

lemma hd_set_clean: "clean_value n s \<Longrightarrow> hd_set name s h = Inr (om_set (js_lower name) s h)"
  by (simp add: clean_value_def hd_set_def hd_normalize_id Let_def)

lemma hd_get_om_set [simp]:
  "hd_get (om_set (js_lower n) v h) m = (if js_lower m = js_lower n then Some v else hd_get h m)"
  by (simp add: hd_get_def)

lemma truthy_simps [simp]: "truthy None = None" "s \<noteq> [] \<Longrightarrow> truthy (Some s) = Some s"
  by (simp_all add: truthy_def)

lemma json_strings_map [simp]: "json_strings (map JStr ss) = ss"
  by (induction ss) simp_all

lemma join_clean:
  assumes "ss \<noteq> []" "\<forall>s \<in> set ss. clean_word s"
  shows "js_join '' '' ss \<noteq> [] \<and> hd_value_ok (js_join '' '' ss) \<and> hd_normalize (js_join '' '' ss) = js_join '' '' ss"
proof -
  have "js_join '' '' ss \<noteq> [] \<and> hd_value_ok (js_join '' '' ss) \<and> \<not> http_ws (hd (js_join '' '' ss)) \<and>
      \<not> http_ws (last (js_join '' '' ss))"
    using assms
  proof (induction ss rule: induct_list012)
    case (2 s)
    then show ?case by (cases s) (auto simp: clean_word_def list_all_iff)
  next
    case (3 s s' ss)
    have s: "s \<noteq> []" "hd_value_ok s" "\<not> http_ws (hd s)" using 3(4) by (cases s; simp add: clean_word_def list_all_iff)+
    have "hd_value_ok '' ''" by (simp add: hd_value_ok_def)
    moreover have "js_join '' '' (s' # ss) \<noteq> [] \<and> hd_value_ok (js_join '' '' (s' # ss)) \<and>
      \<not> http_ws (last (js_join '' '' (s' # ss)))" using 3 by simp
    ultimately show ?case using s by (simp add: hd_value_ok_def)
  qed simp
  then show ?thesis by (simp add: hd_normalize_id)
qed

lemma split_words_join:
  assumes "\<forall>s \<in> set ss. clean_word s"
  shows "split_words (js_join '' '' ss) = ss"
proof (cases "ss = []")
  case True
  then show ?thesis by (simp add: split_words_def)
next
  case False
  have "http_ws CHR '' ''" by (simp add: http_ws_def)
  then have "js_split CHR '' '' (js_join '' '' ss) = ss"
    using assms by (intro js_split_join False) (auto simp: clean_word_def list_all_iff)
  moreover have "filter (\<lambda>w. w \<noteq> []) ss = ss" using assms by (auto simp: filter_id_conv clean_word_def)
  ultimately show ?thesis by (simp add: split_words_def)
qed

lemma put_short_step':
  assumes "P \<Longrightarrow> v \<noteq> [] \<and> hd_value_ok v \<and> hd_normalize v = v"
  shows "\<exists>h'. (if P then put_short name v h else Inr h) = Inr h' \<and> (\<forall>m. hd_get h' m =
    (if js_lower m = js_lower name \<and> P \<and> length v \<le> MAX_HEADER_BYTES then Some v else hd_get h m))"
  using assms by (cases P) (auto simp: put_short_def hd_set_def Let_def)

lemma put_short_step:
  assumes "v \<noteq> []" "hd_value_ok v" "hd_normalize v = v"
  shows "\<exists>h'. (if P then put_short name v h else Inr h) = Inr h' \<and> (\<forall>m. hd_get h' m =
    (if js_lower m = js_lower name \<and> P \<and> length v \<le> MAX_HEADER_BYTES then Some v else hd_get h m))"
  using assms by (intro put_short_step') simp

section \<open>Property\<close>

definition header_table :: "json_lib \<Rightarrow> auth_context \<Rightarrow> headers \<Rightarrow> string \<Rightarrow> string option" where
  "header_table lib c h m =
    (let rv = json_stringify lib (JArr (map JStr (ac_roles c))); sv = js_join '' '' (ac_scopes c);
         cv = json_stringify lib (JObj (ac_claims c))
     in if js_lower m = js_lower HDR_CLAIMS \<and> ac_claims c \<noteq> [] \<and> length cv \<le> MAX_HEADER_BYTES then Some cv
     else if js_lower m = js_lower HDR_SCOPES \<and> ac_scopes c \<noteq> [] \<and> length sv \<le> MAX_HEADER_BYTES then Some sv
     else if js_lower m = js_lower HDR_ROLES \<and> ac_roles c \<noteq> [] \<and> length rv \<le> MAX_HEADER_BYTES then Some rv
     else if js_lower m = js_lower HDR_NAME \<and> ac_name c \<noteq> None then ac_name c
     else if js_lower m = js_lower HDR_TYPE then Some (ac_type c)
     else if js_lower m = js_lower HDR_SUBJECT then Some (ac_subject c)
     else hd_get h m)"

lemma name_step:
  assumes "pred_option (clean_value 256) name"
  shows "\<exists>h'. (case name of None \<Rightarrow> Inr h
      | Some n \<Rightarrow> if n = [] then Inr h else hd_set HDR_NAME (sanitizeHeaderValue n 256) h) = Inr h' \<and>
    (\<forall>m. hd_get h' m = (if js_lower m = js_lower HDR_NAME \<and> name \<noteq> None then name else hd_get h m))"
proof (cases name)
  case (Some n)
  then have "clean_value 256 n" using assms by simp
  moreover from this have "n \<noteq> []" by (simp add: clean_value_def)
  ultimately show ?thesis using Some by (simp add: clean_value_sanitize hd_set_clean)
qed simp

lemma setAuthHeaders_table:
  assumes "clean_value 512 (ac_subject c)" "clean_value 128 (ac_type c)" "pred_option (clean_value 256) (ac_name c)"
    "\<forall>s \<in> set (ac_scopes c). clean_word s"
    "json_faithful lib (JArr (map JStr (ac_roles c)))" "json_faithful lib (JObj (ac_claims c))"
  shows "\<exists>h'. setAuthHeaders lib h c None = Inr h' \<and> (\<forall>m. hd_get h' m = header_table lib c h m)"
proof -
  let ?rv = "json_stringify lib (JArr (map JStr (ac_roles c)))" and ?sv = "js_join '' '' (ac_scopes c)"
    and ?cv = "json_stringify lib (JObj (ac_claims c))"
  obtain h1 where h1: "hd_set HDR_SUBJECT (sanitizeHeaderValue (ac_subject c) 512) h = Inr h1"
    and g1: "\<And>m. hd_get h1 m = (if js_lower m = js_lower HDR_SUBJECT then Some (ac_subject c) else hd_get h m)"
    using assms(1) by (simp add: clean_value_sanitize hd_set_clean)
  obtain h2 where h2: "hd_set HDR_TYPE (sanitizeHeaderValue (ac_type c) 128) h1 = Inr h2"
    and g2: "\<And>m. hd_get h2 m = (if js_lower m = js_lower HDR_TYPE then Some (ac_type c) else hd_get h1 m)"
    using assms(2) by (simp add: clean_value_sanitize hd_set_clean)
  obtain h3 where h3: "(case ac_name c of None \<Rightarrow> Inr h2
      | Some name \<Rightarrow> if name = [] then Inr h2 else hd_set HDR_NAME (sanitizeHeaderValue name 256) h2) = Inr h3"
    and g3: "\<And>m. hd_get h3 m = (if js_lower m = js_lower HDR_NAME \<and> ac_name c \<noteq> None then ac_name c else hd_get h2 m)"
    using name_step [OF assms(3)] by blast
  obtain h4 where h4: "(if ac_roles c \<noteq> [] then put_short HDR_ROLES ?rv h3 else Inr h3) = Inr h4"
    and g4: "\<And>m. hd_get h4 m = (if js_lower m = js_lower HDR_ROLES \<and> ac_roles c \<noteq> [] \<and> length ?rv \<le> MAX_HEADER_BYTES
      then Some ?rv else hd_get h3 m)"
    using put_short_step [of ?rv] assms(5) unfolding json_faithful_def Let_def by blast
  obtain h5 where h5: "(if ac_scopes c \<noteq> [] then put_short HDR_SCOPES ?sv h4 else Inr h4) = Inr h5"
    and g5: "\<And>m. hd_get h5 m = (if js_lower m = js_lower HDR_SCOPES \<and> ac_scopes c \<noteq> [] \<and> length ?sv \<le> MAX_HEADER_BYTES
      then Some ?sv else hd_get h4 m)"
    using put_short_step' [of "ac_scopes c \<noteq> []" ?sv] join_clean [of "ac_scopes c"] assms(4) by metis
  obtain h6 where h6: "(if ac_claims c \<noteq> [] then put_short HDR_CLAIMS ?cv h5 else Inr h5) = Inr h6"
    and g6: "\<And>m. hd_get h6 m = (if js_lower m = js_lower HDR_CLAIMS \<and> ac_claims c \<noteq> [] \<and> length ?cv \<le> MAX_HEADER_BYTES
      then Some ?cv else hd_get h5 m)"
    using put_short_step [of ?cv] assms(6) unfolding json_faithful_def Let_def by blast
  have "setAuthHeaders lib h c None = Inr h6"
    using h6 by (simp add: setAuthHeaders_def h1 h2 h3 h4 h5 split: if_splits)
  then show ?thesis by (auto simp: g1 g2 g3 g4 g5 g6 header_table_def Let_def)
qed

lemma written_name:
  assumes "pred_option (clean_value 256) name"
  shows "map_option (\<lambda>n. sanitizeHeaderValue n 256) (truthy name) = name"
proof (cases name)
  case (Some n)
  then have "clean_value 256 n" using assms by simp
  moreover from this have "n \<noteq> []" by (simp add: clean_value_def)
  ultimately show ?thesis using Some by (simp add: clean_value_sanitize)
qed simp

text \<open>C15. Round trip: a context whose subject and type (and name, if it has one) are clean header text
  within their limits and whose scopes are words, written to headers that carry no authentication
  header, is read back as it was, without its expiry; the roles, the scopes and the claims whose text
  is longer than the limit are left out as a whole, never truncated, and no other header changes.\<close>
theorem auth_headers_roundtrip:
  assumes "clean_value 512 (ac_subject c)" "clean_value 128 (ac_type c)" "pred_option (clean_value 256) (ac_name c)"
    "\<forall>s \<in> set (ac_scopes c). clean_word s"
    "json_faithful lib (JArr (map JStr (ac_roles c)))" "json_faithful lib (JObj (ac_claims c))"
    "\<forall>n \<in> set AUTH_HEADERS. hd_get h n = None"
  shows "\<exists>h'. setAuthHeaders lib h c None = Inr h' \<and>
    parseAuthHeaders lib h' = Some (c\<lparr>ac_expiresAt := None,
      ac_roles := (if length (json_stringify lib (JArr (map JStr (ac_roles c)))) \<le> MAX_HEADER_BYTES then ac_roles c else []),
      ac_scopes := (if length (js_join '' '' (ac_scopes c)) \<le> MAX_HEADER_BYTES then ac_scopes c else []),
      ac_claims := (if length (json_stringify lib (JObj (ac_claims c))) \<le> MAX_HEADER_BYTES then ac_claims c else [])\<rparr>) \<and>
    (\<forall>n. js_lower n \<notin> js_lower ` set AUTH_HEADERS \<longrightarrow> hd_get h' n = hd_get h n)"
proof -
  let ?rv = "json_stringify lib (JArr (map JStr (ac_roles c)))" and ?sv = "js_join '' '' (ac_scopes c)"
    and ?cv = "json_stringify lib (JObj (ac_claims c))"
  have json: "json_parse lib ?rv = Some (JArr (map JStr (ac_roles c)))" "json_parse lib ?cv = Some (JObj (ac_claims c))"
      "?rv \<noteq> []" "?cv \<noteq> []"
    using assms(5,6) by (simp_all add: json_faithful_def Let_def)
  obtain h' where h': "setAuthHeaders lib h c None = Inr h'" "\<And>m. hd_get h' m = header_table lib c h m"
    using setAuthHeaders_table [OF assms(1-6)] by blast
  have fresh: "hd_get h HDR_SUBJECT = None" "hd_get h HDR_ROLES = None" "hd_get h HDR_SCOPES = None"
    "hd_get h HDR_CLAIMS = None" "hd_get h HDR_NAME = None" "hd_get h HDR_TYPE = None"
    using assms(7) by (simp_all add: AUTH_HEADERS_def)
  note g = h'(2) header_table_def Let_def fresh
  have words: "truthy (hd_get h' HDR_SUBJECT) = Some (ac_subject c)" "truthy (hd_get h' HDR_TYPE) = Some (ac_type c)"
    using assms(1,2) by (simp_all add: g clean_value_def)
  have "hd_get h' HDR_NAME = ac_name c" by (cases "ac_name c") (simp_all add: g)
  then have name: "map_option (\<lambda>n. sanitizeHeaderValue n 256) (truthy (hd_get h' HDR_NAME)) = ac_name c"
    using written_name [OF assms(3)] by simp
  have roles: "parse_roles lib (hd_get h' HDR_ROLES) = (if length ?rv \<le> MAX_HEADER_BYTES then ac_roles c else [])"
    using json by (simp add: g parse_roles_def)
  have scopes: "parse_scopes (hd_get h' HDR_SCOPES) = (if length ?sv \<le> MAX_HEADER_BYTES then ac_scopes c else [])"
    using join_clean [of "ac_scopes c"] split_words_join [OF assms(4)] assms(4)
    by (cases "ac_scopes c = []") (simp_all add: g parse_scopes_def)
  have claims: "parse_claims lib (hd_get h' HDR_CLAIMS) = (if length ?cv \<le> MAX_HEADER_BYTES then ac_claims c else [])"
    using json by (simp add: g parse_claims_def)
  have "\<forall>n. js_lower n \<notin> js_lower ` set AUTH_HEADERS \<longrightarrow> hd_get h' n = hd_get h n"
    by (simp add: AUTH_HEADERS_def g)
  moreover have "parseAuthHeaders lib h' = Some (c\<lparr>ac_expiresAt := None,
      ac_roles := (if length ?rv \<le> MAX_HEADER_BYTES then ac_roles c else []),
      ac_scopes := (if length ?sv \<le> MAX_HEADER_BYTES then ac_scopes c else []),
      ac_claims := (if length ?cv \<le> MAX_HEADER_BYTES then ac_claims c else [])\<rparr>)"
    using assms(1,2) by (simp add: parseAuthHeaders_def words name roles scopes claims clean_value_sanitize)
  ultimately show ?thesis using h'(1) by blast
qed

definition tiny_json :: json_lib where
  "tiny_json = \<lparr>json_parse = (\<lambda>s. if s = ''[\"r\"]'' then Some (JArr [JStr ''r'']) else if s = ''{}'' then Some (JObj []) else None),
    json_stringify = (\<lambda>v. if v = JArr [JStr ''r''] then ''[\"r\"]'' else ''{}'')\<rparr>"

definition tiny_context :: auth_context where
  "tiny_context = \<lparr>ac_subject = ''u1'', ac_name = Some ''U'', ac_roles = [''r''], ac_scopes = [''a'', ''b''],
    ac_claims = [], ac_type = ''jwt'', ac_expiresAt = Some 5\<rparr>"

lemma auth_headers_roundtrip_witness:
  "\<exists>h'. setAuthHeaders tiny_json [] tiny_context None = Inr h' \<and>
    parseAuthHeaders tiny_json h' = Some (tiny_context\<lparr>ac_expiresAt := None\<rparr>)"
proof -
  have "clean_value 512 (ac_subject tiny_context)" "clean_value 128 (ac_type tiny_context)"
    "pred_option (clean_value 256) (ac_name tiny_context)" "\<forall>s \<in> set (ac_scopes tiny_context). clean_word s"
    "json_faithful tiny_json (JArr (map JStr (ac_roles tiny_context)))"
    "json_faithful tiny_json (JObj (ac_claims tiny_context))" "\<forall>n \<in> set AUTH_HEADERS. hd_get [] n = None"
    by (simp_all add: tiny_context_def tiny_json_def clean_value_def clean_word_def ctl_char_def http_ws_def
      hd_value_ok_def json_faithful_def hd_normalize_def Let_def)
  from auth_headers_roundtrip [OF this] show ?thesis
    by (auto simp: tiny_context_def tiny_json_def MAX_HEADER_BYTES_def)
qed

end
