(* ===== verification/Authn.thy ===== *)
theory Authn
  imports Prelude Connect MethodMatch LruCache AuthHeaders
begin

text \<open>
  Authentication: packages/auth/src/auth-interceptor.ts and session-auth-interceptor.ts. The world of
  an interceptor is a pair of the instance's cache (absent when none is configured) and the world the
  application's callbacks and the handlers change; the clock is read off the latter. The callbacks may
  change both, since other requests are served while one of them is awaited. Running a continuation in
  the AsyncLocalStorage is running it with the field rq_context of the request set.
\<close>

section \<open>Credentials\<close>

definition line_end :: "char \<Rightarrow> bool" where
  "line_end c \<longleftrightarrow> (of_char c :: nat) \<in> {10, 13}"

definition bearer_match :: "string \<Rightarrow> string option" where
  "bearer_match v =
    (let rest = drop 6 v; blanks = takeWhile js_space rest; token = dropWhile js_space rest in
     if js_lower (take 6 v) \<noteq> ''bearer'' \<or> blanks = [] then None
     else if token \<noteq> [] then (if list_ex line_end token then None else Some token)
     else if length blanks \<ge> 2 \<and> \<not> line_end (last blanks) then Some [last blanks]
     else None)"

definition defaultExtractCredentials :: "'m req \<Rightarrow> string option" where
  "defaultExtractCredentials r = (case truthy (hd_get (rq_header r) ''authorization'') of
      None \<Rightarrow> None
    | Some authHeader \<Rightarrow> bearer_match authHeader)"

section \<open>The parts of an interceptor\<close>

type_synonym 's auth_world = "auth_context lru option \<times> 's"

record ('s, 'm) auth_options =
  ai_extractCredentials :: "('m req \<Rightarrow> ('s auth_world, jserr, string option) io) option"
  ai_verifyCredentials :: "string \<Rightarrow> ('s auth_world, jserr, auth_context) io"
  ai_skipMethods :: "string list option"
  ai_propagateHeaders :: "bool option"
  ai_propagatedClaims :: "string list option"

definition new_cache :: "(int \<times> int option) option \<Rightarrow> string + auth_context lru option" where
  "new_cache cacheOptions = (case cacheOptions of
      None \<Rightarrow> Inr None
    | Some (ttl, maxSize) \<Rightarrow> (case lru_new ttl maxSize of Inl e \<Rightarrow> Inl e | Inr c \<Rightarrow> Inr (Some c)))"

definition strip_auth_headers :: "headers \<Rightarrow> headers" where
  "strip_auth_headers h = fold hd_delete AUTH_HEADERS h"

definition cache_lookup :: "('s \<Rightarrow> int) \<Rightarrow> string \<Rightarrow> ('s auth_world, jserr, auth_context option) io" where
  "cache_lookup clock credentials = (\<lambda>(cache, s). case cache of
      None \<Rightarrow> (Inr None, (None, s))
    | Some c \<Rightarrow> (let (found, c') = lru_get (clock s) credentials c in (Inr found, (Some c', s))))"

definition cache_store :: "('s \<Rightarrow> int) \<Rightarrow> string \<Rightarrow> auth_context \<Rightarrow> ('s auth_world, jserr, unit) io" where
  "cache_store clock credentials context = (\<lambda>(cache, s).
    (Inr (), (map_option (lru_set (clock s) credentials context) cache, s)))"

definition read_clock :: "('s \<Rightarrow> int) \<Rightarrow> ('s auth_world, jserr, int) io" where
  "read_clock clock = (\<lambda>(cache, s). (Inr (clock s), (cache, s)))"

definition still_valid :: "int \<Rightarrow> auth_context option \<Rightarrow> auth_context option" where
  "still_valid now cached = (case cached of
      None \<Rightarrow> None
    | Some c \<Rightarrow> (case ac_expiresAt c of None \<Rightarrow> Some c | Some t \<Rightarrow> if t > now then Some c else None))"

definition run_authenticated :: "json_lib \<Rightarrow> bool \<Rightarrow> string list option \<Rightarrow> auth_context \<Rightarrow> ('s, 'm) interceptor" where
  "run_authenticated lib propagateHeaders propagatedClaims context next r =
    io_bind (if propagateHeaders then io_lift (setAuthHeaders lib (rq_header r) context propagatedClaims)
      else io_return (rq_header r))
      (\<lambda>h. next (r\<lparr>rq_header := h, rq_context := Some context\<rparr>))"

section \<open>auth-interceptor.ts\<close>

definition createAuthInterceptor :: "json_lib \<Rightarrow> ('s \<Rightarrow> int) \<Rightarrow> ('s, 'm) auth_options \<Rightarrow> ('s auth_world, 'm) interceptor" where
  "createAuthInterceptor lib clock options next r0 =
    (let extractCredentials = dflt (ai_extractCredentials options) (\<lambda>r. io_return (defaultExtractCredentials r));
         propagateHeaders = dflt (ai_propagateHeaders options) False;
         run = run_authenticated lib propagateHeaders (ai_propagatedClaims options);
         r = r0\<lparr>rq_header := strip_auth_headers (rq_header r0)\<rparr>
     in if matchesMethodPattern (rq_service r) (rq_method r) (dflt (ai_skipMethods options) []) then next r
        else io_bind (extractCredentials r) (\<lambda>extracted. case truthy extracted of
            None \<Rightarrow> io_throw (connect_error ''Missing credentials'' code_Unauthenticated)
          | Some credentials \<Rightarrow>
              io_bind (cache_lookup clock credentials) (\<lambda>cached.
              io_bind (read_clock clock) (\<lambda>now. case still_valid now cached of
                  Some context \<Rightarrow> run context next r
                | None \<Rightarrow>
                    io_bind (io_catch (ai_verifyCredentials options credentials) (\<lambda>err.
                        if is_connect_error err then io_throw err
                        else io_throw (connect_error ''Authentication failed'' code_Unauthenticated))) (\<lambda>authContext.
                    io_bind (cache_store clock credentials authContext) (\<lambda>_.
                      run authContext next r))))))"

section \<open>session-auth-interceptor.ts\<close>

record ('s, 'm, 'v) session_options =
  si_verifySession :: "string \<Rightarrow> headers \<Rightarrow> ('s auth_world, jserr, 'v) io"
  si_mapSession :: "'v \<Rightarrow> ('s auth_world, jserr, auth_context) io"
  si_extractToken :: "('m req \<Rightarrow> ('s auth_world, jserr, string option) io) option"
  si_skipMethods :: "string list option"
  si_propagateHeaders :: "bool option"
  si_propagatedClaims :: "string list option"

definition createSessionAuthInterceptor :: "json_lib \<Rightarrow> ('s \<Rightarrow> int) \<Rightarrow> ('s, 'm, 'v) session_options \<Rightarrow>
    ('s auth_world, 'm) interceptor" where
  "createSessionAuthInterceptor lib clock options next r0 =
    (let extractToken = dflt (si_extractToken options) (\<lambda>r. io_return (defaultExtractCredentials r));
         propagateHeaders = dflt (si_propagateHeaders options) False;
         run = run_authenticated lib propagateHeaders (si_propagatedClaims options);
         r = r0\<lparr>rq_header := strip_auth_headers (rq_header r0)\<rparr>
     in if matchesMethodPattern (rq_service r) (rq_method r) (dflt (si_skipMethods options) []) then next r
        else io_bind (extractToken r) (\<lambda>extracted. case truthy extracted of
            None \<Rightarrow> io_throw (connect_error ''Missing credentials'' code_Unauthenticated)
          | Some tok \<Rightarrow>
              io_bind (cache_lookup clock tok) (\<lambda>cached.
              io_bind (read_clock clock) (\<lambda>now. case still_valid now cached of
                  Some context \<Rightarrow> run context next r
                | None \<Rightarrow>
                    io_bind (io_catch (si_verifySession options tok (rq_header r)) (\<lambda>err.
                        if is_connect_error err then io_throw err
                        else io_throw (connect_error ''Session verification failed'' code_Unauthenticated))) (\<lambda>session.
                    io_bind (io_catch (si_mapSession options session) (\<lambda>err.
                        if is_connect_error err then io_throw err
                        else io_throw (connect_error ''Session mapping failed'' code_Unauthenticated))) (\<lambda>authContext.
                    io_bind (cache_store clock tok authContext) (\<lambda>_.
                      run authContext next r)))))))"

section \<open>What reaches the continuation\<close>

definition held_in :: "(string \<Rightarrow> auth_context \<Rightarrow> bool) \<Rightarrow> 's auth_world \<Rightarrow> bool" where
  "held_in P w \<longleftrightarrow> pred_option (lru.all_held P) (fst w)"

definition keeps :: "('w \<Rightarrow> bool) \<Rightarrow> ('w, 'e, 'a) io \<Rightarrow> bool" where
  "keeps I m \<longleftrightarrow> (\<forall>w. I w \<longrightarrow> I (snd (m w)))"

lemma cache_lookup_held: "held_in P w \<Longrightarrow> held_in P (snd (cache_lookup clock k w))"
  using lru.all_held_get [of P] by (auto simp: held_in_def cache_lookup_def split: prod.splits option.splits)
    (metis snd_conv)

lemma cache_lookup_hit:
  assumes "held_in P w" "cache_lookup clock k w = (Inr (Some c), w')"
  shows "P k c"
  using assms lru.hit_satisfies [of P _ _ k c]
  by (auto simp: held_in_def cache_lookup_def split: prod.splits option.splits)

lemma cache_lookup_total: "\<exists>v s'. cache_lookup clock k w = (Inr v, s') \<and> snd s' = snd w"
  by (cases w; cases "fst w") (auto simp: cache_lookup_def split: prod.splits)

lemma cache_store_held: "held_in P w \<Longrightarrow> P k c \<Longrightarrow> held_in P (snd (cache_store clock k c w))"
  by (cases w; cases "fst w") (auto simp: held_in_def cache_store_def lru.all_held_put)

lemma still_valid_Some:
  "still_valid now cached = Some c \<longleftrightarrow> cached = Some c \<and> (case ac_expiresAt c of None \<Rightarrow> True | Some t \<Rightarrow> now < t)"
  by (auto simp: still_valid_def split: option.splits if_splits)

definition reaches_with :: "('s, 'm) interceptor \<Rightarrow> 'm req \<Rightarrow> 's \<Rightarrow> 'm req \<Rightarrow> 's \<Rightarrow> bool" where
  "reaches_with i r w r' w' \<longleftrightarrow> (\<forall>next. i next r w = next r' w')"

definition refuses_with :: "('s, 'm) interceptor \<Rightarrow> 'm req \<Rightarrow> 's \<Rightarrow> jserr \<Rightarrow> 's \<Rightarrow> bool" where
  "refuses_with i r w e w' \<longleftrightarrow> (\<forall>next. i next r w = (Inl e, w'))"

lemma strip_auth_headers_get [simp]:
  "hd_get (strip_auth_headers h) n = (if js_lower n \<in> js_lower ` set AUTH_HEADERS then None else hd_get h n)"
  by (simp add: strip_auth_headers_def hd_get_fold_delete)

definition downstream :: "json_lib \<Rightarrow> bool \<Rightarrow> string list option \<Rightarrow> auth_context \<Rightarrow> 'm req \<Rightarrow> 'm req \<Rightarrow> bool" where
  "downstream lib propagate claims context r r' \<longleftrightarrow> (\<exists>h.
    (if propagate then setAuthHeaders lib (strip_auth_headers (rq_header r)) context claims = Inr h
     else h = strip_auth_headers (rq_header r)) \<and>
    r' = r\<lparr>rq_header := h, rq_context := Some context\<rparr>)"

lemma run_authenticated_cases:
  fixes r :: "'m req" and w :: 's
  shows "(\<exists>r'. reaches_with (run_authenticated lib propagate claims ctx)
      (r\<lparr>rq_header := strip_auth_headers (rq_header r)\<rparr>) w r' w \<and> downstream lib propagate claims ctx r r') \<or>
    (\<exists>e. refuses_with (run_authenticated lib propagate claims ctx :: ('s, 'm) interceptor)
      (r\<lparr>rq_header := strip_auth_headers (rq_header r)\<rparr>) w e w)"
proof (cases propagate)
  case True
  show ?thesis
    by (cases "setAuthHeaders lib (strip_auth_headers (rq_header r)) ctx claims")
      (simp_all add: True run_authenticated_def reaches_with_def refuses_with_def downstream_def io_bind_def)
next
  case False
  then show ?thesis by (simp add: run_authenticated_def reaches_with_def refuses_with_def downstream_def)
qed

definition verifier_ok :: "(string \<Rightarrow> auth_context \<Rightarrow> bool) \<Rightarrow> (string \<Rightarrow> ('s auth_world, jserr, auth_context) io) \<Rightarrow> bool" where
  "verifier_ok P verify \<longleftrightarrow> (\<forall>k w. held_in P w \<longrightarrow> held_in P (snd (verify k w)) \<and>
    (\<forall>c. fst (verify k w) = Inr c \<longrightarrow> P k c))"

definition extractor :: "('s, 'm) auth_options \<Rightarrow> 'm req \<Rightarrow> ('s auth_world, jserr, string option) io" where
  "extractor options = dflt (ai_extractCredentials options) (\<lambda>r. io_return (defaultExtractCredentials r))"

definition auth_stage2 :: "json_lib \<Rightarrow> ('s \<Rightarrow> int) \<Rightarrow> ('s, 'm) auth_options \<Rightarrow> string \<Rightarrow> ('s auth_world, 'm) interceptor" where
  "auth_stage2 lib clock options credentials next r =
    io_bind (cache_lookup clock credentials) (\<lambda>cached.
    io_bind (read_clock clock) (\<lambda>now. case still_valid now cached of
        Some context \<Rightarrow> run_authenticated lib (dflt (ai_propagateHeaders options) False) (ai_propagatedClaims options) context next r
      | None \<Rightarrow>
          io_bind (io_catch (ai_verifyCredentials options credentials) (\<lambda>err.
              if is_connect_error err then io_throw err
              else io_throw (connect_error ''Authentication failed'' code_Unauthenticated))) (\<lambda>authContext.
          io_bind (cache_store clock credentials authContext) (\<lambda>_.
            run_authenticated lib (dflt (ai_propagateHeaders options) False) (ai_propagatedClaims options) authContext next r))))"

definition good_reach :: "json_lib \<Rightarrow> ('s \<Rightarrow> int) \<Rightarrow> ('s, 'm) auth_options \<Rightarrow> (string \<Rightarrow> auth_context \<Rightarrow> bool) \<Rightarrow>
    string \<Rightarrow> 'm req \<Rightarrow> 'm req \<Rightarrow> 's auth_world \<Rightarrow> bool" where
  "good_reach lib clock options P k r r' w' \<longleftrightarrow> (\<exists>c. held_in P w' \<and> P k c \<and>
    downstream lib (dflt (ai_propagateHeaders options) False) (ai_propagatedClaims options) c r r' \<and>
    ((case ac_expiresAt c of None \<Rightarrow> True | Some t \<Rightarrow> clock (snd w') < t) \<or>
     (\<exists>u. fst (ai_verifyCredentials options k u) = Inr c)))"

lemma authenticated_sound:
  fixes i :: "('s auth_world, 'm) interceptor" and options :: "('s, 'm) auth_options" and r :: "'m req"
  defines "rs \<equiv> r\<lparr>rq_header := strip_auth_headers (rq_header r)\<rparr>"
  assumes s: "\<And>next. i next rs w =
      run_authenticated lib (dflt (ai_propagateHeaders options) False) (ai_propagatedClaims options) c next rs w1"
    and held: "held_in P w1" and c: "P k c"
      "(case ac_expiresAt c of None \<Rightarrow> True | Some t \<Rightarrow> clock (snd w1) < t) \<or>
       (\<exists>u. fst (ai_verifyCredentials options k u) = Inr c)"
  shows "(\<exists>e w'. refuses_with i rs w e w' \<and> held_in P w') \<or>
    (\<exists>r' w'. reaches_with i rs w r' w' \<and> good_reach lib clock options P k r r' w')"
proof -
  let ?run = "run_authenticated lib (dflt (ai_propagateHeaders options) False) (ai_propagatedClaims options) c
    :: ('s auth_world, 'm) interceptor"
  consider r' where "reaches_with ?run rs w1 r' w1"
      "downstream lib (dflt (ai_propagateHeaders options) False) (ai_propagatedClaims options) c r r'"
    | e where "refuses_with ?run rs w1 e w1"
    using run_authenticated_cases [where r = r and w = w1 and propagate = "dflt (ai_propagateHeaders options) False"
      and claims = "ai_propagatedClaims options" and ctx = c and lib = lib] unfolding rs_def by blast
  then show ?thesis
  proof cases
    case 1
    then have "reaches_with i rs w r' w1" using s by (simp add: reaches_with_def)
    moreover have "good_reach lib clock options P k r r' w1" using 1(2) held c unfolding good_reach_def by blast
    ultimately show ?thesis by blast
  next
    case 2
    then have "refuses_with i rs w e w1" using s by (simp add: refuses_with_def)
    then show ?thesis using held by blast
  qed
qed

lemma auth_stage2_sound:
  fixes w :: "'s auth_world" and options :: "('s, 'm) auth_options" and r :: "'m req"
  assumes "held_in P w" "verifier_ok P (ai_verifyCredentials options)"
  defines "rs \<equiv> r\<lparr>rq_header := strip_auth_headers (rq_header r)\<rparr>"
  shows "(\<exists>e w'. refuses_with (auth_stage2 lib clock options k) rs w e w' \<and> held_in P w') \<or>
    (\<exists>r' w'. reaches_with (auth_stage2 lib clock options k) rs w r' w' \<and> good_reach lib clock options P k r r' w')"
proof -
  let ?run = "run_authenticated lib (dflt (ai_propagateHeaders options) False) (ai_propagatedClaims options)"
  obtain cached w1 where l: "cache_lookup clock k w = (Inr cached, w1)" "snd w1 = snd w"
    using cache_lookup_total by blast
  have h1: "held_in P w1" using cache_lookup_held [OF assms(1), of clock k] l by simp
  have rc: "read_clock clock w1 = (Inr (clock (snd w1)), w1)" by (simp add: read_clock_def split_beta)
  show ?thesis
  proof (cases "still_valid (clock (snd w1)) cached")
    case (Some c)
    then have v: "cached = Some c" "case ac_expiresAt c of None \<Rightarrow> True | Some t \<Rightarrow> clock (snd w1) < t"
      by (simp_all add: still_valid_Some)
    have P: "P k c" using cache_lookup_hit [OF assms(1)] l v(1) by blast
    have s: "auth_stage2 lib clock options k next rs w = ?run c next rs w1" for "next"
      using l rc Some by (simp add: auth_stage2_def io_bind_def)
    show ?thesis unfolding rs_def
      by (rule authenticated_sound [where c = c and ?w1.0 = w1])
        (use s [unfolded rs_def] h1 P v(2) in \<open>simp_all only: simp_thms\<close>)
  next
    case None
    obtain res w2 where ver: "ai_verifyCredentials options k w1 = (res, w2)" by (cases "ai_verifyCredentials options k w1")
    have h2: "held_in P w2" "\<And>c. res = Inr c \<Longrightarrow> P k c"
      using assms(2) h1 ver unfolding verifier_ok_def by (metis snd_conv, metis fst_conv)
    show ?thesis
    proof (cases res)
      case (Inl e)
      then have "auth_stage2 lib clock options k next rs w = (Inl (if is_connect_error e then e
          else connect_error ''Authentication failed'' code_Unauthenticated), w2)" for "next"
        using l rc None ver by (simp add: auth_stage2_def io_bind_def io_catch_def)
      then show ?thesis using h2(1) unfolding refuses_with_def by blast
    next
      case (Inr c)
      let ?w3 = "snd (cache_store clock k c w2)"
      have h3: "held_in P ?w3" using cache_store_held h2 Inr by blast
      have s: "auth_stage2 lib clock options k next rs w = ?run c next rs ?w3" for "next"
        using l rc None ver Inr by (simp add: auth_stage2_def io_bind_def io_catch_def) (simp add: cache_store_def split_beta)
      have "\<exists>u. fst (ai_verifyCredentials options k u) = Inr c" using ver Inr by (intro exI [of _ w1]) simp
      then show ?thesis unfolding rs_def
        by (intro authenticated_sound [where c = c and ?w1.0 = ?w3])
          (use s [unfolded rs_def] h3 h2(2) [OF Inr] in \<open>simp_all only: simp_thms\<close>)
    qed
  qed
qed

lemma auth_outcome:
  fixes options :: "('s, 'm) auth_options" and w :: "'s auth_world"
  assumes "held_in P w" "verifier_ok P (ai_verifyCredentials options)" "\<forall>r. keeps (held_in P) (extractor options r)"
  shows "let i = createAuthInterceptor lib clock options; stripped = r\<lparr>rq_header := strip_auth_headers (rq_header r)\<rparr> in
    if matchesMethodPattern (rq_service r) (rq_method r) (dflt (ai_skipMethods options) [])
    then reaches_with i r w stripped w
    else (\<exists>e w'. refuses_with i r w e w' \<and> held_in P w') \<or>
      (\<exists>k r' w'. k \<noteq> [] \<and> fst (extractor options stripped w) = Inr (Some k) \<and>
        reaches_with i r w r' w' \<and> good_reach lib clock options P k r r' w')"
proof -
  let ?rs = "r\<lparr>rq_header := strip_auth_headers (rq_header r)\<rparr>"
  let ?i = "createAuthInterceptor lib clock options"
  obtain res w1 where x: "extractor options ?rs w = (res, w1)" by (cases "extractor options ?rs w")
  have h1: "held_in P w1" using assms(1,3) x unfolding keeps_def by (metis snd_conv)
  show ?thesis
  proof (cases "matchesMethodPattern (rq_service r) (rq_method r) (dflt (ai_skipMethods options) [])")
    case True
    then show ?thesis by (simp add: Let_def reaches_with_def createAuthInterceptor_def)
  next
    case no_skip: False
    have i: "?i next r w = (case res of Inl e \<Rightarrow> (Inl e, w1)
        | Inr v \<Rightarrow> (case truthy v of None \<Rightarrow> (Inl (connect_error ''Missing credentials'' code_Unauthenticated), w1)
          | Some k \<Rightarrow> auth_stage2 lib clock options k next ?rs w1))" for "next"
      using no_skip x by (simp add: createAuthInterceptor_def extractor_def Let_def io_bind_def [of "dflt _ _ _"] auth_stage2_def
        split: sum.split option.split)
    show ?thesis
    proof (cases "\<exists>k. res = Inr (Some k) \<and> k \<noteq> []")
      case True
      then obtain k where k: "res = Inr (Some k)" "k \<noteq> []" by blast
      have "?i next r w = auth_stage2 lib clock options k next ?rs w1" for "next"
        using i k by simp
      then show ?thesis
        using auth_stage2_sound [where lib = lib and clock = clock and k = k and r = r, OF h1 assms(2)] no_skip x k
        unfolding Let_def refuses_with_def reaches_with_def by auto
    next
      case False
      then have "\<exists>e. refuses_with ?i r w e w1"
        unfolding refuses_with_def i by (cases res) (auto simp: truthy_def split: option.split)
      then show ?thesis using h1 unfolding Let_def if_not_P [OF no_skip] by blast
    qed
  qed
qed

section \<open>Properties\<close>


definition session_verify :: "('s, 'm, 'v) session_options \<Rightarrow> headers \<Rightarrow> string \<Rightarrow> ('s auth_world, jserr, auth_context) io" where
  "session_verify options h tok =
    io_bind (io_catch (si_verifySession options tok h) (\<lambda>err.
      if is_connect_error err then io_throw err
      else io_throw (connect_error ''Session verification failed'' code_Unauthenticated))) (\<lambda>session.
    io_catch (si_mapSession options session) (\<lambda>err.
      if is_connect_error err then io_throw err
      else io_throw (connect_error ''Session mapping failed'' code_Unauthenticated)))"

definition as_auth_options :: "('s, 'm, 'v) session_options \<Rightarrow> headers \<Rightarrow> ('s, 'm) auth_options" where
  "as_auth_options options h = \<lparr>ai_extractCredentials = si_extractToken options,
    ai_verifyCredentials = session_verify options h, ai_skipMethods = si_skipMethods options,
    ai_propagateHeaders = si_propagateHeaders options, ai_propagatedClaims = si_propagatedClaims options\<rparr>"

lemma as_auth_sel:
  "ai_extractCredentials (as_auth_options options h) = si_extractToken options"
  "ai_verifyCredentials (as_auth_options options h) = session_verify options h"
  "ai_skipMethods (as_auth_options options h) = si_skipMethods options"
  "ai_propagateHeaders (as_auth_options options h) = si_propagateHeaders options"
  "ai_propagatedClaims (as_auth_options options h) = si_propagatedClaims options"
  by (simp_all add: as_auth_options_def)

lemma session_verify_errors: "fst (session_verify options h tok w) = Inl e \<Longrightarrow> is_connect_error e"
  by (auto simp: session_verify_def io_bind_def io_catch_def split: prod.splits sum.splits if_splits)

lemma catch_connect_only:
  assumes "\<And>w e. fst (m w) = Inl e \<Longrightarrow> is_connect_error e"
  shows "io_catch m (\<lambda>err. if is_connect_error err then io_throw err else f err) = m"
proof
  fix w
  show "io_catch m (\<lambda>err. if is_connect_error err then io_throw err else f err) w = m w"
    using assms [of w] by (auto simp: io_catch_def split: prod.split sum.split)
qed

text \<open>The session interceptor is the authentication interceptor whose verifier verifies the session
  with the token and the stripped headers and then maps it: with every continuation, on every request
  and in every world the two give the same result and leave the same world, cache included; and every
  error that leaves this verifier is a ConnectError.\<close>
theorem session_auth_is_auth:
  "createSessionAuthInterceptor lib clock options next r =
    createAuthInterceptor lib clock (as_auth_options options (strip_auth_headers (rq_header r))) next r \<and>
  (\<forall>tok w. case fst (session_verify options (strip_auth_headers (rq_header r)) tok w) of
     Inl e \<Rightarrow> is_connect_error e | Inr _ \<Rightarrow> True)"
proof
  let ?h = "strip_auth_headers (rq_header r)"
  have "io_bind (io_catch (session_verify options ?h tok) (\<lambda>err. if is_connect_error err then io_throw err else f err)) g
      = io_bind (session_verify options ?h tok) g" for tok f g
    using catch_connect_only [of "session_verify options ?h tok" f] session_verify_errors [of options ?h tok] by simp
  note e = this
  have hd: "rq_header (r\<lparr>rq_header := ?h\<rparr>) = ?h" by simp
  show "createSessionAuthInterceptor lib clock options next r =
      createAuthInterceptor lib clock (as_auth_options options ?h) next r"
    unfolding createSessionAuthInterceptor_def createAuthInterceptor_def as_auth_sel Let_def e
    unfolding hd session_verify_def io_bind_assoc by (rule refl)
  show "\<forall>tok w. case fst (session_verify options ?h tok w) of Inl e \<Rightarrow> is_connect_error e | Inr _ \<Rightarrow> True"
    by (auto split: sum.split dest: session_verify_errors)
qed

definition sample_auth :: "(unit, unit) auth_options" where
  "sample_auth = \<lparr>ai_extractCredentials = None,
    ai_verifyCredentials = (\<lambda>k. if k = ''t'' then io_return \<lparr>ac_subject = ''u'', ac_name = None, ac_roles = [],
      ac_scopes = [], ac_claims = [], ac_type = ''jwt'', ac_expiresAt = None\<rparr> else io_throw (plain_error ''bad'')),
    ai_skipMethods = None, ai_propagateHeaders = None, ai_propagatedClaims = None\<rparr>"

definition sample_request :: "unit req" where
  "sample_request = \<lparr>rq_stream = False, rq_url = [], rq_service = ''a.A'', rq_method = ''Get'',
    rq_header = [(''authorization'', ''Bearer t'')], rq_context = None, rq_message = ()\<rparr>"


end
