(* ===== verification/Gateway.thy ===== *)
theory Gateway
  imports Prelude Connect MethodMatch AuthHeaders Authn "HOL-Library.Word"
begin

unbundle bit_operations_syntax

text \<open>
  packages/auth/src/gateway-auth-interceptor.ts: trusting a gateway by a header value or by an IPv4
  address range. The two conversions from text to numbers are written out: js_octet is isValidOctet of
  Number applied to a piece of an address (pieces hold no dot, so the only fractions come from a
  negative exponent; the value of such a piece is the double nearest to it), and js_parseInt is
  Number.parseInt in base ten. Addresses and masks are 32-bit words, as JavaScript's bit operations
  make them.
\<close>

section \<open>Numbers from text\<close>

definition digit_value :: "char \<Rightarrow> nat" where
  "digit_value c = (let n = (of_char c :: nat) in
    if 48 \<le> n \<and> n \<le> 57 then n - 48 else if 97 \<le> n \<and> n \<le> 102 then n - 87
    else if 65 \<le> n \<and> n \<le> 70 then n - 55 else 99)"

definition digits_in :: "nat \<Rightarrow> string \<Rightarrow> bool" where
  "digits_in base s \<longleftrightarrow> s \<noteq> [] \<and> list_all (\<lambda>c. digit_value c < base) s"

definition digits_value :: "nat \<Rightarrow> string \<Rightarrow> nat" where
  "digits_value base s = foldl (\<lambda>n c. n * base + digit_value c) 0 s"

fun log2 :: "nat \<Rightarrow> nat" where
  "log2 n = (if n < 2 then 0 else Suc (log2 (n div 2)))"

declare log2.simps [simp del]

definition rounds_to :: "nat \<Rightarrow> nat \<Rightarrow> nat \<Rightarrow> bool" where
  "rounds_to m d k \<longleftrightarrow>
    (if k = 0 then m * 2 ^ 1075 \<le> 10 ^ d
     else (let f = log2 k; below = (if k = 2 ^ f then 2 ^ f else 2 ^ Suc f) in
       m * 2 ^ 54 \<le> (k * 2 ^ 54 + 2 ^ Suc f) * 10 ^ d \<and> (k * 2 ^ 54 - below) * 10 ^ d \<le> m * 2 ^ 54))"

definition scaled_octet :: "nat \<Rightarrow> int \<Rightarrow> nat option" where
  "scaled_octet m e =
    (if e \<ge> 0 then (if m * 10 ^ nat e \<le> 255 then Some (m * 10 ^ nat e) else None)
     else find (rounds_to m (nat (- e))) [0..<256])"

definition signed_digits :: "string \<Rightarrow> int option" where
  "signed_digits s = (case s of
      CHR ''+'' # ds \<Rightarrow> if digits_in 10 ds then Some (int (digits_value 10 ds)) else None
    | CHR ''-'' # ds \<Rightarrow> if digits_in 10 ds then Some (- int (digits_value 10 ds)) else None
    | ds \<Rightarrow> if digits_in 10 ds then Some (int (digits_value 10 ds)) else None)"

definition decimal_octet :: "string \<Rightarrow> nat option" where
  "decimal_octet s =
    (let ds = takeWhile (\<lambda>c. digit_value c < 10) s; rest = dropWhile (\<lambda>c. digit_value c < 10) s in
     if ds = [] then None
     else (case rest of
         [] \<Rightarrow> scaled_octet (digits_value 10 ds) 0
       | c # ex \<Rightarrow> if c \<in> {CHR ''e'', CHR ''E''}
           then (case signed_digits ex of None \<Rightarrow> None | Some e \<Rightarrow> scaled_octet (digits_value 10 ds) e)
           else None))"

definition based_octet :: "nat \<Rightarrow> string \<Rightarrow> nat option" where
  "based_octet base ds =
    (if digits_in base ds \<and> digits_value base ds \<le> 255 then Some (digits_value base ds) else None)"

definition js_octet :: "string \<Rightarrow> nat option" where
  "js_octet s = (let t = js_trim s in
    if t = [] then Some 0
    else if take 2 t \<in> {''0x'', ''0X''} then based_octet 16 (drop 2 t)
    else if take 2 t \<in> {''0o'', ''0O''} then based_octet 8 (drop 2 t)
    else if take 2 t \<in> {''0b'', ''0B''} then based_octet 2 (drop 2 t)
    else if hd t = CHR ''+'' then decimal_octet (tl t)
    else if hd t = CHR ''-'' then (if decimal_octet (tl t) = Some 0 then Some 0 else None)
    else decimal_octet t)"

definition js_parseInt :: "string \<Rightarrow> int option" where
  "js_parseInt s =
    (let t = dropWhile js_space s;
         neg = (t \<noteq> [] \<and> hd t = CHR ''-'');
         body = (if t \<noteq> [] \<and> (hd t = CHR ''-'' \<or> hd t = CHR ''+'') then tl t else t);
         ds = takeWhile (\<lambda>c. digit_value c < 10) body
     in if ds = [] then None else Some (if neg then - int (digits_value 10 ds) else int (digits_value 10 ds)))"

section \<open>Address ranges\<close>

definition ip_word :: "nat list \<Rightarrow> 32 word" where
  "ip_word os = push_bit 24 (word_of_nat (os ! 0)) OR push_bit 16 (word_of_nat (os ! 1)) OR
    push_bit 8 (word_of_nat (os ! 2)) OR word_of_nat (os ! 3)"

definition prefix_mask :: "int \<Rightarrow> 32 word" where
  "prefix_mask len = (if len = 0 then 0 else push_bit (nat (32 - len)) (NOT 0))"

definition octets :: "string list \<Rightarrow> nat list option" where
  "octets parts = (if list_all (\<lambda>p. js_octet p \<noteq> None) parts then Some (map (the \<circ> js_octet) parts) else None)"

definition matchesIp :: "string \<Rightarrow> string \<Rightarrow> bool" where
  "matchesIp address pattern =
    (if address = pattern then True
     else if CHR ''/'' \<in> set pattern then
       (let parts = js_split CHR ''/'' pattern; network = parts ! 0; prefixStr = parts ! 1 in
        if network = [] \<or> prefixStr = [] then False
        else (case js_parseInt prefixStr of
            None \<Rightarrow> False
          | Some len \<Rightarrow>
             if len < 0 \<or> len > 32 then False
             else (let peerParts = js_split CHR ''.'' address; networkParts = js_split CHR ''.'' network in
               if length peerParts \<noteq> 4 \<or> length networkParts \<noteq> 4 then False
               else (case (octets peerParts, octets networkParts) of
                   (Some ps, Some ns) \<Rightarrow> ip_word ps AND prefix_mask len = ip_word ns AND prefix_mask len
                 | _ \<Rightarrow> False))))
     else False)"

fun isTrusted :: "string \<Rightarrow> string list \<Rightarrow> bool" where
  "isTrusted headerValue [] = False"
| "isTrusted headerValue (expected # es) =
    (if headerValue = expected then True
     else if CHR ''/'' \<in> set expected \<and> matchesIp headerValue expected then True
     else isTrusted headerValue es)"

section \<open>The interceptor\<close>

record header_mapping =
  hm_subject :: string
  hm_name :: "string option"
  hm_roles :: "string option"
  hm_scopes :: "string option"
  hm_type :: "string option"
  hm_claims :: "string option"

record gateway_options =
  gw_headerMapping :: header_mapping
  gw_trustHeader :: string
  gw_expectedValues :: "string list"
  gw_stripHeaders :: "string list option"
  gw_skipMethods :: "string list option"
  gw_propagateHeaders :: "bool option"
  gw_defaultType :: "string option"

definition headersToStrip :: "gateway_options \<Rightarrow> string option list" where
  "headersToStrip options = (let m = gw_headerMapping options in
    [Some (hm_subject m), hm_name m, hm_roles m, hm_scopes m, hm_type m, hm_claims m, Some (gw_trustHeader options)]
    @ map Some (dflt (gw_stripHeaders options) []))"

fun stripGatewayHeaders :: "string option list \<Rightarrow> headers \<Rightarrow> headers" where
  "stripGatewayHeaders [] h = h"
| "stripGatewayHeaders (n # ns) h =
    stripGatewayHeaders ns (case truthy n of None \<Rightarrow> h | Some name \<Rightarrow> hd_delete name h)"

definition mapped_header :: "headers \<Rightarrow> string option \<Rightarrow> string option" where
  "mapped_header h name = (case truthy name of None \<Rightarrow> None | Some n \<Rightarrow> hd_get h n)"

definition gateway_roles :: "json_lib \<Rightarrow> string option \<Rightarrow> string list" where
  "gateway_roles lib raw = (case truthy raw of None \<Rightarrow> []
    | Some rolesRaw \<Rightarrow> (case json_parse lib rolesRaw of
        Some (JArr vs) \<Rightarrow> json_strings vs
      | Some _ \<Rightarrow> []
      | None \<Rightarrow> filter (\<lambda>r. r \<noteq> []) (map js_trim (js_split CHR '','' rolesRaw))))"

definition gateway_scopes :: "string option \<Rightarrow> string list" where
  "gateway_scopes raw = (case truthy raw of None \<Rightarrow> [] | Some scopesRaw \<Rightarrow> split_words scopesRaw)"

definition gateway_context :: "json_lib \<Rightarrow> gateway_options \<Rightarrow> headers \<Rightarrow> string \<Rightarrow> auth_context" where
  "gateway_context lib options h subject =
    (let m = gw_headerMapping options; defaultType = dflt (gw_defaultType options) ''gateway'' in
     \<lparr>ac_subject = subject,
      ac_name = mapped_header h (hm_name m),
      ac_roles = gateway_roles lib (mapped_header h (hm_roles m)),
      ac_scopes = gateway_scopes (mapped_header h (hm_scopes m)),
      ac_claims = parse_claims lib (mapped_header h (hm_claims m)),
      ac_type = dflt (mapped_header h (hm_type m)) defaultType,
      ac_expiresAt = None\<rparr>)"

definition gateway_interceptor :: "json_lib \<Rightarrow> gateway_options \<Rightarrow> ('s, 'm) interceptor" where
  "gateway_interceptor lib options next r =
    (let strip = stripGatewayHeaders (headersToStrip options) in
     if matchesMethodPattern (rq_service r) (rq_method r) (dflt (gw_skipMethods options) [])
     then next (r\<lparr>rq_header := strip (rq_header r)\<rparr>)
     else (case truthy (hd_get (rq_header r) (gw_trustHeader options)) of
         None \<Rightarrow> io_throw (connect_error ''Untrusted request source'' code_Unauthenticated)
       | Some trustHeaderValue \<Rightarrow>
           if \<not> isTrusted trustHeaderValue (gw_expectedValues options)
           then io_throw (connect_error ''Untrusted request source'' code_Unauthenticated)
           else (case truthy (hd_get (rq_header r) (hm_subject (gw_headerMapping options))) of
               None \<Rightarrow> io_throw (connect_error ''Missing subject header from gateway'' code_Unauthenticated)
             | Some subject \<Rightarrow>
                 let context = gateway_context lib options (rq_header r) subject in
                 run_authenticated lib (dflt (gw_propagateHeaders options) False) None context next
                   (r\<lparr>rq_header := strip (rq_header r)\<rparr>))))"

definition createGatewayAuthInterceptor :: "json_lib \<Rightarrow> gateway_options \<Rightarrow> jserr + ('s, 'm) interceptor" where
  "createGatewayAuthInterceptor lib options =
    (if hm_subject (gw_headerMapping options) = []
     then Inl (plain_error ''@connectum/auth: Gateway auth requires headerMapping.subject'')
     else if gw_expectedValues options = []
     then Inl (plain_error ''@connectum/auth: Gateway auth requires non-empty trustSource.expectedValues'')
     else Inr (gateway_interceptor lib options))"

section \<open>Decimal text\<close>

lemma digit_value_digit: "d < 10 \<Longrightarrow> digit_value (char_of (48 + d)) = d"
  by (simp add: digit_value_def Let_def of_char_of take_bit_eq_mod)

lemma show_nat_digits:
  "digits_in 10 (show_nat n) \<and> digits_value 10 (show_nat n) = n"
proof (induction n rule: show_nat.induct)
  case (1 n)
  show ?case
  proof (cases "n < 10")
    case True
    then have "show_nat n = [char_of (48 + n)]" by (simp add: show_nat.simps)
    then show ?thesis using True by (simp add: digits_in_def digits_value_def digit_value_digit)
  next
    case False
    then have "show_nat n = show_nat (n div 10) @ [char_of (48 + n mod 10)]" by (simp add: show_nat.simps [of n])
    then show ?thesis using 1 False by (simp add: digits_in_def digits_value_def digit_value_digit)
  qed
qed

lemma digit_chars:
  assumes "digit_value c < 10"
  shows "\<not> js_space c" "c \<noteq> CHR ''+''" "c \<noteq> CHR ''-''" "c \<noteq> CHR ''.''" "c \<noteq> CHR ''/''" "c \<noteq> CHR ''x''"
    "c \<noteq> CHR ''X''" "c \<noteq> CHR ''o''" "c \<noteq> CHR ''O''" "c \<noteq> CHR ''b''" "c \<noteq> CHR ''B''"
  using assms by (auto simp: digit_value_def js_space_def Let_def split: if_splits)

lemma digits_all: "digits_in 10 s \<Longrightarrow> c \<in> set s \<Longrightarrow> digit_value c < 10"
  by (simp add: digits_in_def list_all_iff)

lemma js_trim_digits:
  assumes "digits_in 10 s"
  shows "js_trim s = s"
proof -
  have ne: "s \<noteq> []" using assms by (simp add: digits_in_def)
  then have "\<not> js_space (hd s)" "\<not> js_space (last s)"
    using digit_chars(1) digits_all [OF assms] by simp_all
  then show ?thesis using ne by (simp add: js_trim_def dropWhile_id hd_rev)
qed

lemma js_octet_digits:
  assumes "digits_in 10 s" "digits_value 10 s \<le> 255"
  shows "js_octet s = Some (digits_value 10 s)"
proof -
  have ne: "s \<noteq> []" using assms(1) by (simp add: digits_in_def)
  have all: "\<forall>c \<in> set s. digit_value c < 10" using digits_all [OF assms(1)] by blast
  have second: "take 2 s \<notin> {[a, c] | a. True}" if "\<not> digit_value c < 10" for c
    using all that by (cases s; cases "tl s") auto
  have "take 2 s \<notin> {''0x'', ''0X''}" "take 2 s \<notin> {''0o'', ''0O''}" "take 2 s \<notin> {''0b'', ''0B''}"
    using second [of "CHR ''x''"] second [of "CHR ''X''"] second [of "CHR ''o''"] second [of "CHR ''O''"]
      second [of "CHR ''b''"] second [of "CHR ''B''"]
    by (auto simp: digit_value_def)
  moreover have "hd s \<noteq> CHR ''+''" "hd s \<noteq> CHR ''-''" using digit_chars(2,3) all ne by (metis hd_in_set)+
  moreover have tw: "takeWhile (\<lambda>c. digit_value c < 10) s = s" and dw: "dropWhile (\<lambda>c. digit_value c < 10) s = []"
    using all by (simp_all add: takeWhile_eq_all_conv dropWhile_eq_Nil_conv)
  have "decimal_octet s = Some (digits_value 10 s)"
    unfolding decimal_octet_def tw dw using assms(2) ne by (simp add: scaled_octet_def)
  ultimately show ?thesis using js_trim_digits [OF assms(1)] ne by (simp add: js_octet_def Let_def)
qed

lemma js_parseInt_digits:
  assumes "digits_in 10 s"
  shows "js_parseInt s = Some (int (digits_value 10 s))"
proof -
  have ne: "s \<noteq> []" using assms by (simp add: digits_in_def)
  have all: "\<forall>c \<in> set s. digit_value c < 10" using digits_all [OF assms] by blast
  then obtain c u where cu: "s = c # u" "digit_value c < 10" using ne by (cases s) auto
  have dw: "dropWhile js_space s = s" using cu digit_chars(1) by simp
  have tw: "takeWhile (\<lambda>c. digit_value c < 10) s = s" using all by (simp add: takeWhile_eq_all_conv)
  have hd: "hd s \<noteq> CHR ''-''" "hd s \<noteq> CHR ''+''" using cu digit_chars(2,3) [OF cu(2)] by simp_all
  have body: "(if s \<noteq> [] \<and> (hd s = CHR ''-'' \<or> hd s = CHR ''+'') then tl s else s) = s" using hd by simp
  show ?thesis unfolding js_parseInt_def Let_def dw body tw using ne hd by simp
qed

section \<open>Addresses\<close>

definition ipv4 :: "nat list \<Rightarrow> string" where
  "ipv4 os = js_join ''.'' (map show_nat os)"

lemma show_nat_no_sep: "CHR ''.'' \<notin> set (show_nat n)" "CHR ''/'' \<notin> set (show_nat n)"
  using digit_chars(4,5) show_nat_digits [of n] digits_all by blast+

lemma split_ipv4:
  assumes "os \<noteq> []"
  shows "js_split CHR ''.'' (ipv4 os) = map show_nat os"
  unfolding ipv4_def by (rule js_split_join) (use assms show_nat_no_sep(1) in auto)

lemma octets_ipv4:
  assumes "\<forall>x \<in> set os. x < 256"
  shows "octets (map show_nat os) = Some os"
proof -
  have "js_octet (show_nat x) = Some x" if "x \<in> set os" for x
    using js_octet_digits [of "show_nat x"] show_nat_digits [of x] assms that by fastforce
  then show ?thesis by (auto simp: octets_def list_all_iff intro!: map_idI)
qed

lemma no_slash_join: "CHR ''/'' \<notin> set (js_join ''.'' (map show_nat os))"
proof (induction os rule: induct_list012)
  case (3 x y zs)
  then show ?case using show_nat_no_sep(2) [of x] by simp
qed (simp_all add: show_nat_no_sep)

lemma mask_eq_iff:
  fixes a b :: "32 word"
  assumes "n \<le> 32"
  shows "a AND prefix_mask (int n) = b AND prefix_mask (int n) \<longleftrightarrow>
    (\<forall>i. 32 - n \<le> i \<and> i < 32 \<longrightarrow> (bit a i \<longleftrightarrow> bit b i))"
proof -
  have "bit (prefix_mask (int n)) i \<longleftrightarrow> 32 - n \<le> i \<and> i < 32" for i
  proof (cases "n = 0")
    case False
    have n: "nat (32 - int n) = 32 - n" by simp
    show ?thesis unfolding prefix_mask_def n using False assms
      by (auto simp: bit_push_bit_iff not_less simp del: push_bit_minus_one_eq_not_mask push_bit_minus_one)
  qed (simp add: prefix_mask_def)
  then show ?thesis by (auto simp: bit_eq_iff bit_and_iff)
qed

section \<open>Properties\<close>



lemma stripGatewayHeaders_get:
  "hd_get (stripGatewayHeaders ns h) m =
    (if \<exists>n. Some n \<in> set ns \<and> n \<noteq> [] \<and> js_lower m = js_lower n then None else hd_get h m)"
proof (induction ns arbitrary: h)
  case (Cons n ns)
  then show ?case by (cases n) (auto simp: truthy_def)
qed simp

definition gateway_admits :: "gateway_options \<Rightarrow> 'm req \<Rightarrow> string \<Rightarrow> bool" where
  "gateway_admits options r subject \<longleftrightarrow>
    (\<exists>v. hd_get (rq_header r) (gw_trustHeader options) = Some v \<and> v \<noteq> [] \<and> isTrusted v (gw_expectedValues options)) \<and>
    hd_get (rq_header r) (hm_subject (gw_headerMapping options)) = Some subject \<and> subject \<noteq> []"

lemma truthy_iff: "truthy v = Some s \<longleftrightarrow> v = Some s \<and> s \<noteq> []"
  by (auto simp: truthy_def split: option.splits)

lemma truthy_None: "truthy v = None \<longleftrightarrow> v = None \<or> v = Some []"
  by (auto simp: truthy_def split: option.splits)

lemma gateway_created:
  "createGatewayAuthInterceptor lib options = Inr i \<longleftrightarrow>
    hm_subject (gw_headerMapping options) \<noteq> [] \<and> gw_expectedValues options \<noteq> [] \<and> i = gateway_interceptor lib options"
  by (auto simp: createGatewayAuthInterceptor_def)

lemma gateway_skips:
  assumes "matchesMethodPattern (rq_service r) (rq_method r) (dflt (gw_skipMethods options) [])"
  shows "reaches_with (gateway_interceptor lib options) r s
    (r\<lparr>rq_header := stripGatewayHeaders (headersToStrip options) (rq_header r)\<rparr>) s"
  using assms by (simp add: reaches_with_def gateway_interceptor_def)

lemma gateway_admitted:
  assumes "\<not> matchesMethodPattern (rq_service r) (rq_method r) (dflt (gw_skipMethods options) [])"
    and "gateway_admits options r subject"
  shows "gateway_interceptor lib options next r s = run_authenticated lib (dflt (gw_propagateHeaders options) False) None
    (gateway_context lib options (rq_header r) subject) next
    (r\<lparr>rq_header := stripGatewayHeaders (headersToStrip options) (rq_header r)\<rparr>) s"
  using assms by (auto simp: gateway_admits_def gateway_interceptor_def Let_def)

lemma gateway_refuses:
  assumes "\<not> matchesMethodPattern (rq_service r) (rq_method r) (dflt (gw_skipMethods options) [])"
    and "\<forall>subject. \<not> gateway_admits options r subject"
  shows "\<exists>e. je_code e = Some code_Unauthenticated \<and> refuses_with (gateway_interceptor lib options) r s e s"
proof (cases "truthy (hd_get (rq_header r) (gw_trustHeader options))")
  case None
  then show ?thesis using assms(1) by (simp add: refuses_with_def gateway_interceptor_def Let_def)
next
  case (Some v)
  have "isTrusted v (gw_expectedValues options) \<Longrightarrow> truthy (hd_get (rq_header r) (hm_subject (gw_headerMapping options))) = None"
    using assms(2) Some
    by (cases "truthy (hd_get (rq_header r) (hm_subject (gw_headerMapping options)))") (auto simp: gateway_admits_def truthy_iff)
  then show ?thesis using assms(1) Some
    by (cases "isTrusted v (gw_expectedValues options)") (simp_all add: refuses_with_def gateway_interceptor_def Let_def)
qed


definition sample_gateway :: gateway_options where
  "sample_gateway = \<lparr>gw_headerMapping = \<lparr>hm_subject = ''x-sub'', hm_name = None, hm_roles = None, hm_scopes = None,
      hm_type = None, hm_claims = None\<rparr>,
    gw_trustHeader = ''x-gw'', gw_expectedValues = [''key''], gw_stripHeaders = None, gw_skipMethods = None,
    gw_propagateHeaders = None, gw_defaultType = None\<rparr>"


end
