(* ===== verification/Jwt.thy ===== *)
theory Jwt
  imports Prelude Connect AuthHeaders Authn
begin

text \<open>
  packages/auth/src/jwt-auth-interceptor.ts. The library jose is a parameter: verification of a token
  against a key under given options is a computation that throws or yields the verified payload. A
  payload keeps the registered claims at the types jose declares for them (exp in seconds) and the
  whole claims object. The keys of a claim path are taken not to be names that Object.prototype holds.
\<close>

section \<open>What the library is given and gives\<close>

datatype one_or_many = One string | Many "string list"
datatype token_age = AgeNumber int | AgeText string

record verify_options =
  vo_issuer :: "one_or_many option"
  vo_audience :: "one_or_many option"
  vo_algorithms :: "string list option"
  vo_maxTokenAge :: "token_age option"

record jwt_payload =
  jp_iss :: "string option"
  jp_sub :: "string option"
  jp_exp :: "int option"
  jp_claims :: "(string \<times> json) list"

datatype 'k key_source = JwksKey string | PublicKey 'k | SecretKey string

type_synonym ('s, 'k) jose_verify = "'k key_source \<Rightarrow> verify_options \<Rightarrow> string \<Rightarrow> ('s, jserr, jwt_payload) io"

section \<open>Claims\<close>

definition array_get :: "json list \<Rightarrow> string \<Rightarrow> json option" where
  "array_get vs key = (case find (\<lambda>i. show_nat i = key) [0..<length vs] of
      Some i \<Rightarrow> Some (vs ! i)
    | None \<Rightarrow> if key = ''length'' then Some (JNum (show_nat (length vs))) else None)"

fun nested_get :: "json option \<Rightarrow> string list \<Rightarrow> json option" where
  "nested_get current [] = current"
| "nested_get current (key # ks) = (case current of
      Some (JObj kvs) \<Rightarrow> nested_get (om_get kvs key) ks
    | Some (JArr vs) \<Rightarrow> nested_get (array_get vs key) ks
    | _ \<Rightarrow> None)"

definition getNestedValue :: "(string \<times> json) list \<Rightarrow> string \<Rightarrow> json option" where
  "getNestedValue obj path = nested_get (Some (JObj obj)) (js_split CHR ''.'' path)"

record claims_mapping =
  cm_subject :: "string option"
  cm_name :: "string option"
  cm_roles :: "string option"
  cm_scopes :: "string option"

record mapped_claims =
  mc_subject :: "string option"
  mc_name :: "string option"
  mc_roles :: "string list option"
  mc_scopes :: "string list option"

definition claim_at :: "(string \<times> json) list \<Rightarrow> string option \<Rightarrow> json option" where
  "claim_at claims path = (case truthy path of None \<Rightarrow> None | Some p \<Rightarrow> getNestedValue claims p)"

definition as_string :: "json option \<Rightarrow> string option" where
  "as_string v = (case v of Some (JStr s) \<Rightarrow> Some s | _ \<Rightarrow> None)"

definition as_strings :: "json option \<Rightarrow> string list option" where
  "as_strings v = (case v of Some (JArr vs) \<Rightarrow> Some (json_strings vs) | _ \<Rightarrow> None)"

definition as_scopes :: "json option \<Rightarrow> string list option" where
  "as_scopes v = (case v of Some (JStr s) \<Rightarrow> Some (split_words s) | _ \<Rightarrow> as_strings v)"

definition mapClaimsToContext :: "jwt_payload \<Rightarrow> claims_mapping \<Rightarrow> mapped_claims" where
  "mapClaimsToContext payload mapping = (let claims = jp_claims payload in
    \<lparr>mc_subject = as_string (claim_at claims (cm_subject mapping)),
     mc_name = as_string (claim_at claims (cm_name mapping)),
     mc_roles = as_strings (claim_at claims (cm_roles mapping)),
     mc_scopes = as_scopes (claim_at claims (cm_scopes mapping))\<rparr>)"

section \<open>Keys\<close>

definition getMinHmacKeyBytes :: "string list option \<Rightarrow> nat" where
  "getMinHmacKeyBytes algorithms = (case algorithms of
      None \<Rightarrow> 32
    | Some as \<Rightarrow> if ''HS512'' \<in> set as then 64 else if ''HS384'' \<in> set as then 48 else 32)"

definition utf8_length :: "string \<Rightarrow> nat" where
  "utf8_length s = sum_list (map (\<lambda>c. if (of_char c :: nat) < 128 then 1 else 2) s)"

record 'k jwt_options =
  jo_jwksUri :: "string option"
  jo_secret :: "string option"
  jo_publicKey :: "'k option"
  jo_issuer :: "one_or_many option"
  jo_audience :: "one_or_many option"
  jo_algorithms :: "string list option"
  jo_claimsMapping :: "claims_mapping option"
  jo_maxTokenAge :: "token_age option"
  jo_skipMethods :: "string list option"
  jo_propagateHeaders :: "bool option"

definition buildVerifier :: "(string \<Rightarrow> bool) \<Rightarrow> 'k jwt_options \<Rightarrow> jserr + 'k key_source" where
  "buildVerifier url_ok options = (case truthy (jo_jwksUri options) of
      Some uri \<Rightarrow> if url_ok uri then Inr (JwksKey uri) else Inl (type_error ''Invalid URL'')
    | None \<Rightarrow> (case jo_publicKey options of
        Some key \<Rightarrow> Inr (PublicKey key)
      | None \<Rightarrow> (case truthy (jo_secret options) of
          Some secret \<Rightarrow>
            if utf8_length secret < getMinHmacKeyBytes (jo_algorithms options)
            then Inl (plain_error (''@connectum/auth: HMAC secret must be at least '' @
              show_nat (getMinHmacKeyBytes (jo_algorithms options)) @ '' bytes''))
            else Inr (SecretKey secret)
        | None \<Rightarrow> Inl (plain_error
            ''@connectum/auth: JWT interceptor requires one of: jwksUri, secret, or publicKey''))))"

definition truthy_names :: "one_or_many option \<Rightarrow> one_or_many option" where
  "truthy_names v = (if v = Some (One []) then None else v)"

definition truthy_age :: "token_age option \<Rightarrow> token_age option" where
  "truthy_age v = (if v \<in> {Some (AgeNumber 0), Some (AgeText [])} then None else v)"

definition jwt_verify_options :: "'k jwt_options \<Rightarrow> verify_options" where
  "jwt_verify_options options = \<lparr>vo_issuer = truthy_names (jo_issuer options),
    vo_audience = truthy_names (jo_audience options), vo_algorithms = jo_algorithms options,
    vo_maxTokenAge = truthy_age (jo_maxTokenAge options)\<rparr>"

definition expiry_ms :: "int option \<Rightarrow> int option" where
  "expiry_ms e = (case e of None \<Rightarrow> None | Some t \<Rightarrow> if t = 0 then None else Some (t * 1000))"

definition or_else :: "'a option \<Rightarrow> 'a option \<Rightarrow> 'a option" where
  "or_else a b = (case a of None \<Rightarrow> b | Some _ \<Rightarrow> a)"

definition jwt_context :: "claims_mapping \<Rightarrow> jwt_payload \<Rightarrow> jserr + auth_context" where
  "jwt_context mapping payload =
    (let mapped = mapClaimsToContext payload mapping; claims = jp_claims payload in
     case or_else (mc_subject mapped) (jp_sub payload) of
       None \<Rightarrow> Inl (connect_error ''JWT missing subject claim'' code_Unauthenticated)
     | Some subject \<Rightarrow> Inr
         \<lparr>ac_subject = subject,
          ac_name = or_else (mc_name mapped) (as_string (om_get claims ''name'')),
          ac_roles = dflt (mc_roles mapped) [],
          ac_scopes = dflt (mc_scopes mapped)
            (case as_string (om_get claims ''scope'') of None \<Rightarrow> [] | Some s \<Rightarrow> split_words s),
          ac_claims = claims,
          ac_type = ''jwt'',
          ac_expiresAt = expiry_ms (jp_exp payload)\<rparr>)"

definition no_mapping :: claims_mapping where
  "no_mapping = \<lparr>cm_subject = None, cm_name = None, cm_roles = None, cm_scopes = None\<rparr>"

definition jwt_auth_options :: "('s auth_world, 'k) jose_verify \<Rightarrow> 'k key_source \<Rightarrow> 'k jwt_options \<Rightarrow>
    ('s, 'm) auth_options" where
  "jwt_auth_options jose key options = \<lparr>ai_extractCredentials = None,
    ai_verifyCredentials = (\<lambda>tok. io_bind (jose key (jwt_verify_options options) tok) (\<lambda>payload.
      io_lift (jwt_context (dflt (jo_claimsMapping options) no_mapping) payload))),
    ai_skipMethods = jo_skipMethods options, ai_propagateHeaders = jo_propagateHeaders options,
    ai_propagatedClaims = None\<rparr>"

definition createJwtAuthInterceptor :: "json_lib \<Rightarrow> ('s \<Rightarrow> int) \<Rightarrow> ('s auth_world, 'k) jose_verify \<Rightarrow>
    (string \<Rightarrow> bool) \<Rightarrow> 'k jwt_options \<Rightarrow> jserr + ('s auth_world, 'm) interceptor" where
  "createJwtAuthInterceptor lib clock jose url_ok options = (case buildVerifier url_ok options of
      Inl e \<Rightarrow> Inl e
    | Inr key \<Rightarrow> Inr (createAuthInterceptor lib clock (jwt_auth_options jose key options)))"

section \<open>The context a token gives\<close>

definition verified_by :: "('s auth_world, 'k) jose_verify \<Rightarrow> 'k key_source \<Rightarrow> verify_options \<Rightarrow> claims_mapping \<Rightarrow>
    string \<Rightarrow> auth_context \<Rightarrow> bool" where
  "verified_by jose key vo mapping tok c \<longleftrightarrow>
    (\<exists>payload w. fst (jose key vo tok w) = Inr payload \<and> jwt_context mapping payload = Inr c)"

definition key_ok :: "'k jwt_options \<Rightarrow> 'k key_source \<Rightarrow> bool" where
  "key_ok options key \<longleftrightarrow> (case key of
      JwksKey uri \<Rightarrow> jo_jwksUri options = Some uri
    | PublicKey k \<Rightarrow> jo_publicKey options = Some k
    | SecretKey s \<Rightarrow> jo_secret options = Some s \<and> (\<forall>alg bytes.
        (alg, bytes) \<in> {(''HS256'', 32), (''HS384'', 48), (''HS512'', 64)} \<and>
        alg \<in> set (dflt (jo_algorithms options) [''HS256'']) \<longrightarrow> bytes \<le> utf8_length s))"

lemma buildVerifier_key_ok: "buildVerifier url_ok options = Inr key \<Longrightarrow> key_ok options key"
  by (auto simp: buildVerifier_def key_ok_def truthy_def getMinHmacKeyBytes_def dflt_def
    split: option.splits if_splits)

lemma jwt_verifier_sound:
  assumes "fst (ai_verifyCredentials (jwt_auth_options jose key options) tok w) = Inr c"
  shows "verified_by jose key (jwt_verify_options options) (dflt (jo_claimsMapping options) no_mapping) tok c"
proof -
  obtain payload where "fst (jose key (jwt_verify_options options) tok w) = Inr payload"
    "jwt_context (dflt (jo_claimsMapping options) no_mapping) payload = Inr c"
    using assms by (auto simp: jwt_auth_options_def io_bind_def split: prod.splits sum.splits)
  then show ?thesis unfolding verified_by_def by blast
qed

lemma jwt_context_fields:
  assumes "jwt_context mapping payload = Inr c"
  shows "ac_claims c = jp_claims payload" "ac_type c = ''jwt''" "ac_expiresAt c = expiry_ms (jp_exp payload)"
    "or_else (mc_subject (mapClaimsToContext payload mapping)) (jp_sub payload) = Some (ac_subject c)"
  using assms by (auto simp: jwt_context_def Let_def split: option.splits)

text \<open>JWT authentication: the interceptor is only created with a key taken from the options, and with
  an HMAC secret only if the secret has the number of bytes that every HMAC algorithm allowed by the
  options asks for. On a call that is not skipped the continuation is not run, or runs with a context
  computed from a payload that the library verified with that key, under the issuer, audience,
  algorithms and age of the options, from the very bearer token the request carried: its claims are the
  payload's, its subject is the mapped claim or else the sub claim, and its expiry is the exp claim.\<close>
theorem jwt_auth_uses_verified_payload:
  fixes r :: "'m req" and s :: 's and jose :: "('s auth_world, 'k) jose_verify"
  assumes "createJwtAuthInterceptor lib clock jose url_ok options = Inr i"
    "\<forall>key vo tok w. fst (snd (jose key vo tok w)) = fst w"
    "\<not> matchesMethodPattern (rq_service r) (rq_method r) (dflt (jo_skipMethods options) [])"
  shows "\<exists>key. key_ok options key \<and>
    ((\<exists>e w. refuses_with i r (None, s) e w) \<or>
     (\<exists>tok payload w c r' w'. defaultExtractCredentials r = Some tok \<and>
        fst (jose key (jwt_verify_options options) tok w) = Inr payload \<and>
        reaches_with i r (None, s) r' w' \<and> rq_context r' = Some c \<and>
        ac_claims c = jp_claims payload \<and> ac_expiresAt c = expiry_ms (jp_exp payload) \<and>
        or_else (mc_subject (mapClaimsToContext payload (dflt (jo_claimsMapping options) no_mapping)))
          (jp_sub payload) = Some (ac_subject c)))"
proof -
  obtain key where key: "buildVerifier url_ok options = Inr key"
    and i: "i = createAuthInterceptor lib clock (jwt_auth_options jose key options)"
    using assms(1) by (auto simp: createJwtAuthInterceptor_def split: sum.splits)
  let ?o = "jwt_auth_options jose key options :: ('s, 'm) auth_options"
  let ?P = "verified_by jose key (jwt_verify_options options) (dflt (jo_claimsMapping options) no_mapping)"
  have h: "held_in ?P (None, s)" by (simp add: held_in_def)
  have cache: "fst (snd (ai_verifyCredentials ?o tok w)) = fst w" for tok w
    using assms(2) [rule_format, of key "jwt_verify_options options" tok w]
    by (auto simp: jwt_auth_options_def io_bind_def split: prod.splits sum.splits)
  have v: "verifier_ok ?P (ai_verifyCredentials ?o)"
    using cache jwt_verifier_sound unfolding verifier_ok_def held_in_def by metis
  have x: "\<forall>r. keeps (held_in ?P) (extractor ?o r)"
    by (simp add: keeps_def extractor_def jwt_auth_options_def dflt_def)
  have n: "\<not> matchesMethodPattern (rq_service r) (rq_method r) (dflt (ai_skipMethods ?o) [])"
    using assms(3) by (simp add: jwt_auth_options_def)
  let ?rs = "r\<lparr>rq_header := strip_auth_headers (rq_header r)\<rparr>"
  have "js_lower ''authorization'' \<notin> js_lower ` set AUTH_HEADERS" by code_simp
  then have tok: "fst (extractor ?o ?rs w) = Inr (Some k) \<longleftrightarrow> defaultExtractCredentials r = Some k" for w k
    by (simp add: extractor_def jwt_auth_options_def dflt_def defaultExtractCredentials_def)
  from auth_outcome [where lib = lib and clock = clock and r = r, OF h v x]
  have "(\<exists>e w'. refuses_with i r (None, s) e w') \<or>
      (\<exists>k r' w'. defaultExtractCredentials r = Some k \<and> reaches_with i r (None, s) r' w' \<and>
        good_reach lib clock ?o ?P k r r' w')"
    unfolding Let_def if_not_P [OF n] tok i by blast
  then show ?thesis
  proof
    assume "\<exists>k r' w'. defaultExtractCredentials r = Some k \<and> reaches_with i r (None, s) r' w' \<and>
        good_reach lib clock ?o ?P k r r' w'"
    then obtain k r' w' c where k: "defaultExtractCredentials r = Some k" "reaches_with i r (None, s) r' w'"
      and c: "?P k c" "rq_context r' = Some c"
      by (auto simp: good_reach_def downstream_def)
    from c(1) obtain payload w where p: "fst (jose key (jwt_verify_options options) k w) = Inr payload"
      "jwt_context (dflt (jo_claimsMapping options) no_mapping) payload = Inr c"
      unfolding verified_by_def by blast
    show ?thesis
      using k c(2) p jwt_context_fields [OF p(2)] buildVerifier_key_ok [OF key] by blast
  qed (use buildVerifier_key_ok [OF key] in blast)
qed

definition sample_jwt :: "unit jwt_options" where
  "sample_jwt = \<lparr>jo_jwksUri = None, jo_secret = None, jo_publicKey = Some (), jo_issuer = None, jo_audience = None,
    jo_algorithms = None, jo_claimsMapping = None, jo_maxTokenAge = None, jo_skipMethods = None, jo_propagateHeaders = None\<rparr>"

lemma jwt_auth_uses_verified_payload_witness:
  "\<exists>i :: (unit auth_world, unit) interceptor.
    createJwtAuthInterceptor tiny_json (\<lambda>_. 0) (\<lambda>_ _ _. io_throw (plain_error ''expired'')) (\<lambda>_. True) sample_jwt = Inr i \<and>
    (\<exists>e w. refuses_with i sample_request (None, ()) e w)"
proof -
  let ?jose = "\<lambda>_ _ _. io_throw (plain_error ''expired'') :: (unit auth_world, jserr, jwt_payload) io"
  obtain i :: "(unit auth_world, unit) interceptor" where
    i: "createJwtAuthInterceptor tiny_json (\<lambda>_. 0) ?jose (\<lambda>_. True) sample_jwt = Inr i"
    by (simp add: createJwtAuthInterceptor_def sample_jwt_def buildVerifier_def)
  have "\<not> matchesMethodPattern (rq_service sample_request) (rq_method sample_request) (dflt (jo_skipMethods sample_jwt) [])"
    by (simp add: sample_jwt_def dflt_def)
  from jwt_auth_uses_verified_payload [where s = "()", OF i _ this] i show ?thesis by auto
qed

end
