(* ===== verification/InternalAuth.thy ===== *)
theory InternalAuth
  imports Prelude Connect MethodMatch AuthHeaders Authn Jwt
begin

text \<open>
  packages/auth/src/internal-auth-interceptor.ts: trust between services. A trust source takes the
  request's headers, may change them in place whether or not it throws, and yields a context or null.
  The library jose (decodeJwt and jwtVerify against the remote key set at a URL) and the SHA-256 digest
  are parameters. packages/auth/src/client-bearer-interceptor.ts and client-gateway-interceptor.ts, the
  sending side, are here too.

  The locale stripping_source states what the interceptor relies on of a trust source it ships with:
  the header that carries the marker is gone afterwards, no other header changes, and the source does
  not throw. It is interpreted on the three sources of the file.
\<close>

section \<open>The interceptor\<close>

type_synonym 's trust_source = "headers \<Rightarrow> 's \<Rightarrow> (jserr + auth_context option) \<times> headers \<times> 's"

record 's internal_options =
  ia_trustSource :: "'s trust_source"
  ia_internalMethods :: "string list"

definition createInternalAuthInterceptor :: "'s internal_options \<Rightarrow> ('s, 'm) interceptor" where
  "createInternalAuthInterceptor options next r s =
    (if \<not> matchesMethodPattern (rq_service r) (rq_method r) (ia_internalMethods options) then next r s
     else (case ia_trustSource options (rq_header r) s of (res, h, s') \<Rightarrow>
       (case (case res of Inl _ \<Rightarrow> None | Inr c \<Rightarrow> c) of
          None \<Rightarrow> (Inl (connect_error ''Untrusted internal request'' code_Unauthenticated), s')
        | Some authContext \<Rightarrow> next (r\<lparr>rq_header := h, rq_context := Some authContext\<rparr>) s')))"

section \<open>Mesh identity\<close>

record mesh_entry =
  me_principal :: string
  me_roles :: "string list option"
  me_scopes :: "string list option"
  me_name :: "string option"

definition by_principal :: "mesh_entry list \<Rightarrow> (string, mesh_entry) omap" where
  "by_principal allowlist = fold (\<lambda>(k, e). om_set k e) (map (\<lambda>e. (me_principal e, e)) allowlist) []"

definition mesh_source :: "mesh_entry list \<Rightarrow> string \<Rightarrow> string \<Rightarrow> 's trust_source" where
  "mesh_source allowlist header type h s =
    (let principal = hd_get h header; h' = hd_delete header h in
     case truthy principal of
       None \<Rightarrow> (Inr None, h', s)
     | Some p \<Rightarrow> (case om_get (by_principal allowlist) p of
         None \<Rightarrow> (Inr None, h', s)
       | Some entry \<Rightarrow> (Inr (Some
           \<lparr>ac_subject = me_principal entry, ac_name = me_name entry, ac_roles = dflt (me_roles entry) [],
            ac_scopes = dflt (me_scopes entry) [], ac_claims = [(''principal'', JStr (me_principal entry))],
            ac_type = type, ac_expiresAt = None\<rparr>), h', s)))"

definition meshIdentityTrust :: "mesh_entry list \<Rightarrow> string option \<Rightarrow> string option \<Rightarrow> jserr + 's trust_source" where
  "meshIdentityTrust allowlist header type =
    (if length allowlist = 0 then Inl (plain_error ''@connectum/auth: meshIdentityTrust requires a non-empty allowlist'')
     else Inr (mesh_source allowlist (dflt header ''x-forwarded-client-principal'') (dflt type ''mesh'')))"

section \<open>Signed tokens\<close>

record token_issuer =
  ti_jwksUri :: string
  ti_audience :: "one_or_many option"
  ti_algorithms :: "string list option"
  ti_maxTokenAge :: "token_age option"
  ti_claimsMapping :: "claims_mapping option"

record token_claims =
  tc_name :: "string option"
  tc_roles :: "string list"
  tc_scopes :: "string list"
  tc_subjectClaim :: "string option"

definition scope_claim :: "jwt_payload \<Rightarrow> string list" where
  "scope_claim payload = (case as_string (om_get (jp_claims payload) ''scope'') of None \<Rightarrow> [] | Some s \<Rightarrow> split_words s)"

definition mapTokenClaims :: "jwt_payload \<Rightarrow> claims_mapping option \<Rightarrow> token_claims" where
  "mapTokenClaims payload mapping = (let claims = jp_claims payload in
    case mapping of
      None \<Rightarrow> \<lparr>tc_name = None, tc_roles = [], tc_scopes = scope_claim payload, tc_subjectClaim = None\<rparr>
    | Some m \<Rightarrow>
       \<lparr>tc_name = as_string (claim_at claims (cm_name m)),
        tc_roles = dflt (as_strings (claim_at claims (cm_roles m))) [],
        tc_scopes = (if truthy (cm_scopes m) \<noteq> None then dflt (as_scopes (claim_at claims (cm_scopes m))) []
          else scope_claim payload),
        tc_subjectClaim = as_string (claim_at claims (cm_subject m))\<rparr>)"

definition stripBearer :: "string \<Rightarrow> string" where
  "stripBearer v = (let trimmed = js_trim v in
    if List.take 7 (js_lower trimmed) = ''bearer '' then js_trim (drop 7 trimmed) else trimmed)"

record ('s, 'k) jose_lib =
  jl_decodeJwt :: "string \<Rightarrow> jserr + jwt_payload"
  jl_jwtVerify :: "('s, 'k) jose_verify"

definition signed_verify_options :: "string \<Rightarrow> token_issuer \<Rightarrow> verify_options" where
  "signed_verify_options claimedIssuer cfg = \<lparr>vo_issuer = Some (One claimedIssuer), vo_audience = ti_audience cfg,
    vo_algorithms = Some (dflt (ti_algorithms cfg) [''RS256'']), vo_maxTokenAge = ti_maxTokenAge cfg\<rparr>"

definition signed_context :: "string \<Rightarrow> token_issuer \<Rightarrow> string \<Rightarrow> jwt_payload \<Rightarrow> auth_context" where
  "signed_context claimedIssuer cfg type payload = (let mapped = mapTokenClaims payload (ti_claimsMapping cfg) in
    \<lparr>ac_subject = dflt (or_else (tc_subjectClaim mapped) (jp_sub payload)) claimedIssuer,
     ac_name = tc_name mapped, ac_roles = tc_roles mapped, ac_scopes = tc_scopes mapped,
     ac_claims = jp_claims payload, ac_type = type, ac_expiresAt = expiry_ms (jp_exp payload)\<rparr>)"

definition signed_source :: "('s, 'k) jose_lib \<Rightarrow> (string, token_issuer) omap \<Rightarrow> string \<Rightarrow> string \<Rightarrow> 's trust_source" where
  "signed_source jose issuers header type h s =
    (let raw = hd_get h header; h' = hd_delete header h in
     case truthy raw of
       None \<Rightarrow> (Inr None, h', s)
     | Some v \<Rightarrow>
        (let tok = stripBearer v in
         if tok = [] then (Inr None, h', s)
         else (case jl_decodeJwt jose tok of
             Inl _ \<Rightarrow> (Inr None, h', s)
           | Inr decoded \<Rightarrow> (case jp_iss decoded of
               None \<Rightarrow> (Inr None, h', s)
             | Some claimedIssuer \<Rightarrow> (case om_get issuers claimedIssuer of
                 None \<Rightarrow> (Inr None, h', s)
               | Some cfg \<Rightarrow>
                  (case jl_jwtVerify jose (JwksKey (ti_jwksUri cfg)) (signed_verify_options claimedIssuer cfg) tok s of
                     (Inl _, s') \<Rightarrow> (Inr None, h', s')
                   | (Inr payload, s') \<Rightarrow> (Inr (Some (signed_context claimedIssuer cfg type payload)), h', s')))))))"

definition signedTokenTrust :: "('s, 'k) jose_lib \<Rightarrow> (string \<Rightarrow> bool) \<Rightarrow> (string, token_issuer) omap \<Rightarrow>
    string option \<Rightarrow> string option \<Rightarrow> jserr + 's trust_source" where
  "signedTokenTrust jose url_ok issuers header type =
    (if length (om_keys issuers) = 0
     then Inl (plain_error ''@connectum/auth: signedTokenTrust requires at least one issuer'')
     else if \<not> list_all (\<lambda>(iss, cfg). url_ok (ti_jwksUri cfg)) issuers then Inl (type_error ''Invalid URL'')
     else Inr (signed_source jose issuers (dflt header ''x-internal-token'') (dflt type ''service'')))"

section \<open>Shared secret\<close>

definition constantTimeEqual :: "(string \<Rightarrow> string) \<Rightarrow> string \<Rightarrow> string \<Rightarrow> bool" where
  "constantTimeEqual sha256 a b \<longleftrightarrow> sha256 a = sha256 b"

record secret_options =
  so_secret :: string
  so_header :: "string option"
  so_subject :: "string option"
  so_roles :: "string list option"
  so_scopes :: "string list option"
  so_type :: "string option"

definition secret_source :: "(string \<Rightarrow> string) \<Rightarrow> secret_options \<Rightarrow> 's trust_source" where
  "secret_source sha256 options h s =
    (let header = dflt (so_header options) ''x-internal-secret''; v = hd_get h header; h' = hd_delete header h in
     case truthy v of
       None \<Rightarrow> (Inr None, h', s)
     | Some value \<Rightarrow>
        if \<not> constantTimeEqual sha256 value (so_secret options) then (Inr None, h', s)
        else (Inr (Some \<lparr>ac_subject = dflt (so_subject options) ''internal'', ac_name = None,
          ac_roles = dflt (so_roles options) [], ac_scopes = dflt (so_scopes options) [], ac_claims = [],
          ac_type = dflt (so_type options) ''internal'', ac_expiresAt = None\<rparr>), h', s))"

definition sharedSecretTrust :: "(string \<Rightarrow> string) \<Rightarrow> secret_options \<Rightarrow> jserr + 's trust_source" where
  "sharedSecretTrust sha256 options =
    (if so_secret options = [] then Inl (plain_error ''@connectum/auth: sharedSecretTrust requires a non-empty secret'')
     else Inr (secret_source sha256 options))"

section \<open>Sending side\<close>

definition createClientBearerInterceptor :: "('s, jserr, string) io \<Rightarrow> ('s, 'm) interceptor" where
  "createClientBearerInterceptor tok next r =
    io_bind tok (\<lambda>resolvedToken.
    io_bind (io_lift (hd_set ''authorization'' (''Bearer '' @ resolvedToken) (rq_header r))) (\<lambda>h.
      next (r\<lparr>rq_header := h\<rparr>)))"

definition GATEWAY_SECRET_HEADER :: string where
  "GATEWAY_SECRET_HEADER = ''x-gateway-secret''"

definition createClientGatewayInterceptor :: "json_lib \<Rightarrow> string \<Rightarrow> string \<Rightarrow> string list option \<Rightarrow> ('s, 'm) interceptor" where
  "createClientGatewayInterceptor lib secret subject roles next r =
    io_bind (io_lift (res_bind (hd_set GATEWAY_SECRET_HEADER secret (rq_header r)) (\<lambda>h.
      res_bind (hd_set HDR_SUBJECT (sanitizeHeaderValue subject 512) h) (\<lambda>h.
        case roles of None \<Rightarrow> Inr h
        | Some rs \<Rightarrow> if length rs > 0 then put_short HDR_ROLES (json_stringify lib (JArr (map JStr rs))) h else Inr h))))
      (\<lambda>h. next (r\<lparr>rq_header := h\<rparr>))"

section \<open>What the sources share\<close>

locale stripping_source =
  fixes source :: "headers \<Rightarrow> 's \<Rightarrow> (jserr + auth_context option) \<times> headers \<times> 's"
    and marker :: string
    and trusts :: "string \<Rightarrow> auth_context \<Rightarrow> bool"
  assumes strips: "fst (snd (source h s)) = hd_delete marker h"
    and no_throw: "\<exists>c. fst (source h s) = Inr c"
    and genuine: "fst (source h s) = Inr (Some c) \<Longrightarrow> \<exists>v. hd_get h marker = Some v \<and> v \<noteq> [] \<and> trusts v c"
begin

lemma refused_or_genuine:
  fixes r :: "'m req"
  assumes "matchesMethodPattern (rq_service r) (rq_method r) methods"
  shows "(\<exists>s'. refuses_with (createInternalAuthInterceptor \<lparr>ia_trustSource = source, ia_internalMethods = methods\<rparr>) r s
      (connect_error ''Untrusted internal request'' code_Unauthenticated) s') \<or>
    (\<exists>v c s'. hd_get (rq_header r) marker = Some v \<and> v \<noteq> [] \<and> trusts v c \<and>
      reaches_with (createInternalAuthInterceptor \<lparr>ia_trustSource = source, ia_internalMethods = methods\<rparr>) r s
        (r\<lparr>rq_header := hd_delete marker (rq_header r), rq_context := Some c\<rparr>) s')"
proof -
  obtain res h s' where e: "source (rq_header r) s = (res, h, s')" by (cases "source (rq_header r) s")
  have h: "h = hd_delete marker (rq_header r)" using strips [of "rq_header r" s] e by simp
  obtain c where c: "res = Inr c" using no_throw [of "rq_header r" s] e by auto
  show ?thesis
  proof (cases c)
    case None
    then show ?thesis using assms e c by (auto simp: refuses_with_def createInternalAuthInterceptor_def)
  next
    case (Some ctx)
    then have "\<exists>v. hd_get (rq_header r) marker = Some v \<and> v \<noteq> [] \<and> trusts v ctx"
      using genuine [of "rq_header r" s ctx] e c by simp
    then show ?thesis using assms e c h Some by (auto simp: reaches_with_def createInternalAuthInterceptor_def)
  qed
qed

end

definition mesh_trusts :: "mesh_entry list \<Rightarrow> string \<Rightarrow> auth_context \<Rightarrow> bool" where
  "mesh_trusts allowlist v c \<longleftrightarrow> (\<exists>e \<in> set allowlist. me_principal e = v \<and> ac_subject c = v \<and>
    ac_roles c = dflt (me_roles e) [] \<and> ac_scopes c = dflt (me_scopes e) [])"

definition secret_trusts :: "(string \<Rightarrow> string) \<Rightarrow> secret_options \<Rightarrow> string \<Rightarrow> auth_context \<Rightarrow> bool" where
  "secret_trusts sha256 options v c \<longleftrightarrow> sha256 v = sha256 (so_secret options) \<and>
    ac_subject c = dflt (so_subject options) ''internal'' \<and> ac_roles c = dflt (so_roles options) []"

definition signed_trusts :: "('s, 'k) jose_lib \<Rightarrow> (string, token_issuer) omap \<Rightarrow> string \<Rightarrow> auth_context \<Rightarrow> bool" where
  "signed_trusts jose issuers v c \<longleftrightarrow> (\<exists>iss cfg payload decoded w.
    jl_decodeJwt jose (stripBearer v) = Inr decoded \<and> jp_iss decoded = Some iss \<and> om_get issuers iss = Some cfg \<and>
    fst (jl_jwtVerify jose (JwksKey (ti_jwksUri cfg)) (signed_verify_options iss cfg) (stripBearer v) w) = Inr payload \<and>
    ac_claims c = jp_claims payload \<and> ac_expiresAt c = expiry_ms (jp_exp payload) \<and>
    ac_subject c \<in> {dflt (or_else (tc_subjectClaim (mapTokenClaims payload (ti_claimsMapping cfg))) (jp_sub payload)) iss})"

lemma by_principal_get:
  "om_get (by_principal allowlist) p = Some e \<Longrightarrow> e \<in> set allowlist \<and> me_principal e = p"
  unfolding by_principal_def om.fold_put_get
  by (auto split: option.splits dest: map_of_SomeD)

interpretation mesh: stripping_source "mesh_source allowlist header type" header "mesh_trusts allowlist"
  for allowlist header type
proof unfold_locales
  fix h :: headers and s :: 'a
  show "fst (snd (mesh_source allowlist header type h s)) = hd_delete header h"
    and "\<exists>c. fst (mesh_source allowlist header type h s) = Inr c"
    by (auto simp: mesh_source_def Let_def split: option.splits)
  show "\<exists>v. hd_get h header = Some v \<and> v \<noteq> [] \<and> mesh_trusts allowlist v c"
    if "fst (mesh_source allowlist header type h s) = Inr (Some c)" for c
    using that by (auto simp: mesh_source_def Let_def mesh_trusts_def truthy_def dest!: by_principal_get
      split: option.splits if_splits)
qed

interpretation secret: stripping_source "secret_source sha256 options" "dflt (so_header options) ''x-internal-secret''"
    "secret_trusts sha256 options" for sha256 options
proof unfold_locales
  fix h :: headers and s :: 'a
  show "fst (snd (secret_source sha256 options h s)) = hd_delete (dflt (so_header options) ''x-internal-secret'') h"
    and "\<exists>c. fst (secret_source sha256 options h s) = Inr c"
    by (auto simp: secret_source_def Let_def split: option.splits)
  show "\<exists>v. hd_get h (dflt (so_header options) ''x-internal-secret'') = Some v \<and> v \<noteq> [] \<and> secret_trusts sha256 options v c"
    if "fst (secret_source sha256 options h s) = Inr (Some c)" for c
    using that by (auto simp: secret_source_def Let_def secret_trusts_def truthy_def constantTimeEqual_def
      split: option.splits if_splits)
qed

interpretation signed: stripping_source "signed_source jose issuers header type" header "signed_trusts jose issuers"
  for jose :: "('s, 'k) jose_lib" and issuers header type
proof unfold_locales
  fix h :: headers and s :: 's
  show "fst (snd (signed_source jose issuers header type h s)) = hd_delete header h"
    and "\<exists>c. fst (signed_source jose issuers header type h s) = Inr c"
    by (auto simp: signed_source_def Let_def split: option.splits sum.splits prod.splits)
  show "\<exists>v. hd_get h header = Some v \<and> v \<noteq> [] \<and> signed_trusts jose issuers v c"
    if got: "fst (signed_source jose issuers header type h s) = Inr (Some c)" for c
  proof -
    obtain v where v: "truthy (hd_get h header) = Some v"
      using got by (cases "truthy (hd_get h header)") (simp_all add: signed_source_def Let_def)
    have ne: "stripBearer v \<noteq> []"
      using got v by (auto simp: signed_source_def Let_def)
    obtain decoded where d: "jl_decodeJwt jose (stripBearer v) = Inr decoded"
      using got v ne by (cases "jl_decodeJwt jose (stripBearer v)") (simp_all add: signed_source_def Let_def)
    obtain iss where i: "jp_iss decoded = Some iss"
      using got v ne d by (cases "jp_iss decoded") (simp_all add: signed_source_def Let_def)
    obtain cfg where cfg: "om_get issuers iss = Some cfg"
      using got v ne d i by (cases "om_get issuers iss") (simp_all add: signed_source_def Let_def)
    obtain res s' where r: "jl_jwtVerify jose (JwksKey (ti_jwksUri cfg)) (signed_verify_options iss cfg) (stripBearer v) s = (res, s')"
      by (cases "jl_jwtVerify jose (JwksKey (ti_jwksUri cfg)) (signed_verify_options iss cfg) (stripBearer v) s")
    obtain payload where p: "res = Inr payload"
      using got v ne d i cfg r by (cases res) (simp_all add: signed_source_def Let_def)
    have c: "c = signed_context iss cfg type payload"
      using got v ne d i cfg r p by (simp add: signed_source_def Let_def)
    have f: "fst (jl_jwtVerify jose (JwksKey (ti_jwksUri cfg)) (signed_verify_options iss cfg) (stripBearer v) s) = Inr payload"
      using r p by simp
    have "signed_trusts jose issuers v c"
      unfolding signed_trusts_def
      using d i cfg f c by (intro exI [of _ iss] exI [of _ cfg] exI [of _ payload] exI [of _ decoded] exI [of _ s])
        (simp add: signed_context_def Let_def)
    then show ?thesis using v by (auto simp: truthy_def split: option.splits if_splits)
  qed
qed

section \<open>Properties\<close>


lemma mesh_trust_contract:
  fixes r :: "'m req" and s :: 's
  assumes "matchesMethodPattern (rq_service r) (rq_method r) methods"
  shows "case meshIdentityTrust allowlist header type of
     Inl _ \<Rightarrow> allowlist = []
   | Inr source \<Rightarrow>
       (\<exists>s'. refuses_with (createInternalAuthInterceptor \<lparr>ia_trustSource = source, ia_internalMethods = methods\<rparr>) r s
         (connect_error ''Untrusted internal request'' code_Unauthenticated) s') \<or>
       (\<exists>v c s'. hd_get (rq_header r) (dflt header ''x-forwarded-client-principal'') = Some v \<and> v \<noteq> [] \<and>
         mesh_trusts allowlist v c \<and>
         reaches_with (createInternalAuthInterceptor \<lparr>ia_trustSource = source, ia_internalMethods = methods\<rparr>) r s
           (r\<lparr>rq_header := hd_delete (dflt header ''x-forwarded-client-principal'') (rq_header r),
             rq_context := Some c\<rparr>) s')"
proof (cases "allowlist = []")
  case False
  then have e: "meshIdentityTrust allowlist header type = (Inr (mesh_source allowlist
    (dflt header ''x-forwarded-client-principal'') (dflt type ''mesh'')) :: jserr + 's trust_source)"
    by (simp add: meshIdentityTrust_def)
  show ?thesis unfolding e sum.case by (rule mesh.refused_or_genuine [OF assms])
qed (simp add: meshIdentityTrust_def)

lemma secret_trust_contract:
  fixes r :: "'m req" and s :: 's
  assumes "matchesMethodPattern (rq_service r) (rq_method r) methods"
  shows "case sharedSecretTrust sha256 secrets of
     Inl _ \<Rightarrow> so_secret secrets = []
   | Inr source \<Rightarrow>
       (\<exists>s'. refuses_with (createInternalAuthInterceptor \<lparr>ia_trustSource = source, ia_internalMethods = methods\<rparr>) r s
         (connect_error ''Untrusted internal request'' code_Unauthenticated) s') \<or>
       (\<exists>v c s'. hd_get (rq_header r) (dflt (so_header secrets) ''x-internal-secret'') = Some v \<and> v \<noteq> [] \<and>
         secret_trusts sha256 secrets v c \<and>
         reaches_with (createInternalAuthInterceptor \<lparr>ia_trustSource = source, ia_internalMethods = methods\<rparr>) r s
           (r\<lparr>rq_header := hd_delete (dflt (so_header secrets) ''x-internal-secret'') (rq_header r),
             rq_context := Some c\<rparr>) s')"
proof (cases "so_secret secrets = []")
  case False
  then have e: "sharedSecretTrust sha256 secrets = (Inr (secret_source sha256 secrets) :: jserr + 's trust_source)"
    by (simp add: sharedSecretTrust_def)
  show ?thesis unfolding e sum.case by (rule secret.refused_or_genuine [OF assms])
qed (simp add: sharedSecretTrust_def)


definition sample_jose :: "(unit, unit) jose_lib" where
  "sample_jose = \<lparr>jl_decodeJwt = (\<lambda>_. Inl (plain_error ''not a token'')), jl_jwtVerify = (\<lambda>_ _ _. io_throw (plain_error ''bad''))\<rparr>"

definition sample_issuers :: "(string, token_issuer) omap" where
  "sample_issuers = [(''iss'', \<lparr>ti_jwksUri = ''https://i/jwks'', ti_audience = None, ti_algorithms = None,
    ti_maxTokenAge = None, ti_claimsMapping = None\<rparr>)]"



end
