(* ===== verification/EventTopics.thy ===== *)
theory EventTopics
  imports Prelude Connect
begin

text \<open>
  Topics of the event bus: packages/events/src/wildcard.ts, topic.ts, EventRouter.ts, and the service
  name in packages/events/src/EventBus.ts. The loop over the pattern's segments is a recursion on the
  segments that are left, with the index the code counts. A handler entry of a service is a plain
  handler, a configuration, or missing (the JavaScript value is falsy).
\<close>

section \<open>wildcard.ts\<close>

fun match_loop :: "nat \<Rightarrow> string list \<Rightarrow> nat \<Rightarrow> string list \<Rightarrow> bool" where
  "match_loop n topicParts i [] \<longleftrightarrow> n = length topicParts"
| "match_loop n topicParts i (p # ps) =
    (if p = ''>'' then i = n - 1 \<and> i < length topicParts
     else if i \<ge> length topicParts then False
     else if p = ''*'' then match_loop n topicParts (Suc i) ps
     else if p \<noteq> topicParts ! i then False
     else match_loop n topicParts (Suc i) ps)"

definition matchPattern :: "string \<Rightarrow> string \<Rightarrow> bool" where
  "matchPattern pattern topic =
    (if CHR ''*'' \<notin> set pattern \<and> CHR ''>'' \<notin> set pattern then pattern = topic
     else (let patternParts = js_split CHR ''.'' pattern; topicParts = js_split CHR ''.'' topic in
       match_loop (length patternParts) topicParts 0 patternParts))"

section \<open>topic.ts and EventRouter.ts\<close>

record event_method =
  em_localName :: string
  em_inputType :: string
  em_topicOption :: "string option"

definition resolveTopicName :: "event_method \<Rightarrow> string" where
  "resolveTopicName m = (case em_topicOption m of
      None \<Rightarrow> em_inputType m
    | Some topic \<Rightarrow> if topic \<noteq> [] then topic else em_inputType m)"

datatype ('h, 'mw) handler_entry = PlainHandler 'h | HandlerConfig "'h option" "'mw list option"

record ('h, 'mw) route_entry =
  rt_topic :: string
  rt_method :: event_method
  rt_handler :: 'h
  rt_middleware :: "'mw list option"

record ('h, 'mw) event_router =
  er_entries :: "('h, 'mw) route_entry list"
  er_serviceNames :: "string list"

definition router_new :: "('h, 'mw) event_router" where
  "router_new = \<lparr>er_entries = [], er_serviceNames = []\<rparr>"

fun add_entries :: "string \<Rightarrow> (string \<Rightarrow> ('h, 'mw) handler_entry option) \<Rightarrow> event_method list \<Rightarrow>
    ('h, 'mw) event_router \<Rightarrow> jserr option \<times> ('h, 'mw) event_router" where
  "add_entries typeName handlers [] r = (None, r)"
| "add_entries typeName handlers (m # ms) r = (case handlers (em_localName m) of
      None \<Rightarrow> (Some (plain_error (''Missing event handler for method '' @ em_localName m @ '' in service '' @ typeName)), r)
    | Some (PlainHandler h) \<Rightarrow> add_entries typeName handlers ms
        (r\<lparr>er_entries := er_entries r @ [\<lparr>rt_topic = resolveTopicName m, rt_method = m, rt_handler = h, rt_middleware = None\<rparr>]\<rparr>)
    | Some (HandlerConfig None mw) \<Rightarrow>
        (Some (plain_error (''Invalid event handler config for method '' @ em_localName m @ '' in service '' @ typeName)), r)
    | Some (HandlerConfig (Some h) mw) \<Rightarrow> add_entries typeName handlers ms
        (r\<lparr>er_entries := er_entries r @ [\<lparr>rt_topic = resolveTopicName m, rt_method = m, rt_handler = h, rt_middleware = mw\<rparr>]\<rparr>))"

definition router_add :: "string \<Rightarrow> event_method list \<Rightarrow> (string \<Rightarrow> ('h, 'mw) handler_entry option) \<Rightarrow>
    ('h, 'mw) event_router \<Rightarrow> jserr option \<times> ('h, 'mw) event_router" where
  "router_add typeName methods handlers r =
    add_entries typeName handlers methods (r\<lparr>er_serviceNames := er_serviceNames r @ [typeName]\<rparr>)"

section \<open>Service name (EventBus.ts)\<close>

definition extractPackageName :: "string \<Rightarrow> string" where
  "extractPackageName typeName =
    (let t = takeWhile (\<lambda>c. c \<noteq> CHR ''.'') (rev typeName);
         lastDot = length typeName - Suc (length t)
     in if length t < length typeName \<and> lastDot > 0 then take lastDot typeName else typeName)"

fun unique_from :: "string list \<Rightarrow> string list \<Rightarrow> string list" where
  "unique_from seen [] = []"
| "unique_from seen (x # xs) = (if x \<in> set seen then unique_from seen xs else x # unique_from (x # seen) xs)"

definition deriveServiceName :: "string \<Rightarrow> string list \<Rightarrow> string option" where
  "deriveServiceName hostname serviceNames =
    (if serviceNames = [] then None
     else Some (js_join ''/'' (unique_from [] (map extractPackageName serviceNames)) @ ''@'' @ hostname))"

section \<open>What a pattern matches\<close>

definition segment_ok :: "string \<Rightarrow> string \<Rightarrow> bool" where
  "segment_ok p t \<longleftrightarrow> p = ''*'' \<or> p = t"

definition pattern_spec :: "string list \<Rightarrow> string list \<Rightarrow> bool" where
  "pattern_spec ps ts \<longleftrightarrow> ''>'' \<notin> set (butlast ps) \<and>
    (if last ps = ''>'' then length ps \<le> length ts \<and> list_all2 segment_ok (butlast ps) (take (length ps - 1) ts)
     else list_all2 segment_ok ps ts)"

fun spec_rec :: "string list \<Rightarrow> string list \<Rightarrow> bool" where
  "spec_rec [] ts \<longleftrightarrow> ts = []"
| "spec_rec (p # ps) ts =
    (if p = ''>'' then ps = [] \<and> ts \<noteq> []
     else (case ts of [] \<Rightarrow> False | t # ts' \<Rightarrow> segment_ok p t \<and> spec_rec ps ts'))"

lemma match_loop_rec:
  "n = i + length ps \<Longrightarrow> i \<le> length ts \<Longrightarrow> match_loop n ts i ps = spec_rec ps (drop i ts)"
proof (induction ps arbitrary: i)
  case Nil
  then show ?case by auto
next
  case (Cons p ps)
  show ?case
  proof (cases "i < length ts")
    case True
    then have d: "drop i ts = ts ! i # drop (Suc i) ts" by (simp add: Cons_nth_drop_Suc)
    show ?thesis using Cons True by (auto simp: d segment_ok_def)
  next
    case False
    then have "drop i ts = []" by simp
    then show ?thesis using Cons.prems False by auto
  qed
qed

lemma spec_rec_iff: "ps \<noteq> [] \<Longrightarrow> spec_rec ps ts = pattern_spec ps ts"
proof (induction ps arbitrary: ts)
  case (Cons p ps)
  show ?case
  proof (cases "ps = []")
    case True
    then show ?thesis by (cases ts) (auto simp: pattern_spec_def segment_ok_def Suc_le_eq split: list.splits)
  next
    case False
    then have IH: "spec_rec ps ts' = pattern_spec ps ts'" for ts' using Cons.IH by blast
    have len: "length ps \<ge> 1" using False by (cases ps) auto
    show ?thesis
    proof (cases ts)
      case Nil
      then show ?thesis using False len by (auto simp: pattern_spec_def)
    next
      case (Cons t ts')
      have "take (length ps) (t # ts') = t # take (length ps - 1) ts'" using len by (cases "length ps") auto
      then show ?thesis using Cons False len by (auto simp: IH pattern_spec_def)
    qed
  qed
qed simp

text \<open>C21. Topic matching: split both at the dots. A pattern matches a topic exactly when no segment but
  the last is the greater-than sign and either the last one is, the topic has at least as many segments,
  and the segments before it agree one by one, or it is not and the segments agree one by one, where a
  star agrees with every single segment and any other segment only with itself.\<close>
theorem matchPattern_is_segmentwise:
  "matchPattern pattern topic \<longleftrightarrow> pattern_spec (js_split CHR ''.'' pattern) (js_split CHR ''.'' topic)"
proof (cases "CHR ''*'' \<notin> set pattern \<and> CHR ''>'' \<notin> set pattern")
  case False
  then have "matchPattern pattern topic =
      match_loop (length (js_split CHR ''.'' pattern)) (js_split CHR ''.'' topic) 0 (js_split CHR ''.'' pattern)"
    by (auto simp: matchPattern_def Let_def)
  then show ?thesis by (simp add: match_loop_rec spec_rec_iff)
next
  case True
  have sub: "c \<in> set p \<Longrightarrow> p \<in> set (js_split CHR ''.'' pattern) \<Longrightarrow> c \<in> set pattern" for c p
  proof (induction pattern arbitrary: p)
    case (Cons x xs)
    obtain q qs where q: "js_split CHR ''.'' xs = q # qs" by (cases "js_split CHR ''.'' xs") auto
    show ?case using Cons.prems Cons.IH [of q] Cons.IH [of p] by (auto simp: q split: if_splits)
  qed simp
  have lit: "p \<noteq> ''*'' \<and> p \<noteq> ''>''" if "p \<in> set (js_split CHR ''.'' pattern)" for p
    using that sub [of "CHR ''*''" p] sub [of "CHR ''>''" p] True by auto
  have "list_all2 segment_ok (js_split CHR ''.'' pattern) ts \<longleftrightarrow> js_split CHR ''.'' pattern = ts" for ts
  proof -
    have "list_all2 segment_ok ps ts \<longleftrightarrow> ps = ts" if "\<forall>p \<in> set ps. p \<noteq> ''*''" for ps
      using that by (induction ps arbitrary: ts) (auto simp: segment_ok_def list_all2_Cons1)
    then show ?thesis using lit by blast
  qed
  moreover have "last (js_split CHR ''.'' pattern) \<noteq> ''>''" "''>'' \<notin> set (butlast (js_split CHR ''.'' pattern))"
    using lit by (auto dest: in_set_butlastD)
  moreover have "js_split CHR ''.'' pattern = js_split CHR ''.'' topic \<longleftrightarrow> pattern = topic"
    using js_join_split by metis
  ultimately show ?thesis using True by (auto simp: matchPattern_def pattern_spec_def)
qed

end
