(* ===== verification/EventMiddleware.thy ===== *)
theory EventMiddleware
  imports Prelude Connect
begin

text \<open>
  Middleware of the event bus: packages/events/src/middleware.ts, middleware/retry.ts,
  middleware/dlq.ts, errors.ts and EventContext.ts. A middleware is a function of the event, the
  context and next, as in the code; the closure variables of a composed handler (index and
  currentEvent) are a cell in front of the world. The abort signal, the timer and the adapter are
  operations of the world: the reason of an aborted signal is read off it, and sleeping for a delay is
  a computation that may be cut short with that reason. Retry counts and delays are integers.
\<close>

section \<open>Events, contexts, middleware\<close>

record raw_event =
  re_eventId :: string
  re_eventType :: string
  re_payload :: "nat list"
  re_publishedAt :: int
  re_attempt :: int
  re_metadata :: "(string, string) omap"

record 's event_context =
  ec_ack :: "('s, jserr, unit) io"
  ec_nack :: "bool \<Rightarrow> ('s, jserr, unit) io"
  ec_aborted :: "'s \<Rightarrow> jserr option"

type_synonym 's event_next = "raw_event option \<Rightarrow> ('s, jserr, unit) io"
type_synonym 's event_middleware = "raw_event \<Rightarrow> 's event_context \<Rightarrow> 's event_next \<Rightarrow> ('s, jserr, unit) io"
type_synonym 's event_handler = "raw_event \<Rightarrow> 's event_context \<Rightarrow> ('s, jserr, unit) io"

section \<open>errors.ts\<close>

definition isNonRetryable :: "jserr \<Rightarrow> bool" where
  "isNonRetryable e \<longleftrightarrow> je_class e = NonRetryableC"

definition isRetryable :: "jserr \<Rightarrow> bool" where
  "isRetryable e \<longleftrightarrow> je_class e = RetryableC"

section \<open>EventContext.ts\<close>

datatype settle_call = AckCall | NackCall bool

definition settle :: "('s, jserr, unit) io \<Rightarrow> (bool \<Rightarrow> ('s, jserr, unit) io) \<Rightarrow> settle_call \<Rightarrow>
    (bool \<times> 's, jserr, unit) io" where
  "settle onAck onNack call = (\<lambda>(settled, s).
    if settled then (Inr (), (settled, s))
    else (case (case call of AckCall \<Rightarrow> onAck s | NackCall requeue \<Rightarrow> onNack requeue s) of
      (res, s') \<Rightarrow> (res, (True, s'))))"

section \<open>middleware.ts\<close>

type_synonym 's compose_world = "(int \<times> raw_event) \<times> 's"

definition multiple_next :: jserr where
  "multiple_next = plain_error ''next() called multiple times''"

fun dispatch :: "'s compose_world event_handler \<Rightarrow> 's compose_world event_context \<Rightarrow> int \<Rightarrow>
    's compose_world event_middleware list \<Rightarrow> ('s compose_world, jserr, unit) io" where
  "dispatch handler ctx i [] = (\<lambda>((index, current), s).
    if i \<le> index then (Inl multiple_next, ((index, current), s))
    else (case handler current ctx ((i, current), s) of
        (Inl e, ((_, current'), s')) \<Rightarrow> (Inl e, ((i - 1, current'), s'))
      | (Inr x, w) \<Rightarrow> (Inr x, w)))"
| "dispatch handler ctx i (m # ms) = (\<lambda>((index, current), s).
    if i \<le> index then (Inl multiple_next, ((index, current), s))
    else (case m current ctx (\<lambda>updated ((index', current'), s').
          dispatch handler ctx (i + 1) ms ((index', case updated of None \<Rightarrow> current' | Some e \<Rightarrow> e), s'))
        ((i, current), s) of
        (Inl e, ((_, current'), s')) \<Rightarrow> (Inl e, ((i - 1, current'), s'))
      | (Inr x, w) \<Rightarrow> (Inr x, w)))"

definition composeMiddleware :: "'s compose_world event_middleware list \<Rightarrow> 's compose_world event_handler \<Rightarrow>
    raw_event \<Rightarrow> 's compose_world event_context \<Rightarrow> ('s, jserr, unit) io" where
  "composeMiddleware middlewares handler initialEvent ctx = (\<lambda>s.
    case (if middlewares = [] then handler initialEvent ctx ((-1, initialEvent), s)
      else dispatch handler ctx 0 middlewares ((-1, initialEvent), s)) of (res, (_, s')) \<Rightarrow> (res, s'))"

section \<open>middleware/retry.ts\<close>

datatype backoff = Exponential | Linear | Fixed

record retry_config =
  rc_maxRetries :: "int option"
  rc_backoff :: "backoff option"
  rc_initialDelay :: "int option"
  rc_maxDelay :: "int option"
  rc_multiplier :: "int option"
  rc_retryableErrors :: "(jserr \<Rightarrow> bool) option"

definition calculateDelay :: "backoff \<Rightarrow> int \<Rightarrow> int \<Rightarrow> int \<Rightarrow> nat \<Rightarrow> int" where
  "calculateDelay backoff initialDelay maxDelay multiplier attempt =
    (let delay = (case backoff of
        Exponential \<Rightarrow> initialDelay * multiplier ^ (attempt - 1)
      | Linear \<Rightarrow> initialDelay * int attempt
      | Fixed \<Rightarrow> initialDelay)
     in min delay maxDelay)"

definition retry_delay :: "retry_config \<Rightarrow> nat \<Rightarrow> int" where
  "retry_delay options attempt = calculateDelay (dflt (rc_backoff options) Exponential)
    (dflt (rc_initialDelay options) 1000) (dflt (rc_maxDelay options) 30000) (dflt (rc_multiplier options) 2) attempt"

definition gives_up :: "retry_config \<Rightarrow> jserr \<Rightarrow> bool" where
  "gives_up options err \<longleftrightarrow> isNonRetryable err \<or>
    (\<not> isRetryable err \<and> (case rc_retryableErrors options of None \<Rightarrow> False | Some f \<Rightarrow> \<not> f err))"

fun retry_loop :: "retry_config \<Rightarrow> (int \<Rightarrow> ('s, jserr, unit) io) \<Rightarrow> raw_event \<Rightarrow> 's event_context \<Rightarrow> 's event_next \<Rightarrow>
    jserr \<Rightarrow> nat \<Rightarrow> nat \<Rightarrow> ('s, jserr, unit) io" where
  "retry_loop options sleep event ctx next lastError attempt 0 s = (Inl lastError, s)"
| "retry_loop options sleep event ctx next lastError attempt (Suc left) s =
    (case (if attempt > 1 then ec_aborted ctx s else None) of
       Some reason \<Rightarrow> (Inl reason, s)
     | None \<Rightarrow>
        (case next (if attempt > 1 then Some (event\<lparr>re_attempt := re_attempt event + int attempt - 1\<rparr>) else None) s of
           (Inr _, s1) \<Rightarrow> (Inr (), s1)
         | (Inl err, s1) \<Rightarrow>
             if gives_up options err then (Inl err, s1)
             else if int attempt > dflt (rc_maxRetries options) 3 then (Inl err, s1)
             else if ec_aborted ctx s1 \<noteq> None then (Inl err, s1)
             else (case sleep (retry_delay options attempt) s1 of
                 (Inl reason, s2) \<Rightarrow> (Inl reason, s2)
               | (Inr _, s2) \<Rightarrow> retry_loop options sleep event ctx next err (Suc attempt) left s2)))"

definition undefined_error :: jserr where
  "undefined_error = \<lparr>je_class = NonErrorC, je_message = [], je_code = None, je_client = None, je_details = None,
    je_metadata = []\<rparr>"

definition retryMiddleware :: "retry_config \<Rightarrow> (int \<Rightarrow> ('s, jserr, unit) io) \<Rightarrow> 's event_middleware" where
  "retryMiddleware options sleep event ctx next =
    retry_loop options sleep event ctx next undefined_error 1 (nat (dflt (rc_maxRetries options) 3 + 1))"

section \<open>middleware/dlq.ts\<close>

record dlq_options =
  dq_topic :: string
  dq_errorSerializer :: "(jserr \<Rightarrow> string) option"

definition error_name :: "jserr \<Rightarrow> string" where
  "error_name e = (case je_class e of
      ConnectErrorC \<Rightarrow> ''ConnectError'' | AuthzDeniedC \<Rightarrow> ''AuthzDeniedError'' | NonRetryableC \<Rightarrow> ''NonRetryableError''
    | RetryableC \<Rightarrow> ''RetryableError'' | TypeErrorC \<Rightarrow> ''TypeError'' | AdapterErrorC n \<Rightarrow> n | _ \<Rightarrow> ''Error'')"

definition defaultErrorSerializer :: "jserr \<Rightarrow> string" where
  "defaultErrorSerializer e = (if je_class e \<noteq> NonErrorC then error_name e else ''UnknownError'')"

definition show_int :: "int \<Rightarrow> string" where
  "show_int i = (if i < 0 then CHR ''-'' # show_nat (nat (- i)) else show_nat (nat i))"

definition dlq_metadata :: "dlq_options \<Rightarrow> raw_event \<Rightarrow> jserr \<Rightarrow> (string, string) omap" where
  "dlq_metadata options event err =
    [(''dlq.original-topic'', re_eventType event), (''dlq.original-id'', re_eventId event),
     (''dlq.error'', dflt (dq_errorSerializer options) defaultErrorSerializer err),
     (''dlq.attempt'', show_int (re_attempt event))]"

type_synonym 's publish_raw = "string \<Rightarrow> nat list \<Rightarrow> (string, string) omap \<Rightarrow> ('s, jserr, unit) io"

definition dlqMiddleware :: "dlq_options \<Rightarrow> 's publish_raw \<Rightarrow> 's event_middleware" where
  "dlqMiddleware options publish event ctx next =
    io_catch (next None) (\<lambda>err.
      if re_eventType event = dq_topic options then io_throw err
      else io_catch (io_bind (publish (dq_topic options) (re_payload event) (dlq_metadata options event err)) (\<lambda>_. ec_ack ctx))
        (\<lambda>_. ec_nack ctx False))"

section \<open>How often a handler runs\<close>

type_synonym call_log = "(raw_event option \<times> (jserr + unit)) list"

definition logged :: "'s event_next \<Rightarrow> ('s \<times> call_log) event_next" where
  "logged next u = (\<lambda>(s, log). case next u s of (res, s') \<Rightarrow> (res, (s', log @ [(u, res)])))"

definition unlogged :: "('s, 'e, 'a) io \<Rightarrow> ('s \<times> call_log, 'e, 'a) io" where
  "unlogged m = (\<lambda>(s, log). case m s of (res, s') \<Rightarrow> (res, (s', log)))"

definition logged_context :: "'s event_context \<Rightarrow> ('s \<times> call_log) event_context" where
  "logged_context ctx = \<lparr>ec_ack = unlogged (ec_ack ctx), ec_nack = (\<lambda>b. unlogged (ec_nack ctx b)),
    ec_aborted = (\<lambda>(s, log). ec_aborted ctx s)\<rparr>"

definition nth_argument :: "raw_event \<Rightarrow> nat \<Rightarrow> raw_event option" where
  "nth_argument event k = (if k = 0 then None else Some (event\<lparr>re_attempt := re_attempt event + int k\<rparr>))"

definition failed_and_retried :: "retry_config \<Rightarrow> (jserr + unit) \<Rightarrow> bool" where
  "failed_and_retried options res = (case res of Inl err \<Rightarrow> \<not> gives_up options err | Inr _ \<Rightarrow> False)"

definition log_ok :: "retry_config \<Rightarrow> raw_event \<Rightarrow> call_log \<Rightarrow> bool" where
  "log_ok options event log \<longleftrightarrow> (\<forall>k < length log. fst (log ! k) = nth_argument event k) \<and>
    (\<forall>k < length log - 1. failed_and_retried options (snd (log ! k)))"

definition retry_outcome :: "retry_config \<Rightarrow> raw_event \<Rightarrow> 's event_context \<Rightarrow> (int \<Rightarrow> ('s, jserr, unit) io) \<Rightarrow>
    call_log \<Rightarrow> jserr + unit \<Rightarrow> bool" where
  "retry_outcome options event ctx sleep log res \<longleftrightarrow>
    log_ok options event log \<and> log \<noteq> [] \<and> int (length log) \<le> dflt (rc_maxRetries options) 3 + 1 \<and>
    (res = snd (last log) \<or>
      (\<exists>e w. res = Inl e \<and> ec_aborted ctx w = Some e) \<or> (\<exists>e d w. res = Inl e \<and> fst (sleep d w) = Inl e)) \<and>
    (int (length log) = dflt (rc_maxRetries options) 3 + 1 \<or> \<not> failed_and_retried options (snd (last log)) \<or>
      (\<exists>w. ec_aborted ctx w \<noteq> None) \<or> (\<exists>d w e. fst (sleep d w) = Inl e)) \<and>
    (snd (last log) = Inr () \<longrightarrow> res = Inr ())"

lemma log_ok_snoc:
  assumes "log_ok options event log" "log = [] \<or> failed_and_retried options (snd (last log))"
  shows "log_ok options event (log @ [(nth_argument event (length log), res)])"
proof -
  have "failed_and_retried options (snd (log ! k))" if "k < length log" for k
  proof (cases "k = length log - 1")
    case True
    then show ?thesis using assms(2) that by (metis last_conv_nth less_nat_zero_code list.size(3))
  next
    case False
    then show ?thesis using assms(1) that by (simp add: log_ok_def)
  qed
  then show ?thesis using assms(1) by (auto simp: log_ok_def nth_append less_Suc_eq)
qed

lemma logged_context_sel [simp]: "ec_aborted (logged_context ctx) (s, log) = ec_aborted ctx s"
  by (simp add: logged_context_def)

lemma nth_argument_Suc:
  "(if Suc k > 1 then Some (event\<lparr>re_attempt := re_attempt event + int (Suc k) - 1\<rparr>) else None) = nth_argument event k"
  by (cases k) (simp_all add: nth_argument_def)

text \<open>One round of the loop whose calls are logged.\<close>
lemma logged_round:
  assumes "next (nth_argument event (length log0)) s = (r, s1)"
    "(if Suc (length log0) > 1 then ec_aborted ctx s else None) = None"
  shows "retry_loop options (\<lambda>d. unlogged (sleep d)) event (logged_context ctx) (logged next) lastError
      (Suc (length log0)) (Suc left) (s, log0) =
    (let log1 = log0 @ [(nth_argument event (length log0), r)] in
     case r of Inr _ \<Rightarrow> (Inr (), (s1, log1))
     | Inl err \<Rightarrow>
         if gives_up options err \<or> int (length log1) > dflt (rc_maxRetries options) 3 \<or> ec_aborted ctx s1 \<noteq> None
         then (Inl err, (s1, log1))
         else (case sleep (retry_delay options (length log1)) s1 of
             (Inl reason, s2) \<Rightarrow> (Inl reason, (s2, log1))
           | (Inr _, s2) \<Rightarrow> retry_loop options (\<lambda>d. unlogged (sleep d)) event (logged_context ctx) (logged next) err
               (Suc (length log1)) left (s2, log1)))"
proof -
  have n: "logged next (nth_argument event (length log0)) (s, log0) =
      (r, (s1, log0 @ [(nth_argument event (length log0), r)]))"
    by (simp add: logged_def assms(1))
  show ?thesis
    unfolding retry_loop.simps logged_context_sel assms(2) nth_argument_Suc n option.case prod.case Let_def
    by (simp add: unlogged_def split: sum.split prod.split)
qed

lemma retry_loop_log:
  assumes "retry_loop options (\<lambda>d. unlogged (sleep d)) event (logged_context ctx) (logged next) lastError
      (Suc (length log0)) left (s, log0) = (res, (s', log))"
    "log_ok options event log0" "log0 = [] \<or> snd (last log0) = Inl lastError \<and> failed_and_retried options (snd (last log0))"
    "int (length log0 + left) = dflt (rc_maxRetries options) 3 + 1" "left > 0"
  shows "retry_outcome options event ctx sleep log res"
  using assms
proof (induction left arbitrary: s log0 lastError)
  case (Suc left)
  show ?case
  proof (cases "if Suc (length log0) > 1 then ec_aborted ctx s else None")
    case (Some reason)
    then have a: "ec_aborted ctx s = Some reason" "log0 \<noteq> []" by (auto split: if_splits)
    then have "res = Inl reason" "log = log0" using Suc.prems(1) by auto
    moreover have "int (length log0) \<le> dflt (rc_maxRetries options) 3 + 1" using Suc.prems(4) by linarith
    moreover have "snd (last log0) = Inl lastError" using Suc.prems(3) a(2) by blast
    ultimately show ?thesis using a Suc.prems(2) unfolding retry_outcome_def by auto
  next
    case go: None
    obtain r s1 where n: "next (nth_argument event (length log0)) s = (r, s1)"
      by (cases "next (nth_argument event (length log0)) s")
    define log1 where "log1 = log0 @ [(nth_argument event (length log0), r)]"
    have log1: "log1 \<noteq> []" "snd (last log1) = r" "length log1 = Suc (length log0)" by (simp_all add: log1_def)
    have ok1: "log_ok options event log1" unfolding log1_def
      using Suc.prems(3) by (intro log_ok_snoc [OF Suc.prems(2)]) blast
    have len1: "int (length log1) \<le> dflt (rc_maxRetries options) 3 + 1" using Suc.prems(4) by (simp add: log1)
    note step = Suc.prems(1) [unfolded logged_round [of "next" event log0 s r s1 ctx, OF n go] log1_def [symmetric] Let_def]
    show ?thesis
    proof (cases r)
      case (Inr u)
      then have "res = Inr ()" "log = log1" using step by simp_all
      then show ?thesis using ok1 len1 Inr unfolding retry_outcome_def failed_and_retried_def by (simp add: log1)
    next
      case (Inl err)
      obtain q s2 where q: "sleep (retry_delay options (length log1)) s1 = (q, s2)"
        by (cases "sleep (retry_delay options (length log1)) s1")
      consider "gives_up options err \<or> int (length log1) > dflt (rc_maxRetries options) 3 \<or> ec_aborted ctx s1 \<noteq> None"
        | reason where "q = Inl reason" "res = Inl reason" "log = log1"
        | "q = Inr ()" "\<not> gives_up options err" "int (length log1) \<le> dflt (rc_maxRetries options) 3"
          "retry_loop options (\<lambda>d. unlogged (sleep d)) event (logged_context ctx) (logged next) err
              (Suc (length log1)) left (s2, log1) = (res, (s', log))"
        using step by (cases q) (auto simp: Inl q split: if_splits)
      then show ?thesis
      proof cases
        case 1
        then have "res = Inl err" "log = log1" using step Inl by auto
        then show ?thesis using ok1 len1 Inl 1
          unfolding retry_outcome_def failed_and_retried_def by (auto simp: log1)
      next
        case 2
        then have "fst (sleep (retry_delay options (length log1)) s1) = Inl reason" by (simp add: q)
        then show ?thesis using ok1 len1 Inl 2 unfolding retry_outcome_def by (auto simp: log1)
      next
        case 3
        then show ?thesis
          using Suc.prems(4) ok1 by (intro Suc.IH [OF 3(4)]) (simp_all add: log1 Inl failed_and_retried_def)
      qed
    qed
  qed
qed simp


section \<open>The built-in chain\<close>

definition cell_context :: "'s event_context \<Rightarrow> ('c \<times> 's) event_context" where
  "cell_context ctx = \<lparr>ec_ack = on_cell (ec_ack ctx), ec_nack = (\<lambda>b. on_cell (ec_nack ctx b)),
    ec_aborted = (\<lambda>(c, s). ec_aborted ctx s)\<rparr>"

lemma cell_context_aborted [simp]: "ec_aborted (cell_context ctx) (c, s) = ec_aborted ctx s"
  by (simp add: cell_context_def)

definition event_of :: "raw_event \<Rightarrow> raw_event option \<Rightarrow> raw_event" where
  "event_of current updated = (case updated of None \<Rightarrow> current | Some e \<Rightarrow> e)"

definition agrees :: "(jserr + unit) \<times> 's \<Rightarrow> (jserr + unit) \<times> 's compose_world \<Rightarrow> bool" where
  "agrees p q \<longleftrightarrow> fst q = fst p \<and> snd (snd q) = snd p"

lemma agrees_pair [simp]: "agrees (r, s) (r', (c, s')) \<longleftrightarrow> r' = r \<and> s' = s"
  by (simp add: agrees_def)

definition plain_next :: "'s event_handler \<Rightarrow> 's event_context \<Rightarrow> raw_event \<Rightarrow> 's event_next" where
  "plain_next h ctx event u = h (event_of event u) ctx"

definition inner_next :: "'s event_handler \<Rightarrow> 's event_context \<Rightarrow> int \<Rightarrow> 's compose_world event_next" where
  "inner_next h ctx i u = (\<lambda>((index, current), s).
    dispatch (\<lambda>ev c. on_cell (h ev ctx)) (cell_context ctx) i [] ((index, event_of current u), s))"

lemma inner_next_apply:
  assumes "index < i"
  shows "inner_next h ctx i u ((index, current), s) = (case h (event_of current u) ctx s of
      (Inl e, s') \<Rightarrow> (Inl e, ((i - 1, event_of current u), s'))
    | (Inr x, s') \<Rightarrow> (Inr x, ((i, event_of current u), s')))"
  using assms by (auto simp: inner_next_def split: prod.split sum.split)

lemma retry_loop_cell:
  assumes "index < i" "attempt = 1 \<Longrightarrow> current = event" "attempt \<ge> 1"
  shows "agrees (retry_loop options sleep event ctx (plain_next h ctx event) lastError attempt left s)
    (retry_loop options (\<lambda>d. on_cell (sleep d)) event (cell_context ctx) (inner_next h ctx i) lastError attempt left
      ((index, current), s))"
  using assms
proof (induction left arbitrary: index current attempt lastError s)
  case (Suc left)
  let ?arg = "if attempt > 1 then Some (event\<lparr>re_attempt := re_attempt event + int attempt - 1\<rparr>) else None"
  have ev: "event_of current ?arg = event_of event ?arg"
    using Suc.prems(2,3) by (cases "attempt > 1") (simp_all add: event_of_def)
  show ?case
  proof (cases "if attempt > 1 then ec_aborted ctx s else None")
    case abort: (Some reason)
    show ?thesis unfolding retry_loop.simps cell_context_aborted abort option.case by simp
  next
    case go: None
    obtain r s1 where n: "h (event_of event ?arg) ctx s = (r, s1)" by (cases "h (event_of event ?arg) ctx s")
    have pn: "plain_next h ctx event ?arg s = (r, s1)" by (simp only: plain_next_def n)
    show ?thesis
    proof (cases r)
      case (Inr x)
      have "inner_next h ctx i ?arg ((index, current), s) = (Inr x, ((i, event_of event ?arg), s1))"
        unfolding inner_next_apply [OF Suc.prems(1)] ev n Inr by simp
      note inn = this
      show ?thesis unfolding retry_loop.simps cell_context_aborted go option.case pn inn Inr prod.case sum.case by simp
    next
      case (Inl err)
      have inn: "inner_next h ctx i ?arg ((index, current), s) = (Inl err, ((i - 1, event_of event ?arg), s1))"
        unfolding inner_next_apply [OF Suc.prems(1)] ev n Inl by simp
      obtain q s2 where q: "sleep (retry_delay options attempt) s1 = (q, s2)" by (cases "sleep (retry_delay options attempt) s1")
      show ?thesis
      proof (cases "gives_up options err \<or> int attempt > dflt (rc_maxRetries options) 3 \<or> ec_aborted ctx s1 \<noteq> None")
        case True
        then show ?thesis
          unfolding retry_loop.simps cell_context_aborted go option.case pn inn Inl prod.case sum.case by auto
      next
        case False
        have IH: "agrees (retry_loop options sleep event ctx (plain_next h ctx event) err (Suc attempt) left s2)
          (retry_loop options (\<lambda>d. on_cell (sleep d)) event (cell_context ctx) (inner_next h ctx i) err (Suc attempt) left
            ((i - 1, event_of event ?arg), s2))"
          using Suc.prems(3) by (intro Suc.IH) simp_all
        show ?thesis
          unfolding retry_loop.simps cell_context_aborted go option.case pn inn Inl prod.case sum.case on_cell_apply q
          using False IH by (cases q) simp_all
      qed
    qed
  qed
qed simp

lemma dispatch_retry:
  assumes "index < i"
  shows "agrees (retryMiddleware options sleep current ctx (plain_next h ctx current) s)
    (dispatch (\<lambda>ev c. on_cell (h ev ctx)) (cell_context ctx) i [retryMiddleware options (\<lambda>d. on_cell (sleep d))] ((index, current), s))"
proof -
  have inner: "(\<lambda>updated ((index', current'), s'). dispatch (\<lambda>ev c. on_cell (h ev ctx)) (cell_context ctx) (i + 1) []
      ((index', case updated of None \<Rightarrow> current' | Some e \<Rightarrow> e), s')) = inner_next h ctx (i + 1)"
    by (simp add: inner_next_def event_of_def fun_eq_iff)
  have a: "agrees (retryMiddleware options sleep current ctx (plain_next h ctx current) s)
    (retryMiddleware options (\<lambda>d. on_cell (sleep d)) current (cell_context ctx) (inner_next h ctx (i + 1)) ((i, current), s))"
    unfolding retryMiddleware_def by (rule retry_loop_cell) simp_all
  obtain r idx cur s' where e: "retryMiddleware options (\<lambda>d. on_cell (sleep d)) current (cell_context ctx) (inner_next h ctx (i + 1))
      ((i, current), s) = (r, ((idx, cur), s'))"
    by (metis prod.collapse)
  have p: "retryMiddleware options sleep current ctx (plain_next h ctx current) s = (r, s')"
    using a unfolding e by (cases "retryMiddleware options sleep current ctx (plain_next h ctx current) s") simp
  show ?thesis
    unfolding dispatch.simps(2) inner p using assms e by (cases r) simp_all
qed

lemma dispatch_result:
  assumes "index < i"
    "m current ctx (\<lambda>updated ((index', current'), s'). dispatch handler ctx (i + 1) ms
       ((index', case updated of None \<Rightarrow> current' | Some e \<Rightarrow> e), s')) ((i, current), s) = (q, (c', t))"
  shows "\<exists>c''. dispatch handler ctx i (m # ms) ((index, current), s) = (q, (c'', t))"
  unfolding dispatch.simps(2) using assms by (cases q; cases c') simp_all

text \<open>C23. The built-in chain is dead-lettering around retrying around the handler: composing the two
  middlewares with the code's bookkeeping of the index and the current event gives, for every handler,
  event and world, the result and the world of plain nesting; the guard against calling next twice
  never fires on a retry, and each retry hands its own copy of the event to the handler.\<close>
theorem builtin_chain_is_nesting:
  "composeMiddleware [dlqMiddleware dlq (\<lambda>t p m. on_cell (publish t p m)), retryMiddleware options (\<lambda>d. on_cell (sleep d))]
     (\<lambda>ev c. on_cell (h ev ctx)) event (cell_context ctx) s =
   dlqMiddleware dlq publish event ctx
     (\<lambda>_. retryMiddleware options sleep event ctx (\<lambda>u. h (case u of None \<Rightarrow> event | Some e \<Rightarrow> e) ctx)) s"
proof -
  let ?h = "\<lambda>ev c. on_cell (h ev ctx)" and ?r = "retryMiddleware options (\<lambda>d. on_cell (sleep d))"
  let ?c = "cell_context ctx :: ((int \<times> raw_event) \<times> 'a) event_context"
  have pn: "(\<lambda>u. h (case u of None \<Rightarrow> event | Some e \<Rightarrow> e) ctx) = plain_next h ctx event"
    by (simp add: plain_next_def event_of_def fun_eq_iff)
  obtain r s1 where p: "retryMiddleware options sleep event ctx (plain_next h ctx event) s = (r, s1)"
    by (cases "retryMiddleware options sleep event ctx (plain_next h ctx event) s")
  obtain c1 where n: "dispatch ?h ?c 1 [?r] ((0, event), s) = (r, (c1, s1))"
    using dispatch_retry [of 0 1 options sleep event ctx h s] p
    by (cases "dispatch ?h ?c 1 [?r] ((0, event), s)") auto
  let ?next = "\<lambda>updated ((index', current'), s'). dispatch ?h ?c (0 + 1) [?r]
      ((index', case updated of None \<Rightarrow> current' | Some e \<Rightarrow> e), s')"
  have nn: "?next None ((0, event), s) = (r, (c1, s1))" using n by simp
  have d: "fst (dlqMiddleware dlq (\<lambda>t p m. on_cell (publish t p m)) event ?c ?next ((0, event), s)) =
        fst (dlqMiddleware dlq publish event ctx (\<lambda>_. retryMiddleware options sleep event ctx (plain_next h ctx event)) s) \<and>
      snd (snd (dlqMiddleware dlq (\<lambda>t p m. on_cell (publish t p m)) event ?c ?next ((0, event), s))) =
        snd (dlqMiddleware dlq publish event ctx (\<lambda>_. retryMiddleware options sleep event ctx (plain_next h ctx event)) s)"
    unfolding dlqMiddleware_def io_catch_def nn p
    by (auto simp: io_bind_def cell_context_def io_catch_def split: sum.split prod.split)
  obtain q t where plain: "dlqMiddleware dlq publish event ctx
      (\<lambda>_. retryMiddleware options sleep event ctx (plain_next h ctx event)) s = (q, t)"
    by (cases "dlqMiddleware dlq publish event ctx (\<lambda>_. retryMiddleware options sleep event ctx (plain_next h ctx event)) s")
  obtain c' where m: "dlqMiddleware dlq (\<lambda>t p m. on_cell (publish t p m)) event ?c ?next ((0, event), s) = (q, (c', t))"
    using d plain by (cases "dlqMiddleware dlq (\<lambda>t p m. on_cell (publish t p m)) event ?c ?next ((0, event), s)") auto
  obtain c'' where "dispatch ?h ?c 0 [dlqMiddleware dlq (\<lambda>t p m. on_cell (publish t p m)), ?r] ((-1, event), s) = (q, (c'', t))"
    using dispatch_result [where m = "dlqMiddleware dlq (\<lambda>t p m. on_cell (publish t p m))" and ms = "[?r]" and i = 0
      and index = "-1" and current = event and ctx = ?c and handler = ?h and s = s, OF _ m] by auto
  then show ?thesis unfolding composeMiddleware_def pn plain by simp
qed

end
