(* ===== verification/EventBus.thy ===== *)
theory EventBus
  imports Prelude Connect EventTopics EventMiddleware
begin

text \<open>
  packages/events/src/EventBus.ts, MemoryAdapter.ts and broadcast.ts. A started bus is its table of
  publish topics and its ordered table from topics to handlers; delivering an event is a computation
  over an arbitrary world, with the two settlement flags of the delivery in front of it. Decoding and
  encoding of messages is third-party code and a parameter. The time limit of a handler only shows in
  the abort signal, which is part of the world.

\<close>

section \<open>Tables built by start\<close>

definition ambiguous_topic :: "string \<Rightarrow> jserr" where
  "ambiguous_topic messageType = plain_error (''Ambiguous publish topic for '' @ messageType)"

fun set_publish_topics :: "(string \<times> string) list \<Rightarrow> (string, string) omap \<Rightarrow> jserr + (string, string) omap" where
  "set_publish_topics [] m = Inr m"
| "set_publish_topics ((messageType, topic) # es) m =
    (if om_get m messageType \<noteq> None \<and> om_get m messageType \<noteq> Some topic then Inl (ambiguous_topic messageType)
     else set_publish_topics es (om_set messageType topic m))"

definition effective_middleware :: "'mw list \<Rightarrow> ('h, 'mw) route_entry \<Rightarrow> 'mw list" where
  "effective_middleware middlewares entry = (case rt_middleware entry of Some mws \<Rightarrow> mws | None \<Rightarrow> middlewares)"

fun build_handlers :: "'mw list \<Rightarrow> ('h, 'mw) route_entry list \<Rightarrow> (string, 'mw list \<times> event_method \<times> 'h) omap \<Rightarrow>
    jserr + (string, 'mw list \<times> event_method \<times> 'h) omap" where
  "build_handlers middlewares [] m = Inr m"
| "build_handlers middlewares (e # es) m =
    (if om_has m (rt_topic e) then Inl (plain_error (''Duplicate event topic '' @ rt_topic e))
     else build_handlers middlewares es
       (om_set (rt_topic e) (effective_middleware middlewares e, rt_method e, rt_handler e) m))"

definition published_types :: "('h, 'mw) route_entry list \<Rightarrow> event_method list list \<Rightarrow> (string \<times> string) list" where
  "published_types entries publishes =
    map (\<lambda>e. (em_inputType (rt_method e), rt_topic e)) entries @
    map (\<lambda>m. (em_inputType m, resolveTopicName m)) (concat publishes)"

record ('h, 'mw) bus_tables =
  bt_publishTopics :: "(string, string) omap"
  bt_handlers :: "(string, 'mw list \<times> event_method \<times> 'h) omap"

definition build_tables :: "'mw list \<Rightarrow> ('h, 'mw) route_entry list \<Rightarrow> event_method list list \<Rightarrow>
    jserr + ('h, 'mw) bus_tables" where
  "build_tables middlewares entries publishes =
    res_bind (set_publish_topics (published_types entries publishes) []) (\<lambda>topics.
    res_bind (build_handlers middlewares entries []) (\<lambda>handlers.
      Inr \<lparr>bt_publishTopics = topics, bt_handlers = handlers\<rparr>))"

definition bus_middlewares :: "'mw list option \<Rightarrow> 'd option \<Rightarrow> 'r option \<Rightarrow> ('d \<Rightarrow> 'mw) \<Rightarrow> ('r \<Rightarrow> 'mw) \<Rightarrow> 'mw list" where
  "bus_middlewares custom dlq retry mk_dlq mk_retry =
    dflt custom [] @ (case dlq of None \<Rightarrow> [] | Some d \<Rightarrow> [mk_dlq d]) @ (case retry of None \<Rightarrow> [] | Some r \<Rightarrow> [mk_retry r])"

section \<open>Delivering an event\<close>

fun find_pattern :: "string \<Rightarrow> (string \<times> 'h) list \<Rightarrow> 'h option" where
  "find_pattern eventType [] = None"
| "find_pattern eventType ((pattern, h) # hs) =
    (if pattern \<noteq> eventType \<and> matchPattern pattern eventType then Some h else find_pattern eventType hs)"

definition find_handler :: "(string, 'h) omap \<Rightarrow> string \<Rightarrow> 'h option" where
  "find_handler m eventType = (case om_get m eventType of Some h \<Rightarrow> Some h | None \<Rightarrow> find_pattern eventType m)"

type_synonym 's delivery_world = "(bool \<times> bool) \<times> 's"

definition delivery_settle :: "('s, jserr, unit) io \<Rightarrow> ('s delivery_world, jserr, unit) io" where
  "delivery_settle m = (\<lambda>((ctxSettled, settled), s).
    if ctxSettled then (Inr (), ((ctxSettled, settled), s))
    else (case m s of (res, s') \<Rightarrow> (res, ((True, True), s'))))"

definition delivery_context :: "('s, jserr, unit) io \<Rightarrow> (bool \<Rightarrow> ('s, jserr, unit) io) \<Rightarrow> ('s \<Rightarrow> jserr option) \<Rightarrow>
    's delivery_world event_context" where
  "delivery_context ack nack aborted = \<lparr>ec_ack = delivery_settle ack, ec_nack = (\<lambda>requeue. delivery_settle (nack requeue)),
    ec_aborted = (\<lambda>(flags, s). aborted s)\<rparr>"

definition run_handler :: "'s delivery_world event_handler \<Rightarrow> raw_event \<Rightarrow> ('s, jserr, unit) io \<Rightarrow>
    (bool \<Rightarrow> ('s, jserr, unit) io) \<Rightarrow> ('s \<Rightarrow> jserr option) \<Rightarrow> ('s, jserr, unit) io" where
  "run_handler h event ack nack aborted s =
    (case h event (delivery_context ack nack aborted) ((False, False), s) of
       (res, ((_, settled), s')) \<Rightarrow>
         (case res of
            Inl e \<Rightarrow> (Inl e, s')
          | Inr _ \<Rightarrow> if settled then (Inr (), s') else (Inr (), snd (ack s'))))"

definition deliver :: "(string, 's delivery_world event_handler) omap \<Rightarrow> bool \<Rightarrow> raw_event \<Rightarrow> ('s, jserr, unit) io \<Rightarrow>
    (bool \<Rightarrow> ('s, jserr, unit) io) \<Rightarrow> ('s \<Rightarrow> jserr option) \<Rightarrow> ('s, jserr, unit) io" where
  "deliver handlers draining event ack nack aborted =
    (case find_handler handlers (re_eventType event) of
       None \<Rightarrow> ack
     | Some h \<Rightarrow> if draining then nack True else run_handler h event ack nack aborted)"

definition decoded_handler :: "(nat list \<Rightarrow> jserr + 'msg) \<Rightarrow> ('msg \<Rightarrow> 's event_context \<Rightarrow> ('s, jserr, unit) io) \<Rightarrow> 's event_handler" where
  "decoded_handler fromBinary handler event ctx = io_bind (io_lift (fromBinary (re_payload event))) (\<lambda>message. handler message ctx)"

section \<open>Publishing\<close>

definition publish_topic :: "bool \<Rightarrow> (string, string) omap \<Rightarrow> string option \<Rightarrow> string \<Rightarrow> jserr + string" where
  "publish_topic strictTopics topics override typeName =
    (let declaredTopic = (case override of Some t \<Rightarrow> Some t | None \<Rightarrow> om_get topics typeName) in
     if strictTopics \<and> declaredTopic = None then Inl (plain_error (''Cannot resolve a topic for '' @ typeName))
     else Inr (dflt declaredTopic typeName))"

section \<open>MemoryAdapter.ts\<close>

record 'h memory_adapter =
  ma_subscriptions :: "(nat \<times> string list \<times> 'h) list"
  ma_connected :: bool
  ma_next :: nat

definition memory_new :: "'h memory_adapter" where
  "memory_new = \<lparr>ma_subscriptions = [], ma_connected = False, ma_next = 0\<rparr>"

definition memory_connect :: "'h memory_adapter \<Rightarrow> 'h memory_adapter" where
  "memory_connect a = a\<lparr>ma_connected := True\<rparr>"

definition memory_disconnect :: "'h memory_adapter \<Rightarrow> 'h memory_adapter" where
  "memory_disconnect a = a\<lparr>ma_subscriptions := [], ma_connected := False\<rparr>"

definition memory_subscribe :: "string list \<Rightarrow> 'h \<Rightarrow> 'h memory_adapter \<Rightarrow> jserr + nat \<times> 'h memory_adapter" where
  "memory_subscribe patterns h a =
    (if \<not> ma_connected a then Inl (plain_error ''MemoryAdapter: not connected'')
     else Inr (ma_next a, a\<lparr>ma_subscriptions := ma_subscriptions a @ [(ma_next a, patterns, h)], ma_next := Suc (ma_next a)\<rparr>))"

fun remove_first :: "nat \<Rightarrow> (nat \<times> 'x) list \<Rightarrow> (nat \<times> 'x) list" where
  "remove_first i [] = []"
| "remove_first i ((j, x) # xs) = (if i = j then xs else (j, x) # remove_first i xs)"

definition memory_unsubscribe :: "nat \<Rightarrow> 'h memory_adapter \<Rightarrow> 'h memory_adapter" where
  "memory_unsubscribe i a = a\<lparr>ma_subscriptions := remove_first i (ma_subscriptions a)\<rparr>"

definition memory_targets :: "'h memory_adapter \<Rightarrow> string \<Rightarrow> 'h list" where
  "memory_targets a eventType = map (\<lambda>(_, _, h). h)
    (filter (\<lambda>(_, patterns, _). list_ex (\<lambda>p. matchPattern p eventType) patterns) (ma_subscriptions a))"

fun deliver_all :: "(raw_event \<Rightarrow> ('s, jserr, unit) io) list \<Rightarrow> raw_event \<Rightarrow> ('s, jserr, unit) io" where
  "deliver_all [] event = io_return ()"
| "deliver_all (h # hs) event = io_bind (h event) (\<lambda>_. deliver_all hs event)"

definition memory_publish :: "(raw_event \<Rightarrow> ('s, jserr, unit) io) memory_adapter \<Rightarrow> string \<Rightarrow> string \<Rightarrow> nat list \<Rightarrow> int \<Rightarrow>
    (string, string) omap \<Rightarrow> ('s, jserr, unit) io" where
  "memory_publish a uuid eventType payload now metadata =
    (if \<not> ma_connected a then io_throw (plain_error ''MemoryAdapter: not connected'')
     else deliver_all (memory_targets a eventType)
       \<lparr>re_eventId = uuid, re_eventType = eventType, re_payload = payload, re_publishedAt = now, re_attempt = 1,
        re_metadata = metadata\<rparr>)"

section \<open>broadcast.ts\<close>

fun check_groups :: "string list \<Rightarrow> string list \<Rightarrow> jserr option" where
  "check_groups seen [] = None"
| "check_groups seen (g # gs) =
    (if g \<in> set seen then Some (plain_error (''createBroadcastSubscribers: duplicate consumer group '' @ g))
     else check_groups (g # seen) gs)"

definition createBroadcastSubscribers :: "(string \<Rightarrow> 'reactor \<Rightarrow> 'bus) \<Rightarrow> (string \<times> 'reactor) list \<Rightarrow> jserr + 'bus list" where
  "createBroadcastSubscribers createEventBus reactors = (case check_groups [] (map fst reactors) of
      Some e \<Rightarrow> Inl e
    | None \<Rightarrow> Inr (map (\<lambda>(g, r). createEventBus g r) reactors))"

section \<open>Tables\<close>

definition fresh_topics :: "(string, 'v) omap \<Rightarrow> string list \<Rightarrow> bool" where
  "fresh_topics m ts \<longleftrightarrow> distinct ts \<and> (\<forall>t \<in> set ts. \<not> om_has m t)"

lemma fresh_topics_Cons: "fresh_topics m (t # ts) \<longleftrightarrow> \<not> om_has m t \<and> fresh_topics (om_set t v m) ts"
  by (auto simp: fresh_topics_def)

definition table_entry :: "'mw list \<Rightarrow> ('h, 'mw) route_entry \<Rightarrow> string \<times> 'mw list \<times> event_method \<times> 'h" where
  "table_entry mws e = (rt_topic e, effective_middleware mws e, rt_method e, rt_handler e)"

lemma build_handlers_result:
  "if fresh_topics m (map rt_topic es) then build_handlers mws es m = Inr (m @ map (table_entry mws) es)
   else \<exists>e. build_handlers mws es m = Inl e"
proof (induction es arbitrary: m)
  case (Cons e es)
  let ?v = "(effective_middleware mws e, rt_method e, rt_handler e)"
  show ?case
  proof (cases "om_has m (rt_topic e)")
    case True
    then show ?thesis by (simp add: fresh_topics_def)
  next
    case False
    have f: "fresh_topics m (map rt_topic (e # es)) \<longleftrightarrow> fresh_topics (om_set (rt_topic e) ?v m) (map rt_topic es)"
      using False fresh_topics_Cons [of m "rt_topic e" "map rt_topic es" ?v] by simp
    have b: "build_handlers mws (e # es) m = build_handlers mws es (om_set (rt_topic e) ?v m)" using False by simp
    have l: "om_set (rt_topic e) ?v m @ map (table_entry mws) es = m @ map (table_entry mws) (e # es)"
      by (simp add: om_set_new [OF False] table_entry_def)
    show ?thesis using Cons.IH [of "om_set (rt_topic e) ?v m"] unfolding f b l .
  qed
qed (simp add: fresh_topics_def)

definition consistent :: "(string \<times> string) list \<Rightarrow> bool" where
  "consistent es \<longleftrightarrow> (\<forall>t a b. (t, a) \<in> set es \<and> (t, b) \<in> set es \<longrightarrow> a = b)"

definition compatible :: "(string, string) omap \<Rightarrow> (string \<times> string) list \<Rightarrow> bool" where
  "compatible m es \<longleftrightarrow> (\<forall>t a. (t, a) \<in> set es \<longrightarrow> om_get m t = None \<or> om_get m t = Some a)"

lemma compatible_Cons:
  assumes "om_get m t = None \<or> om_get m t = Some a"
  shows "consistent ((t, a) # es) \<and> compatible m ((t, a) # es) \<longleftrightarrow> consistent es \<and> compatible (om_set t a m) es"
proof
  assume l: "consistent ((t, a) # es) \<and> compatible m ((t, a) # es)"
  have "om_get (om_set t a m) u = None \<or> om_get (om_set t a m) u = Some b" if e: "(u, b) \<in> set es" for u b
  proof (cases "u = t")
    case True
    then have "b = a" using l e unfolding consistent_def by (metis list.set_intros(1) list.set_intros(2))
    then show ?thesis using True by simp
  next
    case False
    then show ?thesis using l e unfolding compatible_def by simp
  qed
  moreover have "consistent es" using l unfolding consistent_def by (meson list.set_intros(2))
  ultimately show "consistent es \<and> compatible (om_set t a m) es" unfolding compatible_def by blast
next
  assume r: "consistent es \<and> compatible (om_set t a m) es"
  have ta: "b = a" if "(t, b) \<in> set es" for b
    using r that unfolding compatible_def by (metis om_get_set option.distinct(1) option.inject)
  have "om_get m u = None \<or> om_get m u = Some b" if e: "(u, b) \<in> set ((t, a) # es)" for u b
  proof (cases "u = t")
    case True
    then have "b = a" using e ta by auto
    then show ?thesis using assms True by simp
  next
    case False
    then show ?thesis using r e unfolding compatible_def by (metis om_get_set prod.inject set_ConsD)
  qed
  moreover have "b = c" if "(u, b) \<in> set ((t, a) # es)" "(u, c) \<in> set ((t, a) # es)" for u b c
    using that ta r unfolding consistent_def by (metis prod.inject set_ConsD)
  ultimately show "consistent ((t, a) # es) \<and> compatible m ((t, a) # es)"
    unfolding compatible_def consistent_def by blast
qed

lemma set_publish_topics_Inr_iff:
  "(\<exists>m'. set_publish_topics es m = Inr m') \<longleftrightarrow> consistent es \<and> compatible m es"
proof (induction es arbitrary: m)
  case (Cons x es)
  obtain t a where x: "x = (t, a)" by (cases x)
  show ?case
  proof (cases "om_get m t = None \<or> om_get m t = Some a")
    case True
    then show ?thesis using Cons.IH [of "om_set t a m"] compatible_Cons [OF True, of es] by (auto simp: x)
  next
    case False
    then have "\<not> compatible m (x # es)" by (auto simp: x compatible_def)
    then show ?thesis using False by (simp add: x)
  qed
qed (simp add: consistent_def compatible_def)

lemma set_publish_topics_get:
  "set_publish_topics es m = Inr m' \<Longrightarrow> om_get m' t = (case map_of es t of Some a \<Rightarrow> Some a | None \<Rightarrow> om_get m t)"
proof (induction es arbitrary: m)
  case (Cons x es)
  obtain u a where x: "x = (u, a)" by (cases x)
  have ok: "om_get m u = None \<or> om_get m u = Some a" and s: "set_publish_topics es (om_set u a m) = Inr m'"
    using Cons.prems by (auto simp: x split: if_splits)
  have "consistent es \<and> compatible (om_set u a m) es" using s set_publish_topics_Inr_iff by blast
  then have "consistent (x # es)" using compatible_Cons [OF ok] x by blast
  then have same: "\<forall>t a b. (t, a) \<in> set (x # es) \<and> (t, b) \<in> set (x # es) \<longrightarrow> a = b" by (simp only: consistent_def)
  have eq: "b = a" if b: "map_of es u = Some b" for b
  proof -
    have "(u, b) \<in> set (x # es)" "(u, a) \<in> set (x # es)" using map_of_SomeD [OF b] x by simp_all
    then show ?thesis using same by blast
  qed
  show ?case
  proof (cases "t = u")
    case True
    then show ?thesis using Cons.IH [OF s] eq by (cases "map_of es u") (simp_all add: x)
  next
    case False
    then show ?thesis using Cons.IH [OF s] by (cases "map_of es t") (simp_all add: x)
  qed
qed simp

lemma find_pattern_iff:
  "find_pattern eventType hs = map_option snd (find (\<lambda>(p, _). p \<noteq> eventType \<and> matchPattern p eventType) hs)"
proof (induction hs)
  case (Cons x hs)
  then show ?case by (cases x) simp
qed simp

section \<open>Properties\<close>

text \<open>Starting a bus fails on its tables exactly when two routes share a topic or a message type would
  be published under two topics. After a successful start the table has one handler for every route, in
  the order of the routes; an event goes to the handler of its own topic if there is one and else to the
  first route whose pattern matches; and a message is published under the topic given, or else under the
  one topic its routes and the publish-only services declare, or else, unless topics are strict, under
  its own type name.\<close>
theorem bus_tables_and_routing:
  "case build_tables mws entries publishes of
     Inl _ \<Rightarrow> \<not> (distinct (map rt_topic entries) \<and> consistent (published_types entries publishes))
   | Inr tables \<Rightarrow> distinct (map rt_topic entries) \<and> consistent (published_types entries publishes) \<and>
       bt_handlers tables = map (table_entry mws) entries \<and>
       (\<forall>eventType. find_handler (bt_handlers tables) eventType = map_option snd
          (case find (\<lambda>(t, _). t = eventType) (map (table_entry mws) entries) of
             Some e \<Rightarrow> Some e
           | None \<Rightarrow> find (\<lambda>(t, _). t \<noteq> eventType \<and> matchPattern t eventType) (map (table_entry mws) entries))) \<and>
       (\<forall>strict override typeName. publish_topic strict (bt_publishTopics tables) override typeName =
          (case override of
             Some t \<Rightarrow> Inr t
           | None \<Rightarrow> (case map_of (published_types entries publishes) typeName of
               Some t \<Rightarrow> Inr t
             | None \<Rightarrow> if strict then Inl (plain_error (''Cannot resolve a topic for '' @ typeName)) else Inr typeName)))"
proof -
  let ?types = "published_types entries publishes"
  have con: "consistent ?types \<longleftrightarrow> (\<exists>m'. set_publish_topics ?types [] = Inr m')"
    by (simp add: set_publish_topics_Inr_iff compatible_def)
  have dis: "distinct (map rt_topic entries) \<longleftrightarrow> fresh_topics ([] :: (string, 'b list \<times> event_method \<times> 'a) omap) (map rt_topic entries)"
    by (simp add: fresh_topics_def om_has_def)
  show ?thesis
  proof (cases "distinct (map rt_topic entries) \<and> consistent ?types")
    case True
    then obtain topics where t: "set_publish_topics ?types [] = Inr topics" using con by blast
    have h: "build_handlers mws entries [] = Inr (map (table_entry mws) entries)"
      using build_handlers_result [of "[]" entries mws] True dis by simp
    have b: "build_tables mws entries publishes = Inr \<lparr>bt_publishTopics = topics, bt_handlers = map (table_entry mws) entries\<rparr>"
      using t h by (simp add: build_tables_def)
    have g: "om_get topics typeName = map_of ?types typeName" for typeName
      using set_publish_topics_get [OF t, of typeName] by (simp split: option.splits)
    have m: "map_of hs eventType = map_option snd (find (\<lambda>(t, _). t = eventType) hs)"
      for hs :: "(string \<times> 'b list \<times> event_method \<times> 'a) list" and eventType
      by (induction hs) auto
    have f: "find_handler hs eventType = map_option snd (case find (\<lambda>(t, _). t = eventType) hs of
        Some e \<Rightarrow> Some e | None \<Rightarrow> find (\<lambda>(t, _). t \<noteq> eventType \<and> matchPattern t eventType) hs)"
      for hs :: "(string \<times> 'b list \<times> event_method \<times> 'a) list" and eventType
      by (simp add: find_handler_def om_get_def m find_pattern_iff split: option.split)
    have p: "publish_topic strict topics override typeName =
          (case override of Some t \<Rightarrow> Inr t
           | None \<Rightarrow> (case map_of ?types typeName of Some t \<Rightarrow> Inr t
             | None \<Rightarrow> if strict then Inl (plain_error (''Cannot resolve a topic for '' @ typeName)) else Inr typeName))"
      for strict override typeName
      by (simp add: publish_topic_def Let_def g dflt_def split: option.split)
    show ?thesis unfolding b using True f p by simp
  next
    case False
    have "\<exists>e. build_tables mws entries publishes = Inl e"
    proof (cases "consistent ?types")
      case True
      then obtain topics where t: "set_publish_topics ?types [] = Inr topics" using con by blast
      have "\<exists>e. build_handlers mws entries [] = Inl e"
        using build_handlers_result [of "[]" entries mws] True False dis by simp
      then show ?thesis using t by (auto simp: build_tables_def)
    next
      case nc: False
      then obtain e where "set_publish_topics ?types [] = Inl e" using con by (cases "set_publish_topics ?types []") auto
      then show ?thesis by (simp add: build_tables_def)
    qed
    then show ?thesis using False by auto
  qed
qed

definition broker :: "(settle_call \<Rightarrow> 's \<Rightarrow> (jserr + unit) \<times> 's) \<Rightarrow> settle_call \<Rightarrow> ('s \<times> settle_call list, jserr, unit) io" where
  "broker f call = (\<lambda>(s, log). case f call s of (res, s') \<Rightarrow> (res, (s', log @ [call])))"

fun call_context :: "'s event_context \<Rightarrow> settle_call \<Rightarrow> ('s, jserr, unit) io" where
  "call_context ctx AckCall = ec_ack ctx"
| "call_context ctx (NackCall requeue) = ec_nack ctx requeue"

fun scripted :: "settle_call list \<Rightarrow> jserr + unit \<Rightarrow> raw_event \<Rightarrow> 's event_context \<Rightarrow> ('s, jserr, unit) io" where
  "scripted [] outcome event ctx s = (outcome, s)"
| "scripted (c # cs) outcome event ctx s = scripted cs outcome event ctx (snd (call_context ctx c s))"

lemma scripted_settled:
  "scripted cs outcome event (delivery_context ack nack aborted) ((True, x), s) = (outcome, ((True, x), s))"
proof (induction cs)
  case (Cons c cs)
  have "snd (call_context (delivery_context ack nack aborted) c ((True, x), s)) = ((True, x), s)"
    by (cases c) (simp_all add: delivery_context_def delivery_settle_def)
  then show ?case using Cons.IH by simp
qed simp

lemma broker_apply: "broker f c (s, log) = (fst (f c s), (snd (f c s), log @ [c]))"
  by (simp add: broker_def split_beta)

definition settle_io :: "('s, jserr, unit) io \<Rightarrow> (bool \<Rightarrow> ('s, jserr, unit) io) \<Rightarrow> settle_call \<Rightarrow> ('s, jserr, unit) io" where
  "settle_io ack nack c = (case c of AckCall \<Rightarrow> ack | NackCall requeue \<Rightarrow> nack requeue)"

definition first_settlement :: "settle_call list \<Rightarrow> jserr + unit \<Rightarrow> settle_call option" where
  "first_settlement calls outcome = (if calls \<noteq> [] then Some (hd calls) else if outcome = Inr () then Some AckCall else None)"

definition done_with :: "settle_call option \<Rightarrow> bool" where
  "done_with v \<longleftrightarrow> v = Some AckCall \<or> v = Some (NackCall False)"

lemma run_handler_script:
  assumes "h event = scripted calls outcome event"
  shows "run_handler h event ack nack aborted s = (outcome,
    case first_settlement calls outcome of None \<Rightarrow> s | Some c \<Rightarrow> snd (settle_io ack nack c s))"
proof (cases calls)
  case Nil
  then show ?thesis using assms
    by (cases outcome) (simp_all add: run_handler_def first_settlement_def settle_io_def)
next
  case (Cons c cs)
  let ?ctx = "delivery_context ack nack aborted"
  have first: "snd (call_context ?ctx c ((False, False), s)) = ((True, True), snd (settle_io ack nack c s))"
    by (cases c; cases "settle_io ack nack c s") (simp_all add: delivery_context_def delivery_settle_def settle_io_def)
  have "scripted calls outcome event ?ctx ((False, False), s) = (outcome, ((True, True), snd (settle_io ack nack c s)))"
    using Cons by (simp add: first scripted_settled)
  then show ?thesis using Cons assms by (cases outcome) (simp_all add: run_handler_def first_settlement_def)
qed

lemma settle_broker [simp]: "settle_io (broker f AckCall) (\<lambda>b. broker f (NackCall b)) c = broker f c"
  by (cases c) (simp_all add: settle_io_def)

lemma run_handler_scripted:
  "run_handler (scripted calls outcome) event (broker f AckCall) (\<lambda>b. broker f (NackCall b)) aborted (s, []) =
    (outcome, if calls \<noteq> [] then (snd (f (hd calls) s), [hd calls])
      else if outcome = Inr () then (snd (f AckCall s), [AckCall]) else (s, []))"
  by (subst run_handler_script [OF refl]) (simp add: first_settlement_def broker_apply)



end
