(* ===== verification/EventAdapter.thy ===== *)
theory EventAdapter
  imports EventBus
begin

text \<open>
  What the bus relies on of a broker adapter (the interface EventAdapter of packages/events/src/types.ts):
  for each message the adapter hands the bus two operations, and what they do to the adapter's world
  depends on the settlement only. The locale settling_adapter states it, with noted for that effect; the
  lemma of the locale says what a delivery to a bus comes to. Each adapter interprets it on its own operations.
\<close>

locale settling_adapter =
  fixes ack :: "'m \<Rightarrow> ('s, jserr, unit) io"
    and nack :: "'m \<Rightarrow> bool \<Rightarrow> ('s, jserr, unit) io"
    and noted :: "'m \<Rightarrow> settle_call \<Rightarrow> 's \<Rightarrow> 's"
  assumes ack_noted: "snd (ack m s) = noted m AckCall s"
    and nack_noted: "snd (nack m requeue s) = noted m (NackCall requeue) s"
begin

lemma settle_noted: "snd (settle_io (ack m) (nack m) c s) = noted m c s"
  by (cases c) (simp_all add: settle_io_def ack_noted nack_noted)

lemma delivery:
  assumes "find_handler handlers (re_eventType event) = Some h" and "h event = scripted calls outcome event"
  shows "deliver handlers False event (ack m) (nack m) aborted s =
    (outcome, case first_settlement calls outcome of None \<Rightarrow> s | Some c \<Rightarrow> noted m c s)"
  using assms by (simp add: deliver_def run_handler_script [of h event] settle_noted split: option.split)

end

end
