(* ===== verification/EventLifecycle.thy ===== *)
theory EventLifecycle
  imports Prelude Connect EventTopics EventMiddleware EventBus
begin

text \<open>
  packages/events/src/EventBus.ts, start and stop of a bus as a state machine. The record holds the
  flags of the source, the place where a running start is suspended, the shutdowns in progress (the
  source means there to be one), the stop calls that wait for a start, the tracked handlers (inFlight)
  and, as ghosts, the handlers that really run and whether a stop was ever
  called while another call of stop was waiting for a start (bs_crowded). Each step is the synchronous code between two
  suspensions; the environment settles the adapter's promises, the handlers and the timers. A drain
  wait that ends with its timer carries the flag late.
\<close>

datatype start_phase = StartIdle | Connecting | Subscribing | RollingBack jserr | RollbackDisconnect jserr

datatype stop_phase = Unsubscribing | Draining | Aborting "nat list" | Disconnecting

record bus_config =
  bc_entries :: "(unit, unit) route_entry list"
  bc_publishes :: "event_method list list"
  bc_drainTimeout :: "int option"

record bus =
  bs_started :: bool
  bs_starting :: bool
  bs_stopping :: bool
  bs_draining :: bool
  bs_start :: start_phase
  bs_stopPromise :: bool
  bs_stops :: "stop_phase list"
  bs_waiting :: nat
  bs_resumable :: nat
  bs_subscriptions :: nat
  bs_inFlight :: "nat list"
  bs_running :: "nat list"
  bs_aborted :: bool
  bs_startError :: "jserr option"
  bs_crowded :: bool

definition bus_new :: bus where
  "bus_new = \<lparr>bs_started = False, bs_starting = False, bs_stopping = False, bs_draining = False, bs_start = StartIdle,
    bs_stopPromise = False, bs_stops = [], bs_waiting = 0, bs_resumable = 0, bs_subscriptions = 0, bs_inFlight = [],
    bs_running = [], bs_aborted = False, bs_startError = None, bs_crowded = False\<rparr>"

section \<open>start\<close>

definition bus_start_call :: "bus \<Rightarrow> jserr option \<times> bus" where
  "bus_start_call s =
    (if bs_started s \<or> bs_starting s \<or> bs_stopping s
     then (Some (plain_error ''EventBus already started or stopping''), s)
     else (None, s\<lparr>bs_starting := True, bs_start := Connecting\<rparr>))"

definition start_finally :: "bus \<Rightarrow> bus" where
  "start_finally s = s\<lparr>bs_starting := False, bs_start := StartIdle, bs_resumable := bs_resumable s + bs_waiting s,
    bs_waiting := 0\<rparr>"

definition start_fails :: "jserr \<Rightarrow> bus \<Rightarrow> bus" where
  "start_fails e s = s\<lparr>bs_start := RollingBack e\<rparr>"

definition start_succeeds :: "bus \<Rightarrow> bus" where
  "start_succeeds s = start_finally (s\<lparr>bs_started := True, bs_startError := None\<rparr>)"

definition connect_settled :: "bus_config \<Rightarrow> jserr option \<Rightarrow> bus \<Rightarrow> bus" where
  "connect_settled cfg err s = (case err of
      Some e \<Rightarrow> start_fails e s
    | None \<Rightarrow> (case build_tables [] (bc_entries cfg) (bc_publishes cfg) of
        Inl e \<Rightarrow> start_fails e s
      | Inr t \<Rightarrow> if length (bt_handlers t) > 0 then s\<lparr>bs_start := Subscribing\<rparr> else start_succeeds s))"

definition subscribe_settled :: "jserr option \<Rightarrow> bus \<Rightarrow> bus" where
  "subscribe_settled err s = (case err of
      Some e \<Rightarrow> start_fails e s
    | None \<Rightarrow> start_succeeds (s\<lparr>bs_subscriptions := bs_subscriptions s + 1\<rparr>))"

definition rollback_unsubscribed :: "jserr \<Rightarrow> bus \<Rightarrow> bus" where
  "rollback_unsubscribed e s = s\<lparr>bs_subscriptions := 0, bs_start := RollbackDisconnect e\<rparr>"

definition rollback_disconnected :: "jserr \<Rightarrow> jserr option \<Rightarrow> bus \<Rightarrow> bus" where
  "rollback_disconnected e err s = start_finally (s\<lparr>bs_startError := Some (dflt err e)\<rparr>)"

section \<open>stop\<close>

definition begin_shutdown :: "bus \<Rightarrow> bus" where
  "begin_shutdown s = s\<lparr>bs_stopping := True, bs_draining := True, bs_stopPromise := True,
    bs_stops := bs_stops s @ [Unsubscribing]\<rparr>"

definition bus_stop_call :: "bus \<Rightarrow> bus" where
  "bus_stop_call s0 =
    (if bs_stopPromise s0 then s0
     else (let s = s0\<lparr>bs_crowded := (bs_crowded s0 \<or> bs_waiting s0 + bs_resumable s0 > 0)\<rparr> in
       if bs_starting s \<and> bs_start s \<noteq> StartIdle then s\<lparr>bs_waiting := bs_waiting s + 1\<rparr>
       else if \<not> bs_started s then s
       else begin_shutdown s))"

definition stop_resumed :: "bus \<Rightarrow> bus" where
  "stop_resumed s =
    (let s1 = s\<lparr>bs_resumable := bs_resumable s - 1\<rparr> in
     if \<not> bs_started s then s1 else begin_shutdown s1)"

definition set_phase :: "nat \<Rightarrow> stop_phase \<Rightarrow> bus \<Rightarrow> bus" where
  "set_phase i ph s = s\<lparr>bs_stops := (bs_stops s)[i := ph]\<rparr>"

definition after_drain :: "nat \<Rightarrow> bus \<Rightarrow> bus" where
  "after_drain i s =
    (if bs_inFlight s \<noteq> [] then set_phase i (Aborting (bs_inFlight s)) (s\<lparr>bs_aborted := True\<rparr>)
     else set_phase i Disconnecting (s\<lparr>bs_inFlight := []\<rparr>))"

definition unsubscribed :: "bus_config \<Rightarrow> nat \<Rightarrow> bus \<Rightarrow> bus" where
  "unsubscribed cfg i s =
    (let s1 = s\<lparr>bs_subscriptions := 0\<rparr> in
     if bs_inFlight s \<noteq> [] \<and> dflt (bc_drainTimeout cfg) 30000 > 0 then set_phase i Draining s1
     else after_drain i s1)"

definition drain_woken :: "bool \<Rightarrow> nat \<Rightarrow> bus \<Rightarrow> bus" where
  "drain_woken late i s = (if bs_inFlight s \<noteq> [] \<and> \<not> late then s else after_drain i s)"

definition aborts_settled :: "nat \<Rightarrow> bus \<Rightarrow> bus" where
  "aborts_settled i s = set_phase i Disconnecting (s\<lparr>bs_inFlight := []\<rparr>)"

definition stop_finally :: "nat \<Rightarrow> bus \<Rightarrow> bus" where
  "stop_finally i s = s\<lparr>bs_started := False, bs_stopping := False, bs_draining := False, bs_aborted := False,
    bs_stopPromise := False, bs_stops := take i (bs_stops s) @ drop (Suc i) (bs_stops s)\<rparr>"

section \<open>Deliveries\<close>

definition handler_starts :: "nat \<Rightarrow> bus \<Rightarrow> bus" where
  "handler_starts h s =
    (if bs_draining s then s else s\<lparr>bs_inFlight := h # bs_inFlight s, bs_running := h # bs_running s\<rparr>)"

definition handler_ends :: "nat \<Rightarrow> bus \<Rightarrow> bus" where
  "handler_ends h s = s\<lparr>bs_inFlight := removeAll h (bs_inFlight s), bs_running := removeAll h (bs_running s)\<rparr>"

inductive bus_step :: "bus_config \<Rightarrow> bus \<Rightarrow> bus \<Rightarrow> bool" for cfg where
  step_start: "bus_step cfg s (snd (bus_start_call s))"
| step_connect: "bs_start s = Connecting \<Longrightarrow> bus_step cfg s (connect_settled cfg err s)"
| step_subscribe: "bs_start s = Subscribing \<Longrightarrow> bus_step cfg s (subscribe_settled err s)"
| step_rollback: "bs_start s = RollingBack e \<Longrightarrow> bus_step cfg s (rollback_unsubscribed e s)"
| step_rollback_disconnect: "bs_start s = RollbackDisconnect e \<Longrightarrow> bus_step cfg s (rollback_disconnected e err s)"
| step_stop: "bus_step cfg s (bus_stop_call s)"
| step_resume: "bs_resumable s > 0 \<Longrightarrow> bus_step cfg s (stop_resumed s)"
| step_unsubscribed: "i < length (bs_stops s) \<Longrightarrow> bs_stops s ! i = Unsubscribing \<Longrightarrow> bus_step cfg s (unsubscribed cfg i s)"
| step_drain: "i < length (bs_stops s) \<Longrightarrow> bs_stops s ! i = Draining \<Longrightarrow> bus_step cfg s (drain_woken late i s)"
| step_abort: "i < length (bs_stops s) \<Longrightarrow> bs_stops s ! i = Aborting snap \<Longrightarrow> set snap \<inter> set (bs_running s) = {} \<Longrightarrow>
    bus_step cfg s (aborts_settled i s)"
| step_disconnected: "i < length (bs_stops s) \<Longrightarrow> bs_stops s ! i = Disconnecting \<Longrightarrow> bus_step cfg s (stop_finally i s)"
| step_deliver: "h \<notin> set (bs_running s) \<Longrightarrow> bus_step cfg s (handler_starts h s)"
| step_settle: "h \<in> set (bs_running s) \<Longrightarrow> bus_step cfg s (handler_ends h s)"

inductive bus_reach :: "bus_config \<Rightarrow> bus \<Rightarrow> bool" for cfg where
  reach_new: "bus_reach cfg bus_new"
| reach_step: "bus_reach cfg s \<Longrightarrow> bus_step cfg s s' \<Longrightarrow> bus_reach cfg s'"

inductive_cases bus_stepE: "bus_step cfg s s'"

section \<open>The invariant\<close>

definition phase_ok :: "bus \<Rightarrow> stop_phase \<Rightarrow> bool" where
  "phase_ok s ph = (case ph of
      Unsubscribing \<Rightarrow> set (bs_inFlight s) = set (bs_running s)
    | Draining \<Rightarrow> set (bs_inFlight s) = set (bs_running s) \<and> bs_subscriptions s = 0
    | Aborting snap \<Rightarrow> set (bs_running s) \<subseteq> set snap \<and> bs_subscriptions s = 0 \<and> set (bs_inFlight s) = set (bs_running s)
    | Disconnecting \<Rightarrow> bs_running s = [] \<and> bs_inFlight s = [] \<and> bs_subscriptions s = 0)"

definition bus_inv :: "bus \<Rightarrow> bool" where
  "bus_inv s \<longleftrightarrow> \<not> bs_crowded s \<longrightarrow>
    (bs_starting s \<longleftrightarrow> bs_start s \<noteq> StartIdle) \<and>
    bs_waiting s + bs_resumable s \<le> 1 \<and>
    (bs_waiting s > 0 \<longrightarrow> bs_starting s) \<and>
    (bs_starting s \<longrightarrow> \<not> bs_started s \<and> \<not> bs_stopping s) \<and>
    (bs_stopping s \<longleftrightarrow> bs_stops s \<noteq> []) \<and> (bs_draining s \<longleftrightarrow> bs_stops s \<noteq> []) \<and>
    (bs_stopPromise s \<longleftrightarrow> bs_stops s \<noteq> []) \<and>
    length (bs_stops s) \<le> 1 \<and> (bs_stops s \<noteq> [] \<longrightarrow> bs_started s \<and> bs_resumable s = 0 \<and> phase_ok s (hd (bs_stops s))) \<and>
    set (bs_inFlight s) = set (bs_running s)"

lemma bus_inv_new: "bus_inv bus_new"
  by (simp add: bus_inv_def bus_new_def)

lemma crowded_step: "bus_step cfg s s' \<Longrightarrow> bs_crowded s \<Longrightarrow> bs_crowded s'"
  by (erule bus_stepE)
    (auto simp: bus_start_call_def connect_settled_def start_fails_def start_succeeds_def start_finally_def
      subscribe_settled_def rollback_unsubscribed_def rollback_disconnected_def bus_stop_call_def begin_shutdown_def
      stop_resumed_def unsubscribed_def after_drain_def set_phase_def drain_woken_def aborts_settled_def stop_finally_def
      handler_starts_def handler_ends_def Let_def split: option.splits sum.splits if_splits)

lemma bus_inv_start:
  assumes "bus_inv s"
  shows "bus_inv (snd (bus_start_call s))"
    and "bs_start s = Connecting \<Longrightarrow> bus_inv (connect_settled cfg err s)"
    and "bs_start s = Subscribing \<Longrightarrow> bus_inv (subscribe_settled err s)"
    and "bs_start s = RollingBack e \<Longrightarrow> bus_inv (rollback_unsubscribed e s)"
    and "bs_start s = RollbackDisconnect e \<Longrightarrow> bus_inv (rollback_disconnected e err s)"
  using assms
  by (auto simp: bus_inv_def bus_start_call_def connect_settled_def start_fails_def start_succeeds_def start_finally_def
      subscribe_settled_def rollback_unsubscribed_def rollback_disconnected_def split: option.splits sum.splits)

lemma bus_inv_stop: "bus_inv s \<Longrightarrow> bus_inv (bus_stop_call s)"
  by (auto simp: bus_inv_def bus_stop_call_def begin_shutdown_def phase_ok_def Let_def)

lemma bus_inv_resume: "bus_inv s \<Longrightarrow> bs_resumable s > 0 \<Longrightarrow> bus_inv (stop_resumed s)"
  by (auto simp: bus_inv_def stop_resumed_def begin_shutdown_def phase_ok_def Let_def)

lemma bus_inv_deliver: "bus_inv s \<Longrightarrow> bus_inv (handler_starts h s)"
  by (auto simp: bus_inv_def handler_starts_def)

lemma bus_inv_settle: "bus_inv s \<Longrightarrow> bus_inv (handler_ends h s)"
  by (auto simp: bus_inv_def handler_ends_def phase_ok_def split: stop_phase.splits)

lemma bus_inv_single:
  assumes "bus_inv s" "i < length (bs_stops s)" "\<not> bs_crowded s"
  shows "i = 0" "bs_stops s = [bs_stops s ! 0]" "phase_ok s (bs_stops s ! 0)"
  using assms by (cases "bs_stops s"; auto simp: bus_inv_def)+

lemma set_phase_inv:
  assumes "bus_inv s" "i < length (bs_stops s)"
    and "\<not> bs_crowded s \<Longrightarrow> phase_ok (s\<lparr>bs_subscriptions := n, bs_inFlight := f, bs_aborted := a, bs_stops := [ph]\<rparr>) ph"
    and "\<not> bs_crowded s \<Longrightarrow> set f = set (bs_running s)"
  shows "bus_inv (set_phase i ph (s\<lparr>bs_subscriptions := n, bs_inFlight := f, bs_aborted := a\<rparr>))"
proof (cases "bs_crowded s")
  case False
  have st: "i = 0" "bs_stops s = [bs_stops s ! 0]"
    using bus_inv_single [OF assms(1,2) False] by simp_all
  have "(bs_stops s)[i := ph] = [ph]" by (subst st(2)) (simp add: st(1))
  then show ?thesis using assms False st(2) by (auto simp: bus_inv_def set_phase_def phase_ok_def split: stop_phase.splits)
qed (simp add: bus_inv_def set_phase_def)

lemma bus_inv_step: "bus_step cfg s s' \<Longrightarrow> bus_inv s \<Longrightarrow> bus_inv s'"
proof (induction rule: bus_step.induct)
  case (step_unsubscribed i s)
  have ok: "\<not> bs_crowded s \<Longrightarrow> phase_ok s Unsubscribing"
    using bus_inv_single [OF step_unsubscribed(3,1)] step_unsubscribed(2) by auto
  show ?case
    using set_phase_inv [OF step_unsubscribed(3,1), where n = 0 and f = "bs_inFlight s" and a = "bs_aborted s" and ph = Draining]
      set_phase_inv [OF step_unsubscribed(3,1), where n = 0 and f = "bs_inFlight s" and a = True and ph = "Aborting (bs_inFlight s)"]
      set_phase_inv [OF step_unsubscribed(3,1), where n = 0 and f = "[]" and a = "bs_aborted s" and ph = Disconnecting] ok
    by (auto simp: unsubscribed_def after_drain_def phase_ok_def Let_def)
next
  case (step_drain i s late)
  have ok: "\<not> bs_crowded s \<Longrightarrow> phase_ok s Draining"
    using bus_inv_single [OF step_drain(3,1)] step_drain(2) by auto
  show ?case
    using set_phase_inv [OF step_drain(3,1), where n = "bs_subscriptions s" and f = "bs_inFlight s" and a = True and ph = "Aborting (bs_inFlight s)"]
      set_phase_inv [OF step_drain(3,1), where n = "bs_subscriptions s" and f = "[]" and a = "bs_aborted s" and ph = Disconnecting] ok step_drain(3)
    by (auto simp: drain_woken_def after_drain_def phase_ok_def)
next
  case (step_abort i s snap)
  have ok: "\<not> bs_crowded s \<Longrightarrow> phase_ok s (Aborting snap)"
    using bus_inv_single [OF step_abort(4,1)] step_abort(2) by auto
  then have "\<not> bs_crowded s \<Longrightarrow> bs_running s = []" using step_abort(3)
    by (simp add: phase_ok_def) (metis Int_absorb1 set_empty)
  then show ?case
    using set_phase_inv [OF step_abort(4,1), where n = "bs_subscriptions s" and f = "[]" and a = "bs_aborted s" and ph = Disconnecting] ok
    by (auto simp: aborts_settled_def phase_ok_def)
next
  case (step_disconnected i s)
  show ?case
  proof (cases "bs_crowded s")
    case False
    note one = bus_inv_single [OF step_disconnected(3,1) False]
    have "take i (bs_stops s) @ drop (Suc i) (bs_stops s) = []" by (subst one(2), subst one(2)) (simp add: one(1))
    then show ?thesis using step_disconnected one(3) False
      by (auto simp: stop_finally_def bus_inv_def phase_ok_def)
  qed (simp add: bus_inv_def stop_finally_def)
qed (simp_all add: bus_inv_start bus_inv_stop bus_inv_resume bus_inv_deliver bus_inv_settle)

lemma bus_reach_inv: "bus_reach cfg s \<Longrightarrow> bus_inv s"
  by (induction rule: bus_reach.induct) (auto intro: bus_inv_new bus_inv_step)

section \<open>Properties\<close>

text \<open>C25. A bus stops gracefully, as long as no stop is called while another stop waits for a start:
  there is one shutdown at most; while it runs a start is refused and changes nothing, a further stop
  joins it, and no delivery starts a handler; when the adapter is being disconnected no handler is
  running and no subscription is left, even when the drain ran out of time; and after the disconnect
  the bus is as it was before its start, so that it can start again.\<close>
theorem bus_stops_gracefully:
  assumes "bus_reach cfg s" "\<not> bs_crowded s" "i < length (bs_stops s)"
  shows "i = 0 \<and> length (bs_stops s) = 1 \<and>
    bus_start_call s = (Some (plain_error ''EventBus already started or stopping''), s) \<and>
    bus_stop_call s = s \<and> handler_starts h s = s \<and>
    (bs_stops s ! i = Disconnecting \<longrightarrow> bs_running s = [] \<and> bs_inFlight s = [] \<and> bs_subscriptions s = 0 \<and>
      stop_finally i s = bus_new\<lparr>bs_startError := bs_startError s\<rparr>)"
proof -
  have inv: "bus_inv s" by (rule bus_reach_inv [OF assms(1)])
  note one = bus_inv_single [OF inv assms(3,2)]
  have f: "bs_started s" "\<not> bs_starting s" "bs_stopping s" "bs_draining s" "bs_stopPromise s" "bs_start s = StartIdle"
    "bs_waiting s = 0" "bs_resumable s = 0" "length (bs_stops s) = 1"
    using inv assms(2,3) by (auto simp: bus_inv_def le_Suc_eq)
  have fin: "stop_finally i s = bus_new\<lparr>bs_startError := bs_startError s\<rparr>"
    if "bs_stops s ! i = Disconnecting" and "phase_ok s Disconnecting"
  proof -
    have "take i (bs_stops s) @ drop (Suc i) (bs_stops s) = []" by (subst one(2), subst one(2)) (simp add: one(1))
    then show ?thesis using f that assms(2) by (simp add: stop_finally_def bus_new_def phase_ok_def)
  qed
  show ?thesis using one f fin by (auto simp: bus_start_call_def bus_stop_call_def handler_starts_def phase_ok_def)
qed

definition empty_bus_config :: bus_config where
  "empty_bus_config = \<lparr>bc_entries = [], bc_publishes = [], bc_drainTimeout = None\<rparr>"

lemma empty_tables: "build_tables [] (bc_entries empty_bus_config) (bc_publishes empty_bus_config) =
    Inr \<lparr>bt_publishTopics = [], bt_handlers = []\<rparr>"
  by (simp add: empty_bus_config_def build_tables_def published_types_def)

lemmas bus_defs = bus_start_call_def bus_new_def connect_settled_def empty_tables start_succeeds_def start_finally_def
  bus_stop_call_def begin_shutdown_def stop_resumed_def unsubscribed_def after_drain_def set_phase_def stop_finally_def Let_def

lemma bus_stops_gracefully_witness:
  "\<exists>s. bus_reach empty_bus_config s \<and> bs_stops s = [Disconnecting] \<and>
    stop_finally 0 s = bus_new"
proof -
  let ?c = empty_bus_config
  have 1: "bus_reach ?c (bus_new\<lparr>bs_starting := True, bs_start := Connecting\<rparr>)"
    using reach_step [OF reach_new step_start, of ?c] by (simp add: bus_defs)
  have 2: "bus_reach ?c (bus_new\<lparr>bs_started := True\<rparr>)"
    using reach_step [OF 1 step_connect, where err1 = None] by (simp add: bus_defs)
  have 3: "bus_reach ?c (bus_new\<lparr>bs_started := True, bs_stopping := True, bs_draining := True, bs_stopPromise := True,
      bs_stops := [Unsubscribing]\<rparr>)"
    using reach_step [OF 2 step_stop] by (simp add: bus_defs)
  have 4: "bus_reach ?c (bus_new\<lparr>bs_started := True, bs_stopping := True, bs_draining := True, bs_stopPromise := True,
      bs_stops := [Disconnecting]\<rparr>)" (is "bus_reach ?c ?s")
    using reach_step [OF 3 step_unsubscribed, where i1 = 0] by (simp add: bus_defs)
  have "stop_finally 0 ?s = bus_new\<lparr>bs_startError := bs_startError ?s\<rparr>"
    using bus_stops_gracefully [OF 4, of 0] by (simp add: bus_new_def)
  then show ?thesis using 4 by (intro exI [of _ ?s]) (simp add: bus_new_def)
qed

text \<open>Two stops called while the bus starts both run the shutdown: one of them finishes first, clears
  the flags, and lets the bus be started again, while the other is still shutting it down.\<close>
theorem two_stops_during_start_overlap:
  "\<exists>s. bus_reach empty_bus_config s \<and> bs_started s \<and> \<not> bs_stopping s \<and> bs_stops s = [Unsubscribing]"
proof -
  let ?c = empty_bus_config
  have 1: "bus_reach ?c (bus_new\<lparr>bs_starting := True, bs_start := Connecting\<rparr>)"
    using reach_step [OF reach_new step_start, of ?c] by (simp add: bus_defs)
  have 2: "bus_reach ?c (bus_new\<lparr>bs_starting := True, bs_start := Connecting, bs_waiting := 1\<rparr>)"
    using reach_step [OF 1 step_stop] by (simp add: bus_defs)
  have 3: "bus_reach ?c (bus_new\<lparr>bs_starting := True, bs_start := Connecting, bs_waiting := 2, bs_crowded := True\<rparr>)"
    using reach_step [OF 2 step_stop] by (simp add: bus_defs numeral_2_eq_2)
  have 4: "bus_reach ?c (bus_new\<lparr>bs_started := True, bs_resumable := 2, bs_crowded := True\<rparr>)"
    using reach_step [OF 3 step_connect, where err1 = None] by (simp add: bus_defs numeral_2_eq_2)
  have 5: "bus_reach ?c (bus_new\<lparr>bs_started := True, bs_resumable := 1, bs_crowded := True, bs_stopping := True,
      bs_draining := True, bs_stopPromise := True, bs_stops := [Unsubscribing]\<rparr>)"
    using reach_step [OF 4 step_resume] by (simp add: bus_defs)
  have 6: "bus_reach ?c (bus_new\<lparr>bs_started := True, bs_crowded := True, bs_stopping := True,
      bs_draining := True, bs_stopPromise := True, bs_stops := [Unsubscribing, Unsubscribing]\<rparr>)"
    using reach_step [OF 5 step_resume] by (simp add: bus_defs)
  have 7: "bus_reach ?c (bus_new\<lparr>bs_started := True, bs_crowded := True, bs_stopping := True,
      bs_draining := True, bs_stopPromise := True, bs_stops := [Disconnecting, Unsubscribing]\<rparr>)"
    using reach_step [OF 6 step_unsubscribed, where i1 = 0] by (simp add: bus_defs)
  have 8: "bus_reach ?c (bus_new\<lparr>bs_crowded := True, bs_stops := [Unsubscribing]\<rparr>)"
    using reach_step [OF 7 step_disconnected, where i1 = 0] by (simp add: bus_defs)
  have 9: "bus_reach ?c (bus_new\<lparr>bs_crowded := True, bs_stops := [Unsubscribing], bs_starting := True, bs_start := Connecting\<rparr>)"
    using reach_step [OF 8 step_start] by (simp add: bus_defs)
  have "bus_reach ?c (bus_new\<lparr>bs_crowded := True, bs_stops := [Unsubscribing], bs_started := True\<rparr>)"
    using reach_step [OF 9 step_connect, where err1 = None] by (simp add: bus_defs)
  then show ?thesis by (intro exI conjI, assumption) (simp_all add: bus_new_def)
qed

end
