(* ===== verification/Amqp.thy ===== *)
theory Amqp
  imports Prelude Connect EventTopics EventMiddleware EventBus
begin

text \<open>
  packages/events-amqp/src/AmqpAdapter.ts, its setup side: the options of types.ts, the topology, the
  consumers, the recovery setup, and connect, disconnect, subscribe and unsubscribe. The package
  amqplib is a parameter: amqp_lib opens connections, a connection (amqp_model) creates channels, and
  a channel answers calls (amqp_call) in an arbitrary world; a recovering connection is a function that
  is given the setup hook and decides how often it runs. Values of the type unknown in AMQP arguments
  are numbers or their text.
\<close>

section \<open>types.ts\<close>

datatype AmqpTopologyMode = ASSERT | CHECK | SKIP

datatype amqp_value = NumberArg int | TextArg string

type_synonym amqp_args = "(string, amqp_value) omap"

record amqp_exchange_declaration =
  ax_name :: string
  ax_type :: string
  ax_durable :: "bool option"
  ax_autoDelete :: "bool option"
  ax_arguments :: "amqp_args option"

record amqp_queue_declaration =
  aq_name :: string
  aq_durable :: "bool option"
  aq_autoDelete :: "bool option"
  aq_exclusive :: "bool option"
  aq_arguments :: "amqp_args option"

record amqp_binding_declaration =
  ab_queue :: "string option"
  ab_exchange :: "string option"
  ab_source :: string
  ab_routingKey :: string
  ab_arguments :: "amqp_args option"

record amqp_topology =
  at_exchanges :: "amqp_exchange_declaration list option"
  at_queues :: "amqp_queue_declaration list option"
  at_bindings :: "amqp_binding_declaration list option"

record amqp_queue_override =
  ao_queue :: string
  ao_arguments :: "amqp_args option"
  ao_durable :: "bool option"

record amqp_queue_options =
  qo_durable :: "bool option"
  qo_messageTtl :: "int option"
  qo_maxLength :: "int option"
  qo_deadLetterExchange :: "string option"
  qo_deadLetterRoutingKey :: "string option"

record amqp_publisher_options =
  po_persistent :: "bool option"
  po_mandatory :: "bool option"
  po_correlationHeader :: "bool option"
  po_externalContract :: "bool option"

record amqp_recovery_options =
  rv_initialDelay :: "int option"
  rv_maxDelay :: "int option"
  rv_factor :: "int option"
  rv_jitter :: "string option"
  rv_maxRetries :: "int option"

datatype amqp_recovery = RecoveryFlag bool | RecoveryKnobs amqp_recovery_options

record amqp_serialization =
  sz_contentType :: "string option"
  sz_encode :: "(nat list \<Rightarrow> jserr + nat list) option"
  sz_decode :: "(nat list \<Rightarrow> jserr + nat list) option"

record amqp_options =
  am_exchange :: "string option"
  am_exchangeType :: "string option"
  am_exchangeDurable :: "bool option"
  am_exchangeAutoDelete :: "bool option"
  am_queueOptions :: "amqp_queue_options option"
  am_prefetch :: "int option"
  am_exclusive :: "bool option"
  am_publisherOptions :: "amqp_publisher_options option"
  am_serialization :: "amqp_serialization option"
  am_topology :: "amqp_topology option"
  am_topologyMode :: "AmqpTopologyMode option"
  am_queueOverrides :: "(string, amqp_queue_override) omap option"
  am_recovery :: "amqp_recovery option"
  am_failFast :: "bool option"
  am_publishTimeoutMs :: "int option"

record 's amqp_lifecycle =
  lc_onConnected :: "('s, jserr, unit) io option"
  lc_onDisconnected :: "(jserr \<Rightarrow> ('s, jserr, unit) io) option"
  lc_onReconnecting :: "(nat \<Rightarrow> int \<Rightarrow> jserr \<Rightarrow> ('s, jserr, unit) io) option"
  lc_onReconnectFailed :: "(jserr \<Rightarrow> ('s, jserr, unit) io) option"
  lc_onSetupFailed :: "(jserr \<Rightarrow> bool \<Rightarrow> nat \<Rightarrow> ('s, jserr, unit) io) option"

section \<open>errors.ts\<close>

definition amqp_error :: "string \<Rightarrow> string \<Rightarrow> jserr" where
  "amqp_error name msg = \<lparr>je_class = AdapterErrorC name, je_message = msg, je_code = None,
    je_client = None, je_details = None, je_metadata = []\<rparr>"

abbreviation (input) "AmqpConnectionError \<equiv> amqp_error ''AmqpConnectionError''"
abbreviation (input) "AmqpUnroutableError \<equiv> amqp_error ''AmqpUnroutableError''"
abbreviation (input) "AmqpPublishNackError \<equiv> amqp_error ''AmqpPublishNackError''"
abbreviation (input) "AmqpPublishTimeoutError \<equiv> amqp_error ''AmqpPublishTimeoutError''"
abbreviation (input) "AmqpTopologyError \<equiv> amqp_error ''AmqpTopologyError''"
abbreviation (input) "AmqpSerializationError \<equiv> amqp_error ''AmqpSerializationError''"

definition is_topology_error :: "jserr \<Rightarrow> bool" where
  "is_topology_error e \<longleftrightarrow> je_class e = AdapterErrorC ''AmqpTopologyError''"

definition topologyError :: "string \<Rightarrow> jserr \<Rightarrow> jserr" where
  "topologyError msg cause = AmqpTopologyError (msg @ '': '' @ je_message cause)"

lemma topologyError_is [simp]: "is_topology_error (topologyError msg cause)"
  by (simp add: is_topology_error_def topologyError_def amqp_error_def)

section \<open>Channels and connections of amqplib\<close>

datatype amqp_call =
    CheckExchange string
  | CheckQueue string
  | AssertExchange string string bool bool "amqp_args option"
  | AssertQueue string bool bool bool "amqp_args option"
  | BindQueue string string string "amqp_args option"
  | BindExchange string string string "amqp_args option"
  | Prefetch int
  | Consume string
  | CancelConsumer string
  | DeleteQueue string
  | CloseChannel

type_synonym 's amqp_channel = "amqp_call \<Rightarrow> ('s, jserr, string) io"

record 's amqp_model =
  md_createChannel :: "('s, jserr, nat) io"
  md_createConfirmChannel :: "('s, jserr, nat) io"
  md_channel :: "nat \<Rightarrow> 's amqp_channel"
  md_close :: "('s, jserr, unit) io"
  md_randomUUID :: "('s, jserr, string) io"

definition ask :: "'s amqp_channel \<Rightarrow> amqp_call \<Rightarrow> ('s, jserr, unit) io" where
  "ask ch c = io_bind (ch c) (\<lambda>_. io_return ())"

definition quietly :: "('s, jserr, unit) io \<Rightarrow> ('s, jserr, unit) io" where
  "quietly m = io_catch m (\<lambda>_. io_return ())"

section \<open>Patterns and topology\<close>

definition toAmqpPattern :: "string \<Rightarrow> string" where
  "toAmqpPattern pattern = map (\<lambda>c. if c = CHR ''>'' then CHR ''#'' else c) pattern"

definition amqp_exchange :: "amqp_options \<Rightarrow> string" where
  "amqp_exchange options = dflt (am_exchange options) ''connectum.events''"

definition amqp_mode :: "amqp_options \<Rightarrow> AmqpTopologyMode" where
  "amqp_mode options = dflt (am_topologyMode options) ASSERT"

definition topo_exchanges :: "amqp_options \<Rightarrow> amqp_exchange_declaration list" where
  "topo_exchanges options = (case am_topology options of None \<Rightarrow> [] | Some t \<Rightarrow> dflt (at_exchanges t) [])"

definition topo_queues :: "amqp_options \<Rightarrow> amqp_queue_declaration list" where
  "topo_queues options = (case am_topology options of None \<Rightarrow> [] | Some t \<Rightarrow> dflt (at_queues t) [])"

definition topo_bindings :: "amqp_options \<Rightarrow> amqp_binding_declaration list" where
  "topo_bindings options = (case am_topology options of None \<Rightarrow> [] | Some t \<Rightarrow> dflt (at_bindings t) [])"

definition check_topology :: "amqp_options \<Rightarrow> 's amqp_channel \<Rightarrow> ('s, jserr, unit) io" where
  "check_topology options ch =
    io_catch
      (io_bind (ask ch (CheckExchange (amqp_exchange options))) (\<lambda>_.
       io_bind (io_for (\<lambda>ex. ask ch (CheckExchange (ax_name ex))) (topo_exchanges options)) (\<lambda>_.
       io_for (\<lambda>q. ask ch (CheckQueue (aq_name q))) (topo_queues options))))
      (\<lambda>err. io_throw (topologyError ''Topology check failed (missing broker object)'' err))"

definition assert_binding :: "'s amqp_channel \<Rightarrow> amqp_binding_declaration \<Rightarrow> ('s, jserr, unit) io" where
  "assert_binding ch b = (case ab_queue b of
      Some q \<Rightarrow> ask ch (BindQueue q (ab_source b) (ab_routingKey b) (ab_arguments b))
    | None \<Rightarrow> (case ab_exchange b of
        Some ex \<Rightarrow> ask ch (BindExchange ex (ab_source b) (ab_routingKey b) (ab_arguments b))
      | None \<Rightarrow> io_throw (plain_error (''Binding for source '' @ ab_source b @ '' must declare either queue or exchange''))))"

definition assert_topology :: "amqp_options \<Rightarrow> 's amqp_channel \<Rightarrow> ('s, jserr, unit) io" where
  "assert_topology options ch =
    io_catch
      (io_bind (ask ch (AssertExchange (amqp_exchange options) (dflt (am_exchangeType options) ''topic'')
         (dflt (am_exchangeDurable options) True) (dflt (am_exchangeAutoDelete options) False) None)) (\<lambda>_.
       io_bind (io_for (\<lambda>ex. ask ch (AssertExchange (ax_name ex) (ax_type ex) (dflt (ax_durable ex) True)
         (dflt (ax_autoDelete ex) False) (ax_arguments ex))) (topo_exchanges options)) (\<lambda>_.
       io_bind (io_for (\<lambda>q. ask ch (AssertQueue (aq_name q) (dflt (aq_durable q) True) (dflt (aq_autoDelete q) False)
         (dflt (aq_exclusive q) False) (aq_arguments q))) (topo_queues options)) (\<lambda>_.
       io_for (assert_binding ch) (topo_bindings options)))))
      (\<lambda>err. if is_topology_error err then io_throw err else io_throw (topologyError ''Topology declaration failed'' err))"

definition applyTopology :: "amqp_options \<Rightarrow> 's amqp_channel \<Rightarrow> ('s, jserr, unit) io" where
  "applyTopology options ch =
    (if amqp_mode options = SKIP then io_return ()
     else if amqp_mode options = CHECK then check_topology options ch
     else assert_topology options ch)"

section \<open>Consumers\<close>

record ('h) sub_record =
  sr_id :: nat
  sr_patterns :: "string list"
  sr_handler :: 'h
  sr_group :: "string option"
  sr_channel :: "nat option"
  sr_consumerTag :: "string option"
  sr_queueName :: string
  sr_isAutoGroup :: bool
  sr_active :: bool

definition truthy_group :: "string option \<Rightarrow> string option" where
  "truthy_group g = (case g of Some x \<Rightarrow> if x = [] then None else Some x | None \<Rightarrow> None)"

definition find_override :: "amqp_options \<Rightarrow> string option \<Rightarrow> amqp_queue_override option" where
  "find_override options grp = (case (truthy_group grp, am_queueOverrides options) of
      (Some g, Some os) \<Rightarrow> om_get os g | _ \<Rightarrow> None)"

definition put_arg :: "string \<Rightarrow> amqp_value option \<Rightarrow> amqp_args \<Rightarrow> amqp_args" where
  "put_arg k v args = (case v of None \<Rightarrow> args | Some x \<Rightarrow> om_set k x args)"

definition queue_arguments :: "amqp_options \<Rightarrow> amqp_queue_override option \<Rightarrow> amqp_args option" where
  "queue_arguments options override =
    (let field = (\<lambda>f. case am_queueOptions options of None \<Rightarrow> None | Some q \<Rightarrow> f q);
         a1 = put_arg ''x-message-ttl'' (field (\<lambda>q. map_option NumberArg (qo_messageTtl q))) [];
         a2 = put_arg ''x-max-length'' (field (\<lambda>q. map_option NumberArg (qo_maxLength q))) a1;
         a3 = put_arg ''x-dead-letter-exchange'' (field (\<lambda>q. map_option TextArg (qo_deadLetterExchange q))) a2;
         a4 = put_arg ''x-dead-letter-routing-key'' (field (\<lambda>q. map_option TextArg (qo_deadLetterRoutingKey q))) a3;
         args = (case override of None \<Rightarrow> a4 | Some ov \<Rightarrow> fold (\<lambda>(k, v) m. om_set k v m) (dflt (ao_arguments ov) []) a4)
     in if length args > 0 then Some args else None)"

definition queue_name :: "amqp_options \<Rightarrow> string option \<Rightarrow> ('s, jserr, string) io \<Rightarrow> ('s, jserr, string) io" where
  "queue_name options grp randomUUID = (case find_override options grp of
      Some ov \<Rightarrow> io_return (ao_queue ov)
    | None \<Rightarrow> (case truthy_group grp of
        Some g \<Rightarrow> io_return (amqp_exchange options @ ''.'' @ g)
      | None \<Rightarrow> io_bind randomUUID (\<lambda>u. io_return (amqp_exchange options @ ''.sub-'' @ u))))"

definition close_and_throw :: "'s amqp_channel \<Rightarrow> string \<Rightarrow> ('s, jserr, 'a) io \<Rightarrow> ('s, jserr, 'a) io" where
  "close_and_throw ch msg m =
    io_catch m (\<lambda>err. io_bind (quietly (ask ch CloseChannel)) (\<lambda>_. io_throw (topologyError msg err)))"

definition bind_patterns :: "amqp_options \<Rightarrow> 's amqp_channel \<Rightarrow> string \<Rightarrow> string list \<Rightarrow> ('s, jserr, unit) io" where
  "bind_patterns options ch queueName patterns =
    io_for (\<lambda>p. ask ch (BindQueue queueName (amqp_exchange options) p None)) (map toAmqpPattern patterns)"

definition declared_in_topology :: "amqp_options \<Rightarrow> string \<Rightarrow> bool" where
  "declared_in_topology options queueName \<longleftrightarrow> list_ex (\<lambda>q. aq_name q = queueName) (topo_queues options)"

definition assert_group_queue :: "amqp_options \<Rightarrow> 's amqp_channel \<Rightarrow> string option \<Rightarrow> string \<Rightarrow> ('s, jserr, unit) io" where
  "assert_group_queue options ch grp queueName =
    (let override = find_override options grp;
         isAutoGroup = (truthy_group grp = None);
         queueDurable = (case override of
             Some ov \<Rightarrow> dflt (ao_durable ov) (dflt (case am_queueOptions options of None \<Rightarrow> None | Some q \<Rightarrow> qo_durable q) True)
           | None \<Rightarrow> dflt (case am_queueOptions options of None \<Rightarrow> None | Some q \<Rightarrow> qo_durable q) True)
     in ask ch (AssertQueue queueName (if isAutoGroup then False else queueDurable) isAutoGroup
          (if isAutoGroup then dflt (am_exclusive options) False else False) (queue_arguments options override)))"

definition prepare_queue :: "amqp_options \<Rightarrow> 's amqp_channel \<Rightarrow> 'h sub_record \<Rightarrow> string \<Rightarrow> ('s, jserr, unit) io" where
  "prepare_queue options ch record queueName =
    (if amqp_mode options = ASSERT \<and> declared_in_topology options queueName then
       close_and_throw ch (''Failed to bind topology-declared queue '' @ queueName)
         (bind_patterns options ch queueName (sr_patterns record))
     else if amqp_mode options = ASSERT then
       close_and_throw ch (''Failed to declare queue '' @ queueName)
         (io_bind (assert_group_queue options ch (sr_group record) queueName)
           (\<lambda>_. bind_patterns options ch queueName (sr_patterns record)))
     else if amqp_mode options = CHECK then
       close_and_throw ch (''Queue '' @ queueName @ '' does not exist (topologyMode: check)'')
         (ask ch (CheckQueue queueName))
     else io_return ())"

definition startConsumer :: "amqp_options \<Rightarrow> 's amqp_model \<Rightarrow> 'h sub_record \<Rightarrow> ('s, jserr, 'h sub_record) io" where
  "startConsumer options model record =
    io_bind (md_createChannel model) (\<lambda>c. let ch = md_channel model c in
    io_bind (ask ch (Prefetch (dflt (am_prefetch options) 10))) (\<lambda>_.
    io_bind (queue_name options (sr_group record) (md_randomUUID model)) (\<lambda>queueName.
    io_bind (prepare_queue options ch record queueName) (\<lambda>_.
    io_bind (close_and_throw ch (''Failed to consume from queue '' @ queueName) (ch (Consume queueName))) (\<lambda>tag.
      io_return (record\<lparr>sr_channel := Some c, sr_consumerTag := Some tag, sr_queueName := queueName,
        sr_isAutoGroup := (truthy_group (sr_group record) = None)\<rparr>))))))"

section \<open>The adapter\<close>

record 'h amqp_adapter =
  ad_connection :: "nat option"
  ad_publishChannel :: "nat option"
  ad_closing :: bool
  ad_reconnectAttempt :: nat
  ad_closedChannels :: "nat list"
  ad_pendingReturns :: "(string, nat) omap"
  ad_subscriptions :: "'h sub_record list"
  ad_nextId :: nat

definition adapter_new :: "'h amqp_adapter" where
  "adapter_new = \<lparr>ad_connection = None, ad_publishChannel = None, ad_closing = False, ad_reconnectAttempt = 0,
    ad_closedChannels = [], ad_pendingReturns = [], ad_subscriptions = [], ad_nextId = 0\<rparr>"

type_synonym ('h, 's, 'a) adapter_io = "('h amqp_adapter \<times> 's, jserr, 'a) io"

definition on_adapter :: "('h amqp_adapter \<Rightarrow> 'h amqp_adapter) \<Rightarrow> ('h, 's, unit) adapter_io" where
  "on_adapter f = (\<lambda>(a, s). (Inr (), (f a, s)))"

definition failPendingReturns :: "'h amqp_adapter \<Rightarrow> 'h amqp_adapter" where
  "failPendingReturns a = a\<lparr>ad_pendingReturns := []\<rparr>"

definition clearPublishChannel :: "'h amqp_adapter \<Rightarrow> 'h amqp_adapter" where
  "clearPublishChannel a = a\<lparr>ad_publishChannel := None\<rparr>"

definition setupPublishChannel :: "'s amqp_model \<Rightarrow> ('h, 's, nat) adapter_io" where
  "setupPublishChannel model =
    io_bind (on_cell (md_createConfirmChannel model)) (\<lambda>ch.
    io_bind (on_adapter (\<lambda>a. a\<lparr>ad_publishChannel := Some ch\<rparr>)) (\<lambda>_. io_return ch))"

fun replay :: "amqp_options \<Rightarrow> 's amqp_model \<Rightarrow> 'h sub_record list \<Rightarrow> 'h sub_record list \<Rightarrow> ('h, 's, unit) adapter_io" where
  "replay options model past [] = io_return ()"
| "replay options model past (record # records) =
    (if sr_active record
     then io_bind (on_cell (startConsumer options model record)) (\<lambda>record'.
          io_bind (on_adapter (\<lambda>a. a\<lparr>ad_subscriptions := past @ record' # records\<rparr>)) (\<lambda>_.
            replay options model (past @ [record']) records))
     else replay options model (past @ [record]) records)"

definition onSetup :: "amqp_options \<Rightarrow> 's amqp_model \<Rightarrow> ('h, 's, unit) adapter_io" where
  "onSetup options model =
    io_bind (on_adapter failPendingReturns) (\<lambda>_.
    io_bind (setupPublishChannel model) (\<lambda>ch.
    io_bind (on_cell (applyTopology options (md_channel model ch))) (\<lambda>_.
      \<lambda>(a, s). replay options model [] (ad_subscriptions a) (a, s))))"

record connect_options =
  co_connectionName :: "string option"
  co_recovery :: "amqp_recovery_options option"

record ('h, 's) amqp_lib =
  lib_connect :: "connect_options \<Rightarrow> ('s, jserr, nat) io"
  lib_recovering :: "connect_options \<Rightarrow> (nat \<Rightarrow> ('h, 's, unit) adapter_io) \<Rightarrow> ('h, 's, nat) adapter_io"
  lib_model :: "nat \<Rightarrow> 's amqp_model"

definition run_callback :: "('s, jserr, unit) io option \<Rightarrow> ('s, jserr, unit) io" where
  "run_callback cb = dflt cb (io_return ())"

definition recovery_enabled :: "amqp_options \<Rightarrow> bool" where
  "recovery_enabled options \<longleftrightarrow> am_recovery options \<noteq> Some (RecoveryFlag False)"

definition recovery_knobs :: "amqp_options \<Rightarrow> amqp_recovery_options" where
  "recovery_knobs options = (case am_recovery options of
      Some (RecoveryKnobs k) \<Rightarrow> k
    | _ \<Rightarrow> \<lparr>rv_initialDelay = None, rv_maxDelay = None, rv_factor = None, rv_jitter = None, rv_maxRetries = None\<rparr>)"

definition probe_setup :: "amqp_options \<Rightarrow> 's amqp_lifecycle \<Rightarrow> 's amqp_model \<Rightarrow> ('h, 's, unit) adapter_io" where
  "probe_setup options lifecycle model =
    io_bind (io_catch (io_bind (onSetup options model) (\<lambda>_. io_return None)) (\<lambda>err. io_return (Some err))) (\<lambda>failure.
    io_bind (on_cell (quietly (md_close model))) (\<lambda>_.
    io_bind (on_adapter clearPublishChannel) (\<lambda>_.
      case failure of
        None \<Rightarrow> io_return ()
      | Some err \<Rightarrow>
          if is_topology_error err
          then io_bind (on_cell (run_callback (map_option (\<lambda>f. f err True 0) (lc_onSetupFailed lifecycle)))) (\<lambda>_.
               if dflt (am_failFast options) False then io_throw err else io_return ())
          else io_return ())))"

definition probe :: "amqp_options \<Rightarrow> 's amqp_lifecycle \<Rightarrow> ('h, 's) amqp_lib \<Rightarrow> connect_options \<Rightarrow> ('h, 's, unit) adapter_io" where
  "probe options lifecycle lib copts =
    io_bind (io_catch (io_bind (on_cell (lib_connect lib copts)) (\<lambda>c. io_return (Some c))) (\<lambda>_. io_return None)) (\<lambda>p.
      case p of None \<Rightarrow> io_return () | Some c \<Rightarrow> probe_setup options lifecycle (lib_model lib c))"

definition amqp_connect :: "amqp_options \<Rightarrow> 's amqp_lifecycle \<Rightarrow> ('h, 's) amqp_lib \<Rightarrow> string option \<Rightarrow> ('h, 's, unit) adapter_io" where
  "amqp_connect options lifecycle lib serviceName = (\<lambda>(a, s).
    if ad_connection a \<noteq> None then (Inl (AmqpConnectionError ''AmqpAdapter: already connected''), (a, s))
    else
      (let name = truthy_group serviceName;
           plain = \<lparr>co_connectionName = name, co_recovery = None\<rparr>;
           connected = on_cell (run_callback (lc_onConnected lifecycle))
       in if recovery_enabled options
          then io_bind (if dflt (am_failFast options) False \<or> lc_onSetupFailed lifecycle \<noteq> None
                 then probe options lifecycle lib plain else io_return ()) (\<lambda>_.
               io_bind (lib_recovering lib (plain\<lparr>co_recovery := Some (recovery_knobs options)\<rparr>)
                  (\<lambda>c. onSetup options (lib_model lib c))) (\<lambda>c.
               io_bind (on_adapter (\<lambda>a. a\<lparr>ad_connection := Some c\<rparr>)) (\<lambda>_. connected)))
          else io_bind (on_cell (lib_connect lib plain)) (\<lambda>c.
               io_catch
                 (io_bind (onSetup options (lib_model lib c)) (\<lambda>_.
                  io_bind (on_adapter (\<lambda>a. a\<lparr>ad_connection := Some c\<rparr>)) (\<lambda>_. connected)))
                 (\<lambda>err. io_bind (on_cell (quietly (md_close (lib_model lib c)))) (\<lambda>_.
                    io_bind (on_adapter clearPublishChannel) (\<lambda>_. io_throw err)))))
      (a\<lparr>ad_closing := False\<rparr>, s))"

definition release_consumer :: "'s amqp_model \<Rightarrow> 'h sub_record \<Rightarrow> ('s, jserr, unit) io" where
  "release_consumer model record = (case sr_channel record of
      None \<Rightarrow> io_return ()
    | Some c \<Rightarrow> (let ch = md_channel model c in
        io_bind (case sr_consumerTag record of
            Some tag \<Rightarrow> if tag = [] then io_return () else quietly (ask ch (CancelConsumer tag))
          | None \<Rightarrow> io_return ()) (\<lambda>_.
        io_bind (if sr_isAutoGroup record then quietly (ask ch (DeleteQueue (sr_queueName record))) else io_return ()) (\<lambda>_.
          quietly (ask ch CloseChannel)))))"

definition amqp_disconnect :: "(nat \<Rightarrow> 's amqp_model) \<Rightarrow> 's amqp_model \<Rightarrow> ('h, 's, unit) adapter_io" where
  "amqp_disconnect model_of channels =
    io_bind (on_adapter (\<lambda>a. a\<lparr>ad_closing := True\<rparr>)) (\<lambda>_.
    io_bind (\<lambda>(a, s). on_cell (io_for (\<lambda>r. if sr_active r then release_consumer channels r else io_return ())
       (ad_subscriptions a)) (a, s)) (\<lambda>_.
    io_bind (on_adapter (\<lambda>a. a\<lparr>ad_subscriptions := []\<rparr>)) (\<lambda>_.
    io_bind (\<lambda>(a, s). on_cell (case ad_publishChannel a of None \<Rightarrow> io_return ()
       | Some c \<Rightarrow> quietly (ask (md_channel channels c) CloseChannel)) (a, s)) (\<lambda>_.
    io_bind (on_adapter clearPublishChannel) (\<lambda>_.
    io_bind (\<lambda>(a, s). on_cell (case ad_connection a of None \<Rightarrow> io_return ()
       | Some c \<Rightarrow> quietly (md_close (model_of c))) (a, s)) (\<lambda>_.
      on_adapter (\<lambda>a. failPendingReturns (a\<lparr>ad_connection := None\<rparr>))))))))"

definition amqp_subscribe :: "amqp_options \<Rightarrow> (nat \<Rightarrow> 's amqp_model) \<Rightarrow> string list \<Rightarrow> 'h \<Rightarrow> string option \<Rightarrow>
    ('h, 's, 'h sub_record) adapter_io" where
  "amqp_subscribe options model_of patterns handler grp = (\<lambda>(a, s). case ad_connection a of
      None \<Rightarrow> (Inl (AmqpConnectionError ''AmqpAdapter: not connected (or recovery in progress)''), (a, s))
    | Some c \<Rightarrow>
        io_bind (on_cell (startConsumer options (model_of c) \<lparr>sr_id = ad_nextId a, sr_patterns = patterns, sr_handler = handler, sr_group = grp,
          sr_channel = None, sr_consumerTag = None, sr_queueName = [], sr_isAutoGroup = (truthy_group grp = None),
          sr_active = True\<rparr>)) (\<lambda>record.
        io_bind (on_adapter (\<lambda>a. a\<lparr>ad_subscriptions := ad_subscriptions a @ [record]\<rparr>)) (\<lambda>_. io_return record))
        (a\<lparr>ad_nextId := Suc (ad_nextId a)\<rparr>, s))"

definition amqp_unsubscribe :: "'s amqp_model \<Rightarrow> nat \<Rightarrow> ('h, 's, unit) adapter_io" where
  "amqp_unsubscribe channels i = (\<lambda>(a, s). case find (\<lambda>r. sr_id r = i) (ad_subscriptions a) of
      None \<Rightarrow> (Inr (), (a, s))
    | Some record \<Rightarrow>
        io_bind (on_cell (release_consumer channels record)) (\<lambda>_.
          on_adapter (\<lambda>a. a\<lparr>ad_subscriptions := filter (\<lambda>r. sr_id r \<noteq> i) (ad_subscriptions a)\<rparr>)) (a, s))"

definition amqp_on_error :: "'s amqp_lifecycle \<Rightarrow> jserr \<Rightarrow> ('h, 's, unit) adapter_io" where
  "amqp_on_error lifecycle err = on_cell (run_callback (map_option (\<lambda>f. f err) (lc_onDisconnected lifecycle)))"

definition amqp_on_close :: "'h amqp_adapter \<Rightarrow> 'h amqp_adapter" where
  "amqp_on_close a = failPendingReturns (clearPublishChannel (a\<lparr>ad_connection := None\<rparr>))"

datatype recovery_event =
    RvConnect
  | RvDisconnect jserr
  | RvScheduled nat int jserr
  | RvConnectFailed jserr
  | RvReconnectFailed jserr

fun wireRecoveryLifecycle :: "'s amqp_lifecycle \<Rightarrow> recovery_event \<Rightarrow> ('h, 's, unit) adapter_io" where
  "wireRecoveryLifecycle lifecycle RvConnect =
    io_bind (on_adapter (\<lambda>a. a\<lparr>ad_reconnectAttempt := 0\<rparr>)) (\<lambda>_. on_cell (run_callback (lc_onConnected lifecycle)))"
| "wireRecoveryLifecycle lifecycle (RvDisconnect err) =
    io_bind (on_adapter failPendingReturns) (\<lambda>_.
      on_cell (run_callback (map_option (\<lambda>f. f err) (lc_onDisconnected lifecycle))))"
| "wireRecoveryLifecycle lifecycle (RvScheduled attempt delay err) =
    on_cell (run_callback (map_option (\<lambda>f. f attempt delay err) (lc_onReconnecting lifecycle)))"
| "wireRecoveryLifecycle lifecycle (RvConnectFailed err) =
    io_bind (on_adapter (\<lambda>a. (clearPublishChannel a)\<lparr>ad_reconnectAttempt := ad_reconnectAttempt a + 1\<rparr>)) (\<lambda>_. \<lambda>(a, s).
      (if is_topology_error err
       then on_cell (run_callback (map_option (\<lambda>f. f err False (ad_reconnectAttempt a)) (lc_onSetupFailed lifecycle)))
       else io_return ()) (a, s))"
| "wireRecoveryLifecycle lifecycle (RvReconnectFailed err) =
    io_bind (on_adapter clearPublishChannel) (\<lambda>_.
      on_cell (run_callback (map_option (\<lambda>f. f err) (lc_onReconnectFailed lifecycle))))"

section \<open>Which calls a setup makes\<close>

definition logged_channel :: "('c \<Rightarrow> ('s, 'e, 'a) io) \<Rightarrow> 'c \<Rightarrow> ('c list \<times> 's, 'e, 'a) io" where
  "logged_channel ch c = (\<lambda>(log, s). case ch c s of (r, s') \<Rightarrow> (r, (log @ [c], s')))"

definition makes :: "('c list \<times> 's, 'e, 'a) io \<Rightarrow> 'c list \<Rightarrow> bool" where
  "makes m cs \<longleftrightarrow> (\<forall>l s r l' s'. m (l, s) = (r, (l', s')) \<longrightarrow>
    (\<exists>k \<le> length cs. l' = l @ take k cs \<and> ((\<exists>x. r = Inr x) \<longrightarrow> k = length cs)))"

lemma makesD:
  assumes "makes m cs" "m (l, s) = (r, (l', s'))"
  obtains k where "k \<le> length cs" "l' = l @ take k cs" "\<And>x. r = Inr x \<Longrightarrow> k = length cs"
  using assms unfolding makes_def by blast

lemma makes_return [simp]: "makes (io_return x) []"
  by (simp add: makes_def io_return_def)

lemma makes_throw [simp]: "makes (io_throw e) cs"
  by (auto simp: makes_def io_throw_def intro: exI [of _ 0])

lemma makes_bind:
  assumes m: "makes m cs" and f: "\<And>x. makes (f x) ds"
  shows "makes (io_bind m f) (cs @ ds)"
  unfolding makes_def
proof (intro allI impI)
  fix l s r l' s'
  assume run: "io_bind m f (l, s) = (r, (l', s'))"
  obtain x t t' where ms: "m (l, s) = (x, (t, t'))" by (metis prod.exhaust)
  obtain k where k: "k \<le> length cs" "t = l @ take k cs" "\<And>y. x = Inr y \<Longrightarrow> k = length cs"
    using makesD [OF m ms] by blast
  show "\<exists>k \<le> length (cs @ ds). l' = l @ take k (cs @ ds) \<and> ((\<exists>x. r = Inr x) \<longrightarrow> k = length (cs @ ds))"
  proof (cases x)
    case (Inl e)
    then have "r = Inl e" "l' = l @ take k (cs @ ds)" using run ms k by (simp_all add: io_bind_def)
    then show ?thesis using k(1) by (intro exI [of _ k]) simp
  next
    case (Inr y)
    have "f y (t, t') = (r, (l', s'))" using run ms Inr by (simp add: io_bind_def)
    then obtain j where j: "j \<le> length ds" "l' = t @ take j ds" "\<And>z. r = Inr z \<Longrightarrow> j = length ds"
      using makesD [OF f] by blast
    show ?thesis using j k Inr by (intro exI [of _ "length cs + j"]) auto
  qed
qed

lemma makes_ask: "makes (ask (logged_channel ch) c) [c]"
  by (auto simp: makes_def ask_def io_bind_def logged_channel_def split: prod.splits sum.splits)

lemma makes_call: "makes (logged_channel ch c) [c]"
  by (auto simp: makes_def logged_channel_def split: prod.splits)

lemma makes_for: "(\<And>x. x \<in> set xs \<Longrightarrow> makes (f x) [g x]) \<Longrightarrow> makes (io_for f xs) (map g xs)"
proof (induction xs)
  case (Cons x xs)
  then show ?case using makes_bind [of "f x" "[g x]" "\<lambda>_. io_for f xs" "map g xs"] by simp
qed simp

lemma makes_catch_throw:
  assumes "makes m cs"
  shows "makes (io_catch m (\<lambda>e. io_throw (h e))) cs"
  unfolding makes_def
proof (intro allI impI)
  fix l s r l' s'
  assume run: "io_catch m (\<lambda>e. io_throw (h e)) (l, s) = (r, (l', s'))"
  obtain x t t' where ms: "m (l, s) = (x, (t, t'))" by (metis prod.exhaust)
  then have "l' = t" "(\<exists>y. r = Inr y) \<longrightarrow> (\<exists>y. x = Inr y)"
    using run by (auto simp: io_catch_def split: sum.splits)
  with makesD [OF assms ms] show "\<exists>k \<le> length cs. l' = l @ take k cs \<and> ((\<exists>x. r = Inr x) \<longrightarrow> k = length cs)"
    by metis
qed

definition check_calls :: "amqp_options \<Rightarrow> amqp_call list" where
  "check_calls options = CheckExchange (amqp_exchange options)
    # map (\<lambda>ex. CheckExchange (ax_name ex)) (topo_exchanges options)
    @ map (\<lambda>q. CheckQueue (aq_name q)) (topo_queues options)"

definition binding_call :: "amqp_binding_declaration \<Rightarrow> amqp_call" where
  "binding_call b = (case ab_queue b of
      Some q \<Rightarrow> BindQueue q (ab_source b) (ab_routingKey b) (ab_arguments b)
    | None \<Rightarrow> BindExchange (the (ab_exchange b)) (ab_source b) (ab_routingKey b) (ab_arguments b))"

definition assert_calls :: "amqp_options \<Rightarrow> amqp_call list" where
  "assert_calls options = AssertExchange (amqp_exchange options) (dflt (am_exchangeType options) ''topic'')
      (dflt (am_exchangeDurable options) True) (dflt (am_exchangeAutoDelete options) False) None
    # map (\<lambda>ex. AssertExchange (ax_name ex) (ax_type ex) (dflt (ax_durable ex) True) (dflt (ax_autoDelete ex) False)
        (ax_arguments ex)) (topo_exchanges options)
    @ map (\<lambda>q. AssertQueue (aq_name q) (dflt (aq_durable q) True) (dflt (aq_autoDelete q) False)
        (dflt (aq_exclusive q) False) (aq_arguments q)) (topo_queues options)
    @ map binding_call (topo_bindings options)"

definition topology_calls :: "amqp_options \<Rightarrow> amqp_call list" where
  "topology_calls options = (case amqp_mode options of
      SKIP \<Rightarrow> [] | CHECK \<Rightarrow> check_calls options | ASSERT \<Rightarrow> assert_calls options)"

lemma makes_binding: "makes (assert_binding (logged_channel ch) b) [binding_call b]"
  by (cases "ab_queue b"; cases "ab_exchange b")
    (simp_all add: assert_binding_def binding_call_def makes_ask)

lemma makes_cons: "makes m [c] \<Longrightarrow> (\<And>x. makes (f x) ds) \<Longrightarrow> makes (io_bind m f) (c # ds)"
  using makes_bind [of m "[c]" f ds] by simp

lemma applyTopology_makes: "makes (applyTopology options (logged_channel ch)) (topology_calls options)"
proof (cases "amqp_mode options")
  case SKIP
  then show ?thesis by (simp add: applyTopology_def topology_calls_def)
next
  case CHECK
  then show ?thesis
    unfolding applyTopology_def topology_calls_def check_topology_def check_calls_def
    by (simp, intro makes_catch_throw makes_cons makes_bind makes_ask makes_for)
next
  case ASSERT
  have h: "(\<lambda>err. if is_topology_error err then io_throw err else io_throw (topologyError m err)) =
      (\<lambda>err. io_throw (if is_topology_error err then err else topologyError m err))" for m
    by (simp add: fun_eq_iff)
  show ?thesis
    unfolding applyTopology_def topology_calls_def assert_topology_def assert_calls_def h
    using ASSERT
    by (simp, intro makes_catch_throw makes_cons makes_bind makes_ask makes_for makes_binding)
qed

lemma applyTopology_error: "applyTopology options ch s = (Inl e, s') \<Longrightarrow> is_topology_error e"
  by (auto simp: applyTopology_def check_topology_def assert_topology_def io_catch_def
      split: if_splits prod.splits sum.splits)

definition logged_model :: "'s amqp_model \<Rightarrow> (amqp_call list \<times> 's) amqp_model" where
  "logged_model model = \<lparr>md_createChannel = on_cell (md_createChannel model),
    md_createConfirmChannel = on_cell (md_createConfirmChannel model),
    md_channel = (\<lambda>c. logged_channel (md_channel model c)),
    md_close = on_cell (md_close model), md_randomUUID = on_cell (md_randomUUID model)\<rparr>"

definition group_queue_call :: "amqp_options \<Rightarrow> string option \<Rightarrow> string \<Rightarrow> amqp_call" where
  "group_queue_call options grp queueName = (case truthy_group grp of
      None \<Rightarrow> AssertQueue queueName False True (dflt (am_exclusive options) False)
        (queue_arguments options (find_override options grp))
    | Some _ \<Rightarrow> AssertQueue queueName
        (dflt (case find_override options grp of None \<Rightarrow> None | Some ov \<Rightarrow> ao_durable ov)
          (dflt (case am_queueOptions options of None \<Rightarrow> None | Some q \<Rightarrow> qo_durable q) True))
        False False (queue_arguments options (find_override options grp)))"

definition queue_calls :: "amqp_options \<Rightarrow> 'h sub_record \<Rightarrow> string \<Rightarrow> amqp_call list" where
  "queue_calls options record queueName =
    (let binds = map (\<lambda>p. BindQueue queueName (amqp_exchange options) (toAmqpPattern p) None) (sr_patterns record)
     in case amqp_mode options of
          SKIP \<Rightarrow> []
        | CHECK \<Rightarrow> [CheckQueue queueName]
        | ASSERT \<Rightarrow> if declared_in_topology options queueName then binds
            else group_queue_call options (sr_group record) queueName # binds)"

lemma makes_group_queue:
  "makes (assert_group_queue options (logged_channel ch) grp q) [group_queue_call options grp q]"
proof -
  have "assert_group_queue options (logged_channel ch) grp q = ask (logged_channel ch) (group_queue_call options grp q)"
    by (simp add: assert_group_queue_def group_queue_call_def dflt_def split: option.split)
  then show ?thesis by (simp add: makes_ask)
qed

lemma makes_binds:
  "makes (bind_patterns options (logged_channel ch) q ps)
    (map (\<lambda>p. BindQueue q (amqp_exchange options) (toAmqpPattern p) None) ps)"
  using makes_for [of "map toAmqpPattern ps" "\<lambda>p. ask (logged_channel ch) (BindQueue q (amqp_exchange options) p None)"
      "\<lambda>p. BindQueue q (amqp_exchange options) p None"]
  by (simp add: bind_patterns_def makes_ask comp_def)

text \<open>A step that closes its channel when it fails.\<close>

definition makes_or_closes :: "(amqp_call list \<times> 's, 'e, 'a) io \<Rightarrow> amqp_call list \<Rightarrow> bool" where
  "makes_or_closes m cs \<longleftrightarrow> (\<forall>l s r l' s'. m (l, s) = (r, (l', s')) \<longrightarrow>
    (case r of Inr _ \<Rightarrow> l' = l @ cs
     | Inl _ \<Rightarrow> \<exists>k. l' = l @ take k cs \<or> l' = l @ take k cs @ [CloseChannel]))"

lemma makes_or_closesD:
  "makes_or_closes m cs \<Longrightarrow> m (l, s) = (r, (l', s')) \<Longrightarrow>
    (case r of Inr _ \<Rightarrow> l' = l @ cs | Inl _ \<Rightarrow> \<exists>k. l' = l @ take k cs \<or> l' = l @ take k cs @ [CloseChannel])"
  unfolding makes_or_closes_def by blast

lemma makes_or_closes_weaken: "makes m cs \<Longrightarrow> makes_or_closes m cs"
  unfolding makes_or_closes_def
  by (intro allI impI) (erule makesD, assumption, auto split: sum.split)

lemma makes_or_closes_bind:
  assumes m: "makes_or_closes m cs" and f: "\<And>x. makes_or_closes (f x) ds"
  shows "makes_or_closes (io_bind m f) (cs @ ds)"
  unfolding makes_or_closes_def
proof (intro allI impI)
  fix l s r l' s'
  assume run: "io_bind m f (l, s) = (r, (l', s'))"
  obtain x t t' where ms: "m (l, s) = (x, (t, t'))" by (metis prod.exhaust)
  show "case r of Inr _ \<Rightarrow> l' = l @ cs @ ds
     | Inl _ \<Rightarrow> \<exists>k. l' = l @ take k (cs @ ds) \<or> l' = l @ take k (cs @ ds) @ [CloseChannel]"
  proof (cases x)
    case (Inl e)
    then have "r = Inl e" "l' = t" using run ms by (simp_all add: io_bind_def)
    moreover obtain k where "t = l @ take k cs \<or> t = l @ take k cs @ [CloseChannel]"
      using m ms Inl unfolding makes_or_closes_def by fastforce
    moreover have "take k cs = take (min k (length cs)) (cs @ ds)" by (simp add: min_def)
    ultimately have "l' = l @ take (min k (length cs)) (cs @ ds) \<or>
        l' = l @ take (min k (length cs)) (cs @ ds) @ [CloseChannel]" by (metis append_assoc)
    then show ?thesis unfolding \<open>r = Inl e\<close> sum.case by blast
  next
    case (Inr y)
    have t: "t = l @ cs" using m ms Inr unfolding makes_or_closes_def by fastforce
    have fy: "f y (t, t') = (r, (l', s'))" using run ms Inr by (simp add: io_bind_def)
    show ?thesis
    proof (cases r)
      case (Inl e)
      then obtain k where "l' = t @ take k ds \<or> l' = t @ take k ds @ [CloseChannel]"
        using f [of y] fy unfolding makes_or_closes_def by fastforce
      then show ?thesis using Inl t by (auto intro: exI [of _ "length cs + k"])
    next
      case (Inr z)
      then show ?thesis using f [of y] fy t unfolding makes_or_closes_def by fastforce
    qed
  qed
qed

lemma close_and_throw_makes:
  assumes "makes m cs"
  shows "makes_or_closes (close_and_throw (logged_channel ch) msg m) cs"
  unfolding makes_or_closes_def
proof (intro allI impI)
  fix l s r l' s'
  assume run: "close_and_throw (logged_channel ch) msg m (l, s) = (r, (l', s'))"
  obtain x t t' where ms: "m (l, s) = (x, (t, t'))" by (metis prod.exhaust)
  obtain k where k: "t = l @ take k cs" "\<And>y. x = Inr y \<Longrightarrow> k = length cs"
    using makesD [OF assms ms] by blast
  show "case r of Inr _ \<Rightarrow> l' = l @ cs
     | Inl _ \<Rightarrow> \<exists>k. l' = l @ take k cs \<or> l' = l @ take k cs @ [CloseChannel]"
  proof (cases x)
    case (Inr y)
    then have "r = Inr y" "l' = t" using run ms by (simp_all add: close_and_throw_def io_catch_def)
    then show ?thesis using k Inr by simp
  next
    case (Inl e)
    obtain z w where c: "ch CloseChannel t' = (z, w)" by (metis prod.exhaust)
    have "close_and_throw (logged_channel ch) msg m (l, s) = (Inl (topologyError msg e), (t @ [CloseChannel], w))"
      by (cases z) (simp_all add: close_and_throw_def io_catch_def ms Inl io_bind_def quietly_def ask_def
          logged_channel_def c)
    then have "r = Inl (topologyError msg e) \<and> l' = t @ [CloseChannel]" using run by simp
    then show ?thesis using k by auto
  qed
qed

lemma prepare_queue_makes:
  "makes_or_closes (prepare_queue options (logged_channel ch) record q) (queue_calls options record q)"
proof (cases "amqp_mode options")
  case ASSERT
  show ?thesis
  proof (cases "declared_in_topology options q")
    case True
    then show ?thesis using ASSERT
      by (simp add: prepare_queue_def queue_calls_def Let_def close_and_throw_makes makes_binds)
  next
    case False
    have "makes (io_bind (assert_group_queue options (logged_channel ch) (sr_group record) q)
        (\<lambda>_. bind_patterns options (logged_channel ch) q (sr_patterns record)))
      (group_queue_call options (sr_group record) q #
        map (\<lambda>p. BindQueue q (amqp_exchange options) (toAmqpPattern p) None) (sr_patterns record))"
      by (intro makes_cons makes_group_queue makes_binds)
    then show ?thesis using ASSERT False
      by (simp add: prepare_queue_def queue_calls_def Let_def close_and_throw_makes)
  qed
qed (simp_all add: prepare_queue_def queue_calls_def Let_def close_and_throw_makes makes_ask makes_or_closes_weaken)

definition consumer_calls :: "amqp_options \<Rightarrow> 'h sub_record \<Rightarrow> string \<Rightarrow> amqp_call list" where
  "consumer_calls options record q = Prefetch (dflt (am_prefetch options) 10) # queue_calls options record q @ [Consume q]"

lemma makes_on_cell: "makes (on_cell m) []"
  by (auto simp: makes_def split: prod.splits)

lemma queue_name_run:
  "queue_name options grp (on_cell u) (l, s) = (r, (l', s')) \<Longrightarrow> l' = l \<and>
    (\<forall>q. r = Inr q \<longrightarrow> (\<forall>ov. find_override options grp = Some ov \<longrightarrow> q = ao_queue ov) \<and>
      (\<forall>g. find_override options grp = None \<longrightarrow> truthy_group grp = Some g \<longrightarrow> q = amqp_exchange options @ ''.'' @ g))"
  by (auto simp: queue_name_def io_bind_def io_return_def split: option.splits prod.splits sum.splits)

definition consume_queue :: "amqp_options \<Rightarrow> 's amqp_channel \<Rightarrow> nat \<Rightarrow> 'h sub_record \<Rightarrow> string \<Rightarrow> ('s, jserr, 'h sub_record) io" where
  "consume_queue options ch c record q =
    io_bind (prepare_queue options ch record q) (\<lambda>_.
    io_bind (close_and_throw ch (''Failed to consume from queue '' @ q) (ch (Consume q))) (\<lambda>tag.
      io_return (record\<lparr>sr_channel := Some c, sr_consumerTag := Some tag, sr_queueName := q,
        sr_isAutoGroup := (truthy_group (sr_group record) = None)\<rparr>)))"

lemma consume_queue_makes:
  "makes_or_closes (consume_queue options (logged_channel ch) c record q) (queue_calls options record q @ [Consume q])"
proof -
  have "makes_or_closes (consume_queue options (logged_channel ch) c record q) (queue_calls options record q @ [Consume q] @ [])"
    unfolding consume_queue_def
    by (intro makes_or_closes_bind prepare_queue_makes close_and_throw_makes makes_call
        makes_or_closes_weaken [OF makes_return])
  then show ?thesis by simp
qed

lemma consume_queue_result:
  "consume_queue options ch c record q s = (Inr record', s') \<Longrightarrow>
    sr_queueName record' = q \<and> sr_channel record' = Some c \<and> sr_patterns record' = sr_patterns record \<and>
    sr_handler record' = sr_handler record \<and> sr_active record' = sr_active record"
  by (auto simp: consume_queue_def io_bind_eq_Inr)

lemma startConsumer_run:
  assumes run: "startConsumer options (logged_model model) record (l, s) = (r, (l', s'))"
  obtains "l' = l" "\<exists>e. r = Inl e"
  | "l' = l @ [Prefetch (dflt (am_prefetch options) 10)]" "\<exists>e. r = Inl e"
  | q c t where "consume_queue options (logged_channel (md_channel model c)) c record q
      (l @ [Prefetch (dflt (am_prefetch options) 10)], t) = (r, (l', s'))"
proof -
  obtain x t where c: "md_createChannel model s = (x, t)" by (metis prod.exhaust)
  show ?thesis
  proof (cases x)
    case (Inl e)
    then have "r = Inl e" "l' = l" using run c by (simp_all add: startConsumer_def logged_model_def io_bind_def)
    then show ?thesis using that(1) by blast
  next
    case (Inr ch)
    let ?p = "Prefetch (dflt (am_prefetch options) 10)"
    let ?l = "l @ [?p]"
    obtain y u where p: "md_channel model ch ?p t = (y, u)" by (metis prod.exhaust)
    have pre: "ask (logged_channel (md_channel model ch)) ?p (l, t) = (map_sum id (\<lambda>_. ()) y, (?l, u))"
      by (cases y) (simp_all add: ask_def io_bind_def logged_channel_def p)
    have run1: "io_bind (ask (logged_channel (md_channel model ch)) ?p) (\<lambda>_.
        io_bind (queue_name options (sr_group record) (on_cell (md_randomUUID model))) (\<lambda>q.
          consume_queue options (logged_channel (md_channel model ch)) ch record q)) (l, t) = (r, (l', s'))"
      using run c Inr by (simp add: startConsumer_def logged_model_def io_bind_def [of "on_cell _"] Let_def consume_queue_def)
    show ?thesis
    proof (cases y)
      case (Inl e)
      then have "r = Inl e" "l' = ?l" using run1 unfolding io_bind_def [of "ask _ _"] pre by simp_all
      then show ?thesis using that(2) by blast
    next
      case yok: (Inr v)
      obtain z l2 w where n: "queue_name options (sr_group record) (on_cell (md_randomUUID model)) (?l, u) = (z, (l2, w))"
        by (metis prod.exhaust)
      have l2: "l2 = ?l" using queue_name_run [OF n] by simp
      have run2: "io_bind (queue_name options (sr_group record) (on_cell (md_randomUUID model))) (\<lambda>q.
          consume_queue options (logged_channel (md_channel model ch)) ch record q) (?l, u) = (r, (l', s'))"
        using run1 unfolding io_bind_def [of "ask _ _"] pre yok by simp
      show ?thesis
      proof (cases z)
        case (Inl e)
        then have "r = Inl e" "l' = ?l" using run2 unfolding io_bind_def [of "queue_name _ _ _"] n l2 by simp_all
        then show ?thesis using that(2) by blast
      next
        case (Inr q)
        then have "consume_queue options (logged_channel (md_channel model ch)) ch record q (?l, w) = (r, (l', s'))"
          using run2 unfolding io_bind_def [of "queue_name _ _ _"] n l2 by simp
        then show ?thesis by (rule that(3))
      qed
    qed
  qed
qed

fun passive_call :: "amqp_call \<Rightarrow> bool" where
  "passive_call (CheckExchange _) = True"
| "passive_call (CheckQueue _) = True"
| "passive_call (Prefetch _) = True"
| "passive_call (Consume _) = True"
| "passive_call _ = False"

lemma consumer_calls_asserts:
  "AssertQueue n d a e args \<in> set (consumer_calls options record q) \<Longrightarrow>
    amqp_mode options = ASSERT \<and> n = q \<and> \<not> declared_in_topology options q"
  by (auto simp: consumer_calls_def queue_calls_def group_queue_call_def Let_def
      split: AmqpTopologyMode.splits if_splits option.splits)

lemma passive_modes:
  "amqp_mode options \<noteq> ASSERT \<Longrightarrow> list_all passive_call (topology_calls options @ consumer_calls options record q)"
  by (cases "amqp_mode options")
    (auto simp: topology_calls_def check_calls_def consumer_calls_def queue_calls_def Let_def list_all_iff)

lemma startConsumer_calls:
  assumes "startConsumer options (logged_model model) record (l, s) = (r, (l', s'))"
  shows "\<exists>q k. (l' = l @ take k (consumer_calls options record q) \<or>
      l' = l @ take k (consumer_calls options record q) @ [CloseChannel]) \<and>
    (\<forall>record'. r = Inr record' \<longrightarrow> l' = l @ consumer_calls options record q \<and> sr_queueName record' = q)"
  using assms
proof (cases rule: startConsumer_run)
  case 1
  then show ?thesis by (intro exI [of _ "[]"] exI [of _ 0]) auto
next
  case 2
  then show ?thesis by (intro exI [of _ "[]"] exI [of _ 1]) (auto simp: consumer_calls_def)
next
  case (3 q c t)
  let ?p = "Prefetch (dflt (am_prefetch options) 10)"
  have m: "case r of Inr _ \<Rightarrow> l' = (l @ [?p]) @ queue_calls options record q @ [Consume q]
      | Inl _ \<Rightarrow> \<exists>k. l' = (l @ [?p]) @ take k (queue_calls options record q @ [Consume q]) \<or>
          l' = (l @ [?p]) @ take k (queue_calls options record q @ [Consume q]) @ [CloseChannel]"
    by (rule makes_or_closesD [OF consume_queue_makes 3])
  show ?thesis
  proof (cases r)
    case (Inl e)
    then obtain k where "l' = (l @ [?p]) @ take k (queue_calls options record q @ [Consume q]) \<or>
          l' = (l @ [?p]) @ take k (queue_calls options record q @ [Consume q]) @ [CloseChannel]" using m by auto
    then have "l' = l @ take (Suc k) (consumer_calls options record q) \<or>
        l' = l @ take (Suc k) (consumer_calls options record q) @ [CloseChannel]" by (simp add: consumer_calls_def)
    then show ?thesis using Inl by blast
  next
    case (Inr record')
    then have "l' = l @ consumer_calls options record q" using m by (simp add: consumer_calls_def)
    moreover have "sr_queueName record' = q" using consume_queue_result [OF 3 [unfolded Inr]] by simp
    ultimately show ?thesis using Inr
      by (intro exI [of _ q] exI [of _ "length (consumer_calls options record q)"]) simp
  qed
qed


definition quiet_model :: "unit amqp_model" where
  "quiet_model = \<lparr>md_createChannel = io_return 7, md_createConfirmChannel = io_return 8,
    md_channel = (\<lambda>c call. io_return ''tag''), md_close = io_return (), md_randomUUID = io_return ''u''\<rparr>"

definition plain_options :: "amqp_options" where
  "plain_options = \<lparr>am_exchange = None, am_exchangeType = None, am_exchangeDurable = None, am_exchangeAutoDelete = None,
    am_queueOptions = None, am_prefetch = None, am_exclusive = None, am_publisherOptions = None, am_serialization = None,
    am_topology = None, am_topologyMode = None, am_queueOverrides = None, am_recovery = None, am_failFast = None,
    am_publishTimeoutMs = None\<rparr>"

definition plain_record :: "unit sub_record" where
  "plain_record = \<lparr>sr_id = 0, sr_patterns = [''a.>''], sr_handler = (), sr_group = Some ''g'', sr_channel = None,
    sr_consumerTag = None, sr_queueName = [], sr_isAutoGroup = False, sr_active = True\<rparr>"


end
