(* ===== verification/AmqpPublish.thy ===== *)
theory AmqpPublish
  imports Prelude Connect EventTopics EventMiddleware EventBus Amqp EventAdapter
begin

text \<open>
  packages/events-amqp/src/AmqpAdapter.ts, its data side: the message a publication puts on the wire,
  the event a delivery makes of a message and how it is settled, and the outcome of a publication.

  A publication is a job with an index; its PendingReturn object is the flag of the job, and
  pendingReturns maps publish ids to jobs. The broker's frames, the timers and the recovery of the
  connection are steps of the environment, labelled so that a run leaves a trace. Ids come from
  uid, which is injective where it matters (randomUUID). The text that amqplib gives a closed channel
  is looked for as the source's regular expression does, without regard to case.
\<close>

section \<open>The message of a publication\<close>

record publish_options =
  pl_topic :: "string option"
  pl_metadata :: "(string, string) omap option"
  pl_key :: "string option"
  pl_messageId :: "string option"
  pl_timestamp :: "int option"

record amqp_outgoing =
  og_exchange :: string
  og_routingKey :: string
  og_body :: "nat list"
  og_persistent :: bool
  og_mandatory :: bool
  og_headers :: "(string, string) omap"
  og_contentType :: string
  og_messageId :: "string option"
  og_timestamp :: "int option"

definition PUBLISH_ID_HEADER :: string where
  "PUBLISH_ID_HEADER = ''x-connectum-publish-id''"

definition internal_header :: "string \<Rightarrow> bool" where
  "internal_header key \<longleftrightarrow> key = ''x-event-id'' \<or> key = ''x-published-at'' \<or> key = PUBLISH_ID_HEADER"

definition publisher_flag :: "(amqp_publisher_options \<Rightarrow> bool option) \<Rightarrow> bool \<Rightarrow> amqp_options \<Rightarrow> bool" where
  "publisher_flag f d options = (case am_publisherOptions options of None \<Rightarrow> d | Some p \<Rightarrow> dflt (f p) d)"

definition externalContract :: "amqp_options \<Rightarrow> bool" where
  "externalContract options = publisher_flag po_externalContract False options"

definition correlationHeader :: "amqp_options \<Rightarrow> bool" where
  "correlationHeader options = (if externalContract options then False else publisher_flag po_correlationHeader True options)"

definition user_headers :: "(string, string) omap option \<Rightarrow> (string, string) omap" where
  "user_headers metadata = (case metadata of
      None \<Rightarrow> []
    | Some md \<Rightarrow> fold (\<lambda>(key, v) h. if internal_header key then h else om_set key v h) md [])"

definition publish_headers :: "amqp_options \<Rightarrow> string \<Rightarrow> string \<Rightarrow> (string, string) omap option \<Rightarrow> (string, string) omap" where
  "publish_headers options eventId nowISO metadata =
    (let h1 = user_headers metadata;
         h2 = (if externalContract options then h1
               else om_set ''x-published-at'' nowISO (om_set ''x-event-id'' eventId h1))
     in if publisher_flag po_mandatory False options \<and> correlationHeader options
        then om_set PUBLISH_ID_HEADER eventId h2 else h2)"

definition encode_body :: "amqp_options \<Rightarrow> nat list \<Rightarrow> jserr + nat list" where
  "encode_body options payload =
    (case (case am_serialization options of None \<Rightarrow> None | Some z \<Rightarrow> sz_encode z) of
       None \<Rightarrow> Inr payload
     | Some encode \<Rightarrow> (case encode payload of
         Inl err \<Rightarrow> Inl (AmqpSerializationError (''Payload encoding failed: '' @ je_message err))
       | Inr b \<Rightarrow> Inr b))"

definition publish_message :: "amqp_options \<Rightarrow> string \<Rightarrow> string \<Rightarrow> int \<Rightarrow> string \<Rightarrow> nat list \<Rightarrow> publish_options option \<Rightarrow>
    jserr + amqp_outgoing" where
  "publish_message options eventId nowISO nowSec eventType payload popts =
    res_bind (encode_body options payload) (\<lambda>body.
      Inr \<lparr>og_exchange = amqp_exchange options, og_routingKey = eventType, og_body = body,
        og_persistent = publisher_flag po_persistent True options,
        og_mandatory = publisher_flag po_mandatory False options,
        og_headers = publish_headers options eventId nowISO (case popts of None \<Rightarrow> None | Some p \<Rightarrow> pl_metadata p),
        og_contentType = dflt (case am_serialization options of None \<Rightarrow> None | Some z \<Rightarrow> sz_contentType z) ''application/protobuf'',
        og_messageId = (case (case popts of None \<Rightarrow> None | Some p \<Rightarrow> pl_messageId p) of
            Some i \<Rightarrow> Some i | None \<Rightarrow> if externalContract options then None else Some eventId),
        og_timestamp = (case (case popts of None \<Rightarrow> None | Some p \<Rightarrow> pl_timestamp p) of
            Some ts \<Rightarrow> Some ts | None \<Rightarrow> if externalContract options then None else Some nowSec)\<rparr>)"

section \<open>The event of a delivery\<close>

record amqp_message =
  mg_content :: "nat list"
  mg_routingKey :: string
  mg_redelivered :: bool
  mg_headers :: "(string, string option) omap option"
  mg_messageId :: "string option"
  mg_timestamp :: "int option"

definition parseHeaders :: "(string, string option) omap option \<Rightarrow> (string, string) omap" where
  "parseHeaders headers = (case headers of
      None \<Rightarrow> []
    | Some hs \<Rightarrow> fold (\<lambda>(key, v) m. case v of None \<Rightarrow> m | Some s \<Rightarrow> om_set key s m) hs [])"

definition published_at :: "(string \<Rightarrow> int option) \<Rightarrow> int \<Rightarrow> string option \<Rightarrow> int option \<Rightarrow> int" where
  "published_at parseDate now header timestamp =
    dflt (case header of
        Some str \<Rightarrow> if str \<noteq> [] then parseDate str
          else (case timestamp of Some ts \<Rightarrow> Some (if ts \<noteq> 0 then ts * 1000 else now) | None \<Rightarrow> Some now)
      | None \<Rightarrow> (case timestamp of Some ts \<Rightarrow> Some (if ts \<noteq> 0 then ts * 1000 else now) | None \<Rightarrow> Some now)) now"

definition decode_body :: "amqp_options \<Rightarrow> nat list \<Rightarrow> jserr + nat list" where
  "decode_body options content =
    (case (case am_serialization options of None \<Rightarrow> None | Some z \<Rightarrow> sz_decode z) of
       None \<Rightarrow> Inr content | Some decode \<Rightarrow> decode content)"

definition delivered_event :: "amqp_options \<Rightarrow> (string \<Rightarrow> int option) \<Rightarrow> int \<Rightarrow> string \<Rightarrow> amqp_message \<Rightarrow> jserr + raw_event" where
  "delivered_event options parseDate now uuid msg =
    (let msgHeaders = parseHeaders (mg_headers msg);
         eventId = (case om_get msgHeaders ''x-event-id'' of Some i \<Rightarrow> i | None \<Rightarrow> dflt (mg_messageId msg) uuid);
         publishedAt = published_at parseDate now (om_get msgHeaders ''x-published-at'') (mg_timestamp msg);
         metadata = om_del PUBLISH_ID_HEADER (om_del ''x-published-at'' (om_del ''x-event-id'' msgHeaders))
     in res_bind (decode_body options (mg_content msg)) (\<lambda>payload.
          Inr \<lparr>re_eventId = eventId, re_eventType = mg_routingKey msg, re_payload = payload, re_publishedAt = publishedAt,
            re_attempt = (if mg_redelivered msg then 2 else 1), re_metadata = metadata\<rparr>))"

type_synonym 's raw_handler = "raw_event \<Rightarrow> ('s, jserr, unit) io \<Rightarrow> (bool \<Rightarrow> ('s, jserr, unit) io) \<Rightarrow> ('s, jserr, unit) io"

definition amqp_delivery :: "amqp_options \<Rightarrow> (string \<Rightarrow> int option) \<Rightarrow> int \<Rightarrow> string \<Rightarrow> (settle_call \<Rightarrow> ('s, jserr, unit) io) \<Rightarrow>
    's raw_handler \<Rightarrow> amqp_message option \<Rightarrow> ('s, jserr, unit) io" where
  "amqp_delivery options parseDate now uuid channel handler msg = (case msg of
      None \<Rightarrow> io_return ()
    | Some m \<Rightarrow> (case delivered_event options parseDate now uuid m of
        Inl _ \<Rightarrow> channel (NackCall False)
      | Inr event \<Rightarrow> io_catch (handler event (channel AckCall) (\<lambda>requeue. channel (NackCall (requeue \<noteq> False))))
          (\<lambda>_. channel (NackCall True))))"

section \<open>The outcome of a publication\<close>

definition isConnectionLostError :: "jserr \<Rightarrow> bool" where
  "isConnectionLostError err \<longleftrightarrow> je_class err \<noteq> NonErrorC \<and>
    list_ex (\<lambda>phrase. sublist phrase (js_lower (je_message err)))
      [''channel closed'', ''connection closed'', ''closed unexpectedly'']"

definition classifyConfirmError :: "jserr \<Rightarrow> bool \<Rightarrow> bool \<Rightarrow> bool \<Rightarrow> string \<Rightarrow> jserr" where
  "classifyConfirmError err closing channelClosed channelSwapped routingKey =
    (if closing \<or> channelClosed \<or> channelSwapped \<or> isConnectionLostError err
     then AmqpConnectionError ''Connection lost while awaiting publish confirm''
     else AmqpPublishNackError (''Broker nacked message for routing key '' @ routingKey))"

datatype publish_state = Queued | InFlight | Confirmed | Rejected jserr

record publish_job =
  pj_mandatory :: bool
  pj_channel :: nat
  pj_key :: string
  pj_state :: publish_state
  pj_returned :: bool

record amqp_pub =
  pb_adapter :: "unit amqp_adapter"
  pb_jobs :: "publish_job list"

definition job_settled :: "publish_job \<Rightarrow> bool" where
  "job_settled j \<longleftrightarrow> pj_state j = Confirmed \<or> (\<exists>e. pj_state j = Rejected e)"

definition set_job :: "nat \<Rightarrow> publish_state \<Rightarrow> amqp_pub \<Rightarrow> amqp_pub" where
  "set_job i st p = p\<lparr>pb_jobs := (pb_jobs p)[i := (pb_jobs p ! i)\<lparr>pj_state := st\<rparr>]\<rparr>"

definition map_pending :: "((string, nat) omap \<Rightarrow> (string, nat) omap) \<Rightarrow> amqp_pub \<Rightarrow> amqp_pub" where
  "map_pending f p = p\<lparr>pb_adapter := (pb_adapter p)\<lparr>ad_pendingReturns := f (ad_pendingReturns (pb_adapter p))\<rparr>\<rparr>"

definition settle_job :: "(nat \<Rightarrow> string) \<Rightarrow> nat \<Rightarrow> publish_state \<Rightarrow> amqp_pub \<Rightarrow> amqp_pub" where
  "settle_job uid i st p =
    (if i < length (pb_jobs p) \<and> pj_state (pb_jobs p ! i) = InFlight
     then (let p' = set_job i st p in if pj_mandatory (pb_jobs p ! i) then map_pending (om_del (uid i)) p' else p')
     else p)"

definition start_job :: "(nat \<Rightarrow> string) \<Rightarrow> jserr option \<Rightarrow> nat \<Rightarrow> amqp_pub \<Rightarrow> amqp_pub" where
  "start_job uid thrown i p =
    (let p1 = set_job i InFlight p;
         p2 = (if pj_mandatory (pb_jobs p ! i) then map_pending (om_set (uid i) i) p1 else p1)
     in case thrown of None \<Rightarrow> p2
       | Some err \<Rightarrow> settle_job uid i (Rejected (AmqpConnectionError (''Publish failed: '' @ je_message err))) p2)"

definition not_connected :: jserr where
  "not_connected = AmqpConnectionError ''AmqpAdapter: not connected (or recovery in progress)''"

definition publish_call :: "amqp_options \<Rightarrow> (nat \<Rightarrow> string) \<Rightarrow> string \<Rightarrow> nat list \<Rightarrow> jserr option \<Rightarrow> amqp_pub \<Rightarrow> amqp_pub" where
  "publish_call options uid key payload thrown p =
    (let i = length (pb_jobs p); mandatory = publisher_flag po_mandatory False options;
         add = (\<lambda>ch st. p\<lparr>pb_jobs := pb_jobs p @ [\<lparr>pj_mandatory = mandatory, pj_channel = ch, pj_key = key, pj_state = st,
           pj_returned = False\<rparr>]\<rparr>)
     in case ad_publishChannel (pb_adapter p) of
          None \<Rightarrow> add 0 (Rejected not_connected)
        | Some ch \<Rightarrow>
            if ad_closing (pb_adapter p) then add ch (Rejected not_connected)
            else (case encode_body options payload of
                Inl err \<Rightarrow> add ch (Rejected err)
              | Inr body \<Rightarrow>
                  if mandatory \<and> \<not> correlationHeader options then add ch Queued
                  else start_job uid thrown i (add ch Queued)))"

definition timeout_error :: "amqp_options \<Rightarrow> string \<Rightarrow> jserr" where
  "timeout_error options key = AmqpPublishTimeoutError (''No broker outcome within ''
    @ show_int (dflt (am_publishTimeoutMs options) 30000) @ ''ms for routing key '' @ key @ '' (message state UNKNOWN)'')"

definition confirm_state :: "amqp_pub \<Rightarrow> publish_job \<Rightarrow> jserr option \<Rightarrow> publish_state" where
  "confirm_state p j err = (case err of
      Some e \<Rightarrow> Rejected (classifyConfirmError e (ad_closing (pb_adapter p))
        (pj_channel j \<in> set (ad_closedChannels (pb_adapter p))) (ad_publishChannel (pb_adapter p) \<noteq> Some (pj_channel j)) (pj_key j))
    | None \<Rightarrow> if pj_returned j then Rejected (AmqpUnroutableError (''Message unroutable (mandatory): no queue bound for routing key '' @ pj_key j))
        else Confirmed)"

definition mark_returned :: "nat \<Rightarrow> amqp_pub \<Rightarrow> amqp_pub" where
  "mark_returned i p = p\<lparr>pb_jobs := (pb_jobs p)[i := (pb_jobs p ! i)\<lparr>pj_returned := True\<rparr>]\<rparr>"

definition return_frame :: "string option \<Rightarrow> amqp_pub \<Rightarrow> amqp_pub" where
  "return_frame header p = (case header of
      Some pid \<Rightarrow> (case om_get (ad_pendingReturns (pb_adapter p)) pid of None \<Rightarrow> p | Some i \<Rightarrow> mark_returned i p)
    | None \<Rightarrow> fold (\<lambda>(k, i) p. mark_returned i p) (ad_pendingReturns (pb_adapter p)) p)"

definition on_pub :: "(unit amqp_adapter \<Rightarrow> unit amqp_adapter) \<Rightarrow> amqp_pub \<Rightarrow> amqp_pub" where
  "on_pub f p = p\<lparr>pb_adapter := f (pb_adapter p)\<rparr>"

definition trackChannelClose :: "nat \<Rightarrow> amqp_pub \<Rightarrow> amqp_pub" where
  "trackChannelClose ch p = on_pub (\<lambda>a. a\<lparr>ad_closedChannels := ch # ad_closedChannels a\<rparr>) p"

datatype pub_label =
    LCall
  | LStart nat
  | LConfirm nat "jserr option"
  | LTimeout nat
  | LReturn nat
  | LChannelClosed nat
  | LNewChannel nat
  | LNoChannel
  | LFailReturns
  | LClosing bool

definition may_start :: "nat \<Rightarrow> amqp_pub \<Rightarrow> bool" where
  "may_start i p \<longleftrightarrow> i < length (pb_jobs p) \<and> pj_state (pb_jobs p ! i) = Queued \<and>
    (\<forall>j < i. pj_state (pb_jobs p ! j) \<noteq> Queued \<and> pj_state (pb_jobs p ! j) \<noteq> InFlight)"

inductive pub_step :: "amqp_options \<Rightarrow> (nat \<Rightarrow> string) \<Rightarrow> amqp_pub \<Rightarrow> pub_label \<Rightarrow> amqp_pub \<Rightarrow> bool"
  for options uid where
  pub_call: "pub_step options uid p LCall (publish_call options uid key payload thrown p)"
| pub_start: "may_start i p \<Longrightarrow> pub_step options uid p (LStart i) (start_job uid thrown i p)"
| pub_confirm: "i < length (pb_jobs p) \<Longrightarrow>
    pub_step options uid p (LConfirm i err) (settle_job uid i (confirm_state p (pb_jobs p ! i) err) p)"
| pub_timeout: "i < length (pb_jobs p) \<Longrightarrow>
    pub_step options uid p (LTimeout i) (settle_job uid i (Rejected (timeout_error options (pj_key (pb_jobs p ! i)))) p)"
| pub_return: "i < length (pb_jobs p) \<Longrightarrow> pj_mandatory (pb_jobs p ! i) \<Longrightarrow> pj_state (pb_jobs p ! i) \<noteq> Queued \<Longrightarrow>
    pub_step options uid p (LReturn i) (return_frame (if correlationHeader options then Some (uid i) else None) p)"
| pub_closed: "pub_step options uid p (LChannelClosed ch) (trackChannelClose ch p)"
| pub_channel: "pub_step options uid p (LNewChannel ch) (on_pub (\<lambda>a. a\<lparr>ad_publishChannel := Some ch\<rparr>) p)"
| pub_nochannel: "pub_step options uid p LNoChannel (on_pub clearPublishChannel p)"
| pub_fail: "pub_step options uid p LFailReturns (on_pub failPendingReturns p)"
| pub_closing: "pub_step options uid p (LClosing b) (on_pub (\<lambda>a. a\<lparr>ad_closing := b\<rparr>) p)"

inductive pub_reach :: "amqp_options \<Rightarrow> (nat \<Rightarrow> string) \<Rightarrow> pub_label list \<Rightarrow> amqp_pub \<Rightarrow> bool" for options uid where
  pub_init: "pub_reach options uid [] \<lparr>pb_adapter = adapter_new, pb_jobs = []\<rparr>"
| pub_more: "pub_reach options uid tr p \<Longrightarrow> pub_step options uid p l p' \<Longrightarrow> pub_reach options uid (tr @ [l]) p'"

section \<open>Invariants of publishing\<close>

lemma set_job_sel [simp]:
  "length (pb_jobs (set_job i st p)) = length (pb_jobs p)"
  "pb_adapter (set_job i st p) = pb_adapter p"
  "k < length (pb_jobs p) \<Longrightarrow> pb_jobs (set_job i st p) ! k =
    (if k = i then (pb_jobs p ! k)\<lparr>pj_state := st\<rparr> else pb_jobs p ! k)"
  by (simp_all add: set_job_def)

lemma map_pending_sel [simp]:
  "pb_jobs (map_pending f p) = pb_jobs p"
  "ad_pendingReturns (pb_adapter (map_pending f p)) = f (ad_pendingReturns (pb_adapter p))"
  by (simp_all add: map_pending_def)

lemma mark_returned_sel [simp]:
  "length (pb_jobs (mark_returned i p)) = length (pb_jobs p)"
  "pb_adapter (mark_returned i p) = pb_adapter p"
  "k < length (pb_jobs p) \<Longrightarrow> pb_jobs (mark_returned i p) ! k =
    (if k = i then (pb_jobs p ! k)\<lparr>pj_returned := True\<rparr> else pb_jobs p ! k)"
  by (simp_all add: mark_returned_def)

lemma on_pub_sel [simp]: "pb_jobs (on_pub f p) = pb_jobs p" "pb_adapter (on_pub f p) = f (pb_adapter p)"
  by (simp_all add: on_pub_def)

abbreviation (input) "pending p \<equiv> ad_pendingReturns (pb_adapter p)"

lemma settle_job_sel:
  "length (pb_jobs (settle_job uid i st p)) = length (pb_jobs p)"
  "k < length (pb_jobs p) \<Longrightarrow> pb_jobs (settle_job uid i st p) ! k =
    (if k = i \<and> pj_state (pb_jobs p ! i) = InFlight then (pb_jobs p ! k)\<lparr>pj_state := st\<rparr> else pb_jobs p ! k)"
  "ad_pendingReturns (pb_adapter (settle_job uid i st p)) =
    (if i < length (pb_jobs p) \<and> pj_state (pb_jobs p ! i) = InFlight \<and> pj_mandatory (pb_jobs p ! i)
     then om_del (uid i) (pending p) else pending p)"
  by (auto simp: settle_job_def Let_def)

lemma fold_marks_sel:
  "length (pb_jobs (fold (\<lambda>(k, i) p. mark_returned i p) xs p)) = length (pb_jobs p)"
  "pb_adapter (fold (\<lambda>(k, i) p. mark_returned i p) xs p) = pb_adapter p"
  by (induction xs arbitrary: p) auto

lemma fold_marks_nth:
  "k < length (pb_jobs p) \<Longrightarrow> pj_state (pb_jobs (fold (\<lambda>(k, i) p. mark_returned i p) xs p) ! k) = pj_state (pb_jobs p ! k) \<and>
    pj_mandatory (pb_jobs (fold (\<lambda>(k, i) p. mark_returned i p) xs p) ! k) = pj_mandatory (pb_jobs p ! k)"
  by (induction xs arbitrary: p) (auto split: if_splits)

definition error_kind :: "jserr \<Rightarrow> string \<Rightarrow> bool" where
  "error_kind e n \<longleftrightarrow> je_class e = AdapterErrorC n"

definition clean_confirm :: "bool \<Rightarrow> pub_label list \<Rightarrow> nat \<Rightarrow> bool" where
  "clean_confirm corr tr i \<longleftrightarrow> (\<exists>tr1 tr2. tr = tr1 @ LConfirm i None # tr2 \<and>
    (corr \<and> LFailReturns \<notin> set tr1 \<longrightarrow> LReturn i \<notin> set tr1))"

lemma clean_confirm_mono: "clean_confirm corr tr i \<Longrightarrow> clean_confirm corr (tr @ [l]) i"
  unfolding clean_confirm_def by (metis append_Cons append_assoc)

lemma clean_confirm_last: "(corr \<and> LFailReturns \<notin> set tr \<longrightarrow> LReturn i \<notin> set tr) \<Longrightarrow>
    clean_confirm corr (tr @ [LConfirm i None]) i"
  unfolding clean_confirm_def by blast

definition outcome_ok :: "bool \<Rightarrow> pub_label list \<Rightarrow> nat \<Rightarrow> publish_job \<Rightarrow> bool" where
  "outcome_ok corr tr i j = (case pj_state j of
      Queued \<Rightarrow> True
    | InFlight \<Rightarrow> True
    | Confirmed \<Rightarrow> clean_confirm (corr \<and> pj_mandatory j) tr i
    | Rejected e \<Rightarrow>
        (error_kind e ''AmqpUnroutableError'' \<longrightarrow> pj_returned j \<and> LConfirm i None \<in> set tr) \<and>
        (error_kind e ''AmqpPublishNackError'' \<longrightarrow> (\<exists>err. LConfirm i (Some err) \<in> set tr \<and> \<not> isConnectionLostError err)) \<and>
        (error_kind e ''AmqpPublishTimeoutError'' \<longrightarrow> LTimeout i \<in> set tr))"

definition job_ok :: "bool \<Rightarrow> pub_label list \<Rightarrow> nat \<Rightarrow> publish_job \<Rightarrow> bool" where
  "job_ok corr tr i j \<longleftrightarrow> outcome_ok corr tr i j \<and>
    (corr \<and> pj_returned j \<longrightarrow> LReturn i \<in> set tr) \<and>
    (corr \<and> pj_mandatory j \<and> LFailReturns \<notin> set tr \<and> pj_state j = InFlight \<and> LReturn i \<in> set tr \<longrightarrow> pj_returned j)"

lemma outcome_ok_mono: "outcome_ok corr tr i j \<Longrightarrow> outcome_ok corr (tr @ [l]) i j"
  by (auto simp: outcome_ok_def clean_confirm_mono split: publish_state.splits)

lemma job_ok_mono: "job_ok corr tr i j \<Longrightarrow> l \<noteq> LReturn i \<or> pj_state j \<noteq> InFlight \<Longrightarrow> job_ok corr (tr @ [l]) i j"
  by (auto simp: job_ok_def outcome_ok_mono)

definition pub_inv :: "bool \<Rightarrow> (nat \<Rightarrow> string) \<Rightarrow> pub_label list \<Rightarrow> amqp_pub \<Rightarrow> bool" where
  "pub_inv corr uid tr p \<longleftrightarrow>
    (\<forall>i < length (pb_jobs p). job_ok corr tr i (pb_jobs p ! i)) \<and>
    (\<forall>k i. om_get (pending p) k = Some i \<longrightarrow> k = uid i \<and> i < length (pb_jobs p) \<and>
       pj_state (pb_jobs p ! i) = InFlight \<and> pj_mandatory (pb_jobs p ! i)) \<and>
    (\<forall>i < length (pb_jobs p). LFailReturns \<notin> set tr \<and> pj_mandatory (pb_jobs p ! i) \<and>
       pj_state (pb_jobs p ! i) = InFlight \<longrightarrow> om_get (pending p) (uid i) = Some i) \<and>
    (\<forall>i. LReturn i \<in> set tr \<longrightarrow> i < length (pb_jobs p))"

lemma pub_invI:
  assumes "\<And>i. i < length (pb_jobs p) \<Longrightarrow> job_ok corr tr i (pb_jobs p ! i)"
    and "\<And>k i. om_get (pending p) k = Some i \<Longrightarrow> k = uid i \<and> i < length (pb_jobs p) \<and>
       pj_state (pb_jobs p ! i) = InFlight \<and> pj_mandatory (pb_jobs p ! i)"
    and "\<And>i. i < length (pb_jobs p) \<Longrightarrow> LFailReturns \<notin> set tr \<Longrightarrow> pj_mandatory (pb_jobs p ! i) \<Longrightarrow>
       pj_state (pb_jobs p ! i) = InFlight \<Longrightarrow> om_get (pending p) (uid i) = Some i"
    and "\<And>i. LReturn i \<in> set tr \<Longrightarrow> i < length (pb_jobs p)"
  shows "pub_inv corr uid tr p"
  using assms by (simp add: pub_inv_def)

lemma pub_invD:
  assumes "pub_inv corr uid tr p"
  shows "i < length (pb_jobs p) \<Longrightarrow> job_ok corr tr i (pb_jobs p ! i)"
    and "om_get (pending p) k = Some i \<Longrightarrow> k = uid i \<and> i < length (pb_jobs p) \<and>
       pj_state (pb_jobs p ! i) = InFlight \<and> pj_mandatory (pb_jobs p ! i)"
    and "i < length (pb_jobs p) \<Longrightarrow> LFailReturns \<notin> set tr \<Longrightarrow> pj_mandatory (pb_jobs p ! i) \<Longrightarrow>
       pj_state (pb_jobs p ! i) = InFlight \<Longrightarrow> om_get (pending p) (uid i) = Some i"
    and "LReturn i \<in> set tr \<Longrightarrow> i < length (pb_jobs p)"
  using assms by (simp_all add: pub_inv_def)

lemma pub_inv_adapter:
  assumes "pub_inv corr uid tr p" "ad_pendingReturns (f (pb_adapter p)) = pending p" "\<forall>i. l \<noteq> LReturn i"
  shows "pub_inv corr uid (tr @ [l]) (on_pub f p)"
  using pub_invD [OF assms(1)] assms(2,3) by (intro pub_invI) (auto intro: job_ok_mono)

lemma pub_inv_settle:
  assumes inv: "pub_inv corr uid tr p" and uid: "inj uid" and l: "\<forall>i. l \<noteq> LReturn i"
    and st: "st \<noteq> InFlight" "i < length (pb_jobs p) \<Longrightarrow> pj_state (pb_jobs p ! i) = InFlight \<Longrightarrow>
      outcome_ok corr (tr @ [l]) i ((pb_jobs p ! i)\<lparr>pj_state := st\<rparr>)"
  shows "pub_inv corr uid (tr @ [l]) (settle_job uid i st p)"
proof (rule pub_invI)
  fix k assume k: "k < length (pb_jobs (settle_job uid i st p))"
  then have kp: "k < length (pb_jobs p)" by (simp add: settle_job_sel)
  have ok: "job_ok corr (tr @ [l]) k (pb_jobs p ! k)"
    using pub_invD(1) [OF inv kp] l by (auto intro: job_ok_mono)
  show "job_ok corr (tr @ [l]) k (pb_jobs (settle_job uid i st p) ! k)"
  proof (cases "k = i \<and> pj_state (pb_jobs p ! i) = InFlight")
    case True
    then show ?thesis using ok st kp by (simp add: settle_job_sel job_ok_def)
  next
    case False
    then show ?thesis using ok kp by (auto simp: settle_job_sel)
  qed
next
  fix k j assume g: "om_get (pending (settle_job uid i st p)) k = Some j"
  then have "om_get (pending p) k = Some j" by (auto simp: settle_job_sel split: if_splits)
  note pj = pub_invD(2) [OF inv this]
  have "j \<noteq> i \<or> pj_state (pb_jobs p ! i) \<noteq> InFlight"
    using g pj by (auto simp: settle_job_sel split: if_splits)
  then show "k = uid j \<and> j < length (pb_jobs (settle_job uid i st p)) \<and>
      pj_state (pb_jobs (settle_job uid i st p) ! j) = InFlight \<and> pj_mandatory (pb_jobs (settle_job uid i st p) ! j)"
    using pj by (auto simp: settle_job_sel)
next
  fix k assume k: "k < length (pb_jobs (settle_job uid i st p))" "LFailReturns \<notin> set (tr @ [l])"
    "pj_mandatory (pb_jobs (settle_job uid i st p) ! k)" "pj_state (pb_jobs (settle_job uid i st p) ! k) = InFlight"
  then have kp: "k < length (pb_jobs p)" by (simp add: settle_job_sel)
  have "\<not> (k = i \<and> pj_state (pb_jobs p ! i) = InFlight)" using k st(1) kp by (auto simp: settle_job_sel split: if_splits)
  then have "om_get (pending p) (uid k) = Some k \<and> (k \<noteq> i \<or> pj_state (pb_jobs p ! i) \<noteq> InFlight)"
    using pub_invD(3) [OF inv kp] k kp by (auto simp: settle_job_sel split: if_splits)
  then show "om_get (pending (settle_job uid i st p)) (uid k) = Some k"
    using uid by (auto simp: settle_job_sel inj_eq)
next
  fix k assume "LReturn k \<in> set (tr @ [l])"
  then show "k < length (pb_jobs (settle_job uid i st p))"
    using pub_invD(4) [OF inv] l by (auto simp: settle_job_sel)
qed

lemma pub_inv_mono:
  "pub_inv corr uid tr p \<Longrightarrow> \<forall>i. l \<noteq> LReturn i \<Longrightarrow> pub_inv corr uid (tr @ [l]) p"
  using pub_inv_adapter [of corr uid tr p "\<lambda>a. a" l] by (simp add: on_pub_def)

lemma pub_inv_start:
  assumes inv: "pub_inv corr uid tr p" and uid: "inj uid" and i: "i < length (pb_jobs p)"
    and q: "pj_state (pb_jobs p ! i) = Queued" and nr: "LReturn i \<notin> set tr"
  shows "pub_inv corr uid tr
    (if pj_mandatory (pb_jobs p ! i) then map_pending (om_set (uid i) i) (set_job i InFlight p) else set_job i InFlight p)"
    (is "pub_inv corr uid tr ?p")
proof -
  have len: "length (pb_jobs ?p) = length (pb_jobs p)" by simp
  have job: "pb_jobs ?p ! k = (if k = i then (pb_jobs p ! k)\<lparr>pj_state := InFlight\<rparr> else pb_jobs p ! k)"
    if "k < length (pb_jobs p)" for k using that by simp
  have pend: "om_get (pending ?p) k = (if pj_mandatory (pb_jobs p ! i) \<and> k = uid i then Some i else om_get (pending p) k)" for k
    by simp
  show ?thesis
  proof (rule pub_invI)
    fix k assume "k < length (pb_jobs ?p)"
    then show "job_ok corr tr k (pb_jobs ?p ! k)"
      using pub_invD(1) [OF inv, of k] q nr by (auto simp: len job job_ok_def outcome_ok_def)
  next
    fix k j assume "om_get (pending ?p) k = Some j"
    then show "k = uid j \<and> j < length (pb_jobs ?p) \<and> pj_state (pb_jobs ?p ! j) = InFlight \<and> pj_mandatory (pb_jobs ?p ! j)"
      using pub_invD(2) [OF inv, of k j] i unfolding len pend by (auto simp: job split: if_splits)
  next
    fix k assume k: "k < length (pb_jobs ?p)" "LFailReturns \<notin> set tr" "pj_mandatory (pb_jobs ?p ! k)"
      "pj_state (pb_jobs ?p ! k) = InFlight"
    then show "om_get (pending ?p) (uid k) = Some k"
      using pub_invD(3) [OF inv, of k] uid unfolding len pend by (auto simp: job inj_eq split: if_splits)
  next
    fix k assume "LReturn k \<in> set tr"
    then show "k < length (pb_jobs ?p)" using pub_invD(4) [OF inv] by (simp add: len)
  qed
qed

lemma connection_outcome_ok: "error_kind e ''AmqpConnectionError'' \<Longrightarrow> outcome_ok corr tr i (j\<lparr>pj_state := Rejected e\<rparr>)"
  by (simp add: outcome_ok_def error_kind_def)

lemma amqp_error_kind [simp]: "error_kind (amqp_error n m) n' \<longleftrightarrow> n = n'"
  by (simp add: error_kind_def amqp_error_def)

lemma start_job_inv:
  assumes inv: "pub_inv corr uid tr p" and uid: "inj uid" and i: "i < length (pb_jobs p)"
    and q: "pj_state (pb_jobs p ! i) = Queued" and nr: "LReturn i \<notin> set tr" and l: "\<forall>i. l \<noteq> LReturn i"
  shows "pub_inv corr uid (tr @ [l]) (start_job uid thrown i p)"
proof -
  let ?p = "if pj_mandatory (pb_jobs p ! i) then map_pending (om_set (uid i) i) (set_job i InFlight p) else set_job i InFlight p"
  have p: "pub_inv corr uid tr ?p" by (rule pub_inv_start [OF inv uid i q nr])
  show ?thesis
  proof (cases thrown)
    case None
    then show ?thesis using pub_inv_mono [OF p l] by (simp add: start_job_def Let_def)
  next
    case (Some e)
    have "pub_inv corr uid (tr @ [l]) (settle_job uid i (Rejected (AmqpConnectionError (''Publish failed: '' @ je_message e))) ?p)"
      by (rule pub_inv_settle [OF p uid l]) (simp_all add: connection_outcome_ok)
    then show ?thesis using Some by (simp add: start_job_def Let_def)
  qed
qed

lemma pub_inv_append:
  assumes inv: "pub_inv corr uid tr p" and j: "job_ok corr tr (length (pb_jobs p)) j" "pj_state j \<noteq> InFlight"
  shows "pub_inv corr uid tr (p\<lparr>pb_jobs := pb_jobs p @ [j]\<rparr>)"
proof (rule pub_invI)
  fix k assume "k < length (pb_jobs (p\<lparr>pb_jobs := pb_jobs p @ [j]\<rparr>))"
  then show "job_ok corr tr k (pb_jobs (p\<lparr>pb_jobs := pb_jobs p @ [j]\<rparr>) ! k)"
    using pub_invD(1) [OF inv, of k] j(1) by (auto simp: nth_append not_less less_Suc_eq)
next
  fix k i assume "om_get (pending (p\<lparr>pb_jobs := pb_jobs p @ [j]\<rparr>)) k = Some i"
  then show "k = uid i \<and> i < length (pb_jobs (p\<lparr>pb_jobs := pb_jobs p @ [j]\<rparr>)) \<and>
      pj_state (pb_jobs (p\<lparr>pb_jobs := pb_jobs p @ [j]\<rparr>) ! i) = InFlight \<and>
      pj_mandatory (pb_jobs (p\<lparr>pb_jobs := pb_jobs p @ [j]\<rparr>) ! i)"
    using pub_invD(2) [OF inv, of k i] by (auto simp: nth_append)
next
  fix k assume k: "k < length (pb_jobs (p\<lparr>pb_jobs := pb_jobs p @ [j]\<rparr>))" "LFailReturns \<notin> set tr"
    "pj_mandatory (pb_jobs (p\<lparr>pb_jobs := pb_jobs p @ [j]\<rparr>) ! k)"
    "pj_state (pb_jobs (p\<lparr>pb_jobs := pb_jobs p @ [j]\<rparr>) ! k) = InFlight"
  then show "om_get (pending (p\<lparr>pb_jobs := pb_jobs p @ [j]\<rparr>)) (uid k) = Some k"
    using pub_invD(3) [OF inv, of k] j(2) by (cases "k < length (pb_jobs p)") (auto simp: nth_append not_less less_Suc_eq)
next
  fix k assume "LReturn k \<in> set tr"
  then show "k < length (pb_jobs (p\<lparr>pb_jobs := pb_jobs p @ [j]\<rparr>))" using pub_invD(4) [OF inv] by fastforce
qed

lemma outcome_ok_returned: "outcome_ok corr tr i j \<Longrightarrow> outcome_ok corr tr i (j\<lparr>pj_returned := True\<rparr>)"
  by (auto simp: outcome_ok_def split: publish_state.splits)

lemma pub_inv_mark:
  assumes inv: "\<And>k. k < length (pb_jobs p) \<Longrightarrow> k \<noteq> i \<Longrightarrow> job_ok corr tr' k (pb_jobs p ! k)"
    and i: "i < length (pb_jobs p) \<Longrightarrow> outcome_ok corr tr' i (pb_jobs p ! i) \<and> (corr \<longrightarrow> LReturn i \<in> set tr')"
    and pub: "pub_inv corr uid tr p" and tr: "LFailReturns \<in> set tr' \<longleftrightarrow> LFailReturns \<in> set tr"
      "\<And>k. LReturn k \<in> set tr' \<Longrightarrow> k < length (pb_jobs p)"
  shows "pub_inv corr uid tr' (mark_returned i p)"
proof (rule pub_invI)
  fix k assume k: "k < length (pb_jobs (mark_returned i p))"
  then show "job_ok corr tr' k (pb_jobs (mark_returned i p) ! k)"
    using inv [of k] i by (cases "k = i") (auto simp: job_ok_def outcome_ok_returned)
next
  fix k j assume "om_get (pending (mark_returned i p)) k = Some j"
  then show "k = uid j \<and> j < length (pb_jobs (mark_returned i p)) \<and> pj_state (pb_jobs (mark_returned i p) ! j) = InFlight \<and>
      pj_mandatory (pb_jobs (mark_returned i p) ! j)"
    using pub_invD(2) [OF pub, of k j] by auto
next
  fix k assume "k < length (pb_jobs (mark_returned i p))" "LFailReturns \<notin> set tr'"
    "pj_mandatory (pb_jobs (mark_returned i p) ! k)" "pj_state (pb_jobs (mark_returned i p) ! k) = InFlight"
  then show "om_get (pending (mark_returned i p)) (uid k) = Some k"
    using pub_invD(3) [OF pub, of k] tr(1) by (auto split: if_splits)
qed (use tr(2) in simp)

lemma pub_inv_marks:
  "pub_inv False uid tr p \<Longrightarrow> pub_inv False uid tr (fold (\<lambda>(k, i) p. mark_returned i p) xs p)"
proof (induction xs arbitrary: p)
  case (Cons x xs)
  obtain k i where x: "x = (k, i)" by (cases x)
  have "pub_inv False uid tr (mark_returned i p)"
    by (rule pub_inv_mark [OF _ _ Cons.prems]) (use pub_invD [OF Cons.prems] in \<open>auto simp: job_ok_def\<close>)
  then show ?case using Cons.IH by (simp add: x)
qed simp

lemma pub_inv_return:
  assumes inv: "pub_inv corr uid tr p" and uid: "inj uid" and i: "i < length (pb_jobs p)" "pj_mandatory (pb_jobs p ! i)"
  shows "pub_inv corr uid (tr @ [LReturn i]) (return_frame (if corr then Some (uid i) else None) p)"
proof (cases corr)
  case False
  have "pub_inv False uid (tr @ [LReturn i]) p"
    using pub_invD [OF inv] i False by (intro pub_invI) (auto simp: job_ok_def outcome_ok_mono)
  then show ?thesis using False by (simp add: return_frame_def pub_inv_marks)
next
  case corr: True
  have other: "job_ok corr (tr @ [LReturn i]) k (pb_jobs p ! k)" if "k < length (pb_jobs p)" "k \<noteq> i" for k
    using pub_invD(1) [OF inv that(1)] that(2) by (intro job_ok_mono) auto
  show ?thesis
  proof (cases "om_get (pending p) (uid i)")
    case None
    have "\<not> (LFailReturns \<notin> set tr \<and> pj_state (pb_jobs p ! i) = InFlight)"
      using pub_invD(3) [OF inv i(1)] i(2) None by auto
    then have "job_ok corr (tr @ [LReturn i]) i (pb_jobs p ! i)"
      using pub_invD(1) [OF inv i(1)] by (auto simp: job_ok_def outcome_ok_mono)
    then have "pub_inv corr uid (tr @ [LReturn i]) p"
      using pub_invD [OF inv] i other by (intro pub_invI) (metis, auto)
    then show ?thesis using corr None by (simp add: return_frame_def)
  next
    case (Some j)
    then have j: "j = i" using pub_invD(2) [OF inv Some] uid by (simp add: inj_eq)
    have a: "outcome_ok corr (tr @ [LReturn i]) i (pb_jobs p ! i)"
      using pub_invD(1) [OF inv i(1)] by (simp add: job_ok_def outcome_ok_mono)
    have b: "k < length (pb_jobs p)" if "LReturn k \<in> set (tr @ [LReturn i])" for k
      using that pub_invD(4) [OF inv, of k] i by auto
    have "pub_inv corr uid (tr @ [LReturn i]) (mark_returned i p)"
      by (rule pub_inv_mark [OF other _ inv _ b]) (simp_all add: a)
    then show ?thesis using corr Some j by (simp add: return_frame_def)
  qed
qed

lemma publish_call_inv:
  assumes inv: "pub_inv corr uid tr p" and uid: "inj uid"
  shows "pub_inv corr uid (tr @ [LCall]) (publish_call options uid key payload thrown p)"
proof -
  have mono: "pub_inv corr uid (tr @ [LCall]) q" if "pub_inv corr uid tr q" for q
    by (rule pub_inv_mono [OF that]) simp
  have new: "LReturn (length (pb_jobs p)) \<notin> set tr" using pub_invD(4) [OF inv] by blast
  let ?j = "\<lambda>ch st. \<lparr>pj_mandatory = publisher_flag po_mandatory False options, pj_channel = ch, pj_key = key,
      pj_state = st, pj_returned = False\<rparr>"
  have add: "pub_inv corr uid tr (p\<lparr>pb_jobs := pb_jobs p @ [?j ch st]\<rparr>)"
    if "st = Queued \<or> (\<exists>e. st = Rejected e \<and> (error_kind e ''AmqpConnectionError'' \<or> error_kind e ''AmqpSerializationError''))" for ch st
    using that by (intro pub_inv_append [OF inv]) (auto simp: job_ok_def outcome_ok_def error_kind_def)
  have nc: "error_kind not_connected ''AmqpConnectionError''" by (simp add: not_connected_def)
  have enc: "error_kind e ''AmqpSerializationError''" if "encode_body options payload = Inl e" for e
    using that by (auto simp: encode_body_def split: option.splits sum.splits)
  have start: "pub_inv corr uid (tr @ [LCall]) (start_job uid thrown (length (pb_jobs p)) (p\<lparr>pb_jobs := pb_jobs p @ [?j ch Queued]\<rparr>))" for ch
    by (rule start_job_inv [OF add uid]) (simp_all add: new)
  show ?thesis
  proof (cases "ad_publishChannel (pb_adapter p)")
    case None
    then show ?thesis using mono [OF add [of "Rejected not_connected" 0]] nc by (simp add: publish_call_def)
  next
    case ch: (Some ch)
    show ?thesis
    proof (cases "ad_closing (pb_adapter p)")
      case True
      then show ?thesis using mono [OF add [of "Rejected not_connected" ch]] nc ch by (simp add: publish_call_def)
    next
      case open_: False
      show ?thesis
      proof (cases "encode_body options payload")
        case (Inl e)
        then show ?thesis using mono [OF add [of "Rejected e" ch]] enc [OF Inl] ch open_ by (simp add: publish_call_def)
      next
        case (Inr b)
        let ?c = "publisher_flag po_mandatory False options \<and> \<not> correlationHeader options"
        have eq: "publish_call options uid key payload thrown p = (if ?c then p\<lparr>pb_jobs := pb_jobs p @ [?j ch Queued]\<rparr>
             else start_job uid thrown (length (pb_jobs p)) (p\<lparr>pb_jobs := pb_jobs p @ [?j ch Queued]\<rparr>))"
          using ch open_ Inr by (simp add: publish_call_def Let_def)
        have m: "pub_inv corr uid (tr @ [LCall]) (p\<lparr>pb_jobs := pb_jobs p @ [?j ch Queued]\<rparr>)"
          by (rule mono [OF add]) simp
        show ?thesis
        proof (cases ?c)
          case True
          show ?thesis unfolding eq if_P [OF True] by (rule m)
        next
          case False
          show ?thesis unfolding eq if_not_P [OF False] by (rule start)
        qed
      qed
    qed
  qed
qed

lemma confirm_inv:
  assumes inv: "pub_inv corr uid tr p" and uid: "inj uid" and i: "i < length (pb_jobs p)"
  shows "pub_inv corr uid (tr @ [LConfirm i err]) (settle_job uid i (confirm_state p (pb_jobs p ! i) err) p)"
proof (rule pub_inv_settle [OF inv uid])
  note ok = pub_invD(1) [OF inv i]
  assume fl: "pj_state (pb_jobs p ! i) = InFlight"
  show "outcome_ok corr (tr @ [LConfirm i err]) i ((pb_jobs p ! i)\<lparr>pj_state := confirm_state p (pb_jobs p ! i) err\<rparr>)"
  proof (cases err)
    case (Some e)
    then show ?thesis by (auto simp: confirm_state_def outcome_ok_def classifyConfirmError_def)
  next
    case None
    show ?thesis
    proof (cases "pj_returned (pb_jobs p ! i)")
      case True
      then show ?thesis using None by (simp add: confirm_state_def outcome_ok_def)
    next
      case False
      then have "clean_confirm (corr \<and> pj_mandatory (pb_jobs p ! i)) (tr @ [LConfirm i None]) i"
        using ok fl by (intro clean_confirm_last) (auto simp: job_ok_def)
      then show ?thesis using None False by (simp add: confirm_state_def outcome_ok_def)
    qed
  qed
qed (auto simp: confirm_state_def split: option.split)

section \<open>How the states of the publications move\<close>

definition state_moves :: "publish_state \<Rightarrow> publish_state \<Rightarrow> bool" where
  "state_moves st st' \<longleftrightarrow> st' = st \<or> st' \<noteq> Queued \<and> (st = Queued \<or> st = InFlight)"

lemma settle_job_moves:
  "st \<noteq> Queued \<Longrightarrow> k < length (pb_jobs p) \<Longrightarrow>
    state_moves (pj_state (pb_jobs p ! k)) (pj_state (pb_jobs (settle_job uid i st p) ! k))"
  by (auto simp: settle_job_sel state_moves_def)

lemma start_job_nth:
  assumes "i < length (pb_jobs p)" "k < length (pb_jobs p)"
  shows "length (pb_jobs (start_job uid thrown i p)) = length (pb_jobs p)"
    and "k \<noteq> i \<Longrightarrow> pb_jobs (start_job uid thrown i p) ! k = pb_jobs p ! k"
    and "pj_state (pb_jobs (start_job uid thrown i p) ! i) \<noteq> Queued"
  using assms by (auto simp: start_job_def Let_def settle_job_sel split: option.split)

lemma publish_call_jobs:
  obtains j where "pb_jobs (publish_call options uid key payload thrown p) = pb_jobs p @ [j]"
    "publisher_flag po_mandatory False options \<and> \<not> correlationHeader options \<Longrightarrow> pj_state j \<noteq> InFlight"
proof (cases "\<exists>ch. ad_publishChannel (pb_adapter p) = Some ch \<and> \<not> ad_closing (pb_adapter p) \<and>
    (\<exists>b. encode_body options payload = Inr b) \<and> \<not> (publisher_flag po_mandatory False options \<and> \<not> correlationHeader options)")
  case False
  then have "\<exists>j. pb_jobs (publish_call options uid key payload thrown p) = pb_jobs p @ [j] \<and> pj_state j \<noteq> InFlight"
    by (auto simp: publish_call_def Let_def split: option.split sum.split)
  then show ?thesis using that by blast
next
  case True
  then obtain ch where ch: "ad_publishChannel (pb_adapter p) = Some ch" "\<not> ad_closing (pb_adapter p)"
    "\<exists>b. encode_body options payload = Inr b" "\<not> (publisher_flag po_mandatory False options \<and> \<not> correlationHeader options)" by blast
  let ?q = "p\<lparr>pb_jobs := pb_jobs p @ [\<lparr>pj_mandatory = publisher_flag po_mandatory False options, pj_channel = ch, pj_key = key,
    pj_state = Queued, pj_returned = False\<rparr>]\<rparr>"
  have eq: "publish_call options uid key payload thrown p = start_job uid thrown (length (pb_jobs p)) ?q"
    using ch by (auto simp: publish_call_def Let_def)
  let ?l = "pb_jobs (start_job uid thrown (length (pb_jobs p)) ?q)"
  have len: "length ?l = Suc (length (pb_jobs p))" using start_job_nth(1) [of "length (pb_jobs p)" ?q "length (pb_jobs p)"] by simp
  have "?l = pb_jobs p @ [?l ! length (pb_jobs p)]"
  proof (rule nth_equalityI)
    fix k assume "k < length ?l"
    then have "k < length (pb_jobs p) \<or> k = length (pb_jobs p)" using len by auto
    then show "?l ! k = (pb_jobs p @ [?l ! length (pb_jobs p)]) ! k"
      using start_job_nth(2) [of "length (pb_jobs p)" ?q k] by (auto simp: nth_append)
  qed (simp add: len)
  then show ?thesis using that ch(4) unfolding eq by blast
qed

lemma return_frame_state:
  "length (pb_jobs (return_frame h p)) = length (pb_jobs p)"
  "k < length (pb_jobs p) \<Longrightarrow> pj_state (pb_jobs (return_frame h p) ! k) = pj_state (pb_jobs p ! k)"
  by (auto simp: return_frame_def fold_marks_sel fold_marks_nth split: option.split)

lemma confirm_state_not_Queued: "confirm_state p j err \<noteq> Queued"
  by (simp add: confirm_state_def split: option.split)

lemma pub_step_moves:
  assumes "pub_step options uid p l p'" "k < length (pb_jobs p)"
  shows "k < length (pb_jobs p') \<and> state_moves (pj_state (pb_jobs p ! k)) (pj_state (pb_jobs p' ! k))"
  using assms
proof cases
  case (pub_call key payload thrown)
  then show ?thesis using assms(2)
    by (rule_tac publish_call_jobs [of options uid key payload thrown p]) (simp add: nth_append state_moves_def)
next
  case (pub_start i thrown)
  then show ?thesis using assms(2) start_job_nth [of i p k uid thrown]
    by (cases "k = i") (auto simp: may_start_def state_moves_def)
next
  case (pub_confirm i err)
  then show ?thesis using assms(2) by (simp add: settle_job_sel(1) settle_job_moves confirm_state_not_Queued)
next
  case (pub_timeout i)
  then show ?thesis using assms(2) by (simp add: settle_job_sel(1) settle_job_moves)
next
  case (pub_return i)
  then show ?thesis using assms(2) by (simp add: return_frame_state state_moves_def)
qed (use assms(2) in \<open>simp_all add: state_moves_def trackChannelClose_def\<close>)

lemma pub_step_return: "pub_step options uid p (LReturn i) p' \<Longrightarrow>
    i < length (pb_jobs p) \<and> pj_state (pb_jobs p ! i) \<noteq> Queued \<and> pj_mandatory (pb_jobs p ! i) \<and>
    p' = return_frame (if correlationHeader options then Some (uid i) else None) p"
  by (auto elim: pub_step.cases)

lemma returns_started:
  "pub_reach options uid tr p \<Longrightarrow> LReturn i \<in> set tr \<Longrightarrow> i < length (pb_jobs p) \<and> pj_state (pb_jobs p ! i) \<noteq> Queued"
proof (induction rule: pub_reach.induct)
  case (pub_more tr p l p')
  have "i < length (pb_jobs p) \<and> pj_state (pb_jobs p ! i) \<noteq> Queued"
    using pub_more pub_step_return [of options uid p i p'] by auto
  then show ?case using pub_step_moves [OF pub_more.hyps(2), of i] by (auto simp: state_moves_def)
qed simp

lemma pub_reach_inv:
  "pub_reach options uid tr p \<Longrightarrow> inj uid \<Longrightarrow> pub_inv (correlationHeader options) uid tr p"
proof (induction rule: pub_reach.induct)
  case pub_init
  show ?case by (simp add: pub_inv_def adapter_new_def)
next
  case (pub_more tr p l p')
  note inv = pub_more.IH [OF pub_more.prems] and uid = pub_more.prems
  from pub_more.hyps(2) show ?case
  proof cases
    case (pub_start i thrown)
    then show ?thesis using returns_started [OF pub_more.hyps(1), of i]
      by (auto simp: may_start_def intro!: start_job_inv [OF inv uid])
  next
    case (pub_timeout i)
    then show ?thesis
      by (auto intro!: pub_inv_settle [OF inv uid] simp: outcome_ok_def timeout_error_def)
  next
    case (pub_return i)
    show ?thesis unfolding pub_return(1,2) by (rule pub_inv_return [OF inv uid pub_return(3,4)])
  next
    case (pub_fail)
    then show ?thesis using pub_invD [OF inv]
      by (intro pub_invI) (auto simp: failPendingReturns_def intro: job_ok_mono)
  qed (auto simp: trackChannelClose_def clearPublishChannel_def intro!: publish_call_inv confirm_inv pub_inv_adapter inv uid)
qed

lemma single_flight:
  assumes "pub_reach options uid tr p" "publisher_flag po_mandatory False options" "\<not> correlationHeader options"
  shows "i < length (pb_jobs p) \<Longrightarrow> pj_state (pb_jobs p ! i) = InFlight \<Longrightarrow> j < i \<Longrightarrow> job_settled (pb_jobs p ! j)"
  using assms
proof (induction arbitrary: i j rule: pub_reach.induct)
  case (pub_more tr p l p')
  have settled_iff: "job_settled x \<longleftrightarrow> pj_state x \<noteq> Queued \<and> pj_state x \<noteq> InFlight" for x
    by (cases "pj_state x") (auto simp: job_settled_def)
  have keep: "job_settled (pb_jobs p' ! j)" if "j < length (pb_jobs p)" "job_settled (pb_jobs p ! j)"
    using pub_step_moves [OF pub_more.hyps(2) that(1)] that(2) by (auto simp: settled_iff state_moves_def)
  have old: "i < length (pb_jobs p) \<Longrightarrow> pj_state (pb_jobs p ! i) = InFlight \<Longrightarrow> ?case"
    using pub_more.IH [of i j] pub_more.prems keep by auto
  from pub_more.hyps(2) show ?case
  proof cases
    case (pub_call key payload thrown)
    obtain x where x: "pb_jobs p' = pb_jobs p @ [x]" "pj_state x \<noteq> InFlight"
      using pub_call(2) pub_more.prems by (rule_tac publish_call_jobs [of options uid key payload thrown p]) auto
    then show ?thesis using pub_more.prems old by (cases "i < length (pb_jobs p)") (auto simp: nth_append not_less less_Suc_eq)
  next
    case (pub_start k thrown)
    note ms = pub_start(3)[unfolded may_start_def]
    show ?thesis
    proof (cases "i = k")
      case True
      then have "job_settled (pb_jobs p ! j)" "j < length (pb_jobs p)"
        using ms pub_more.prems(3) by (auto simp: settled_iff)
      then show ?thesis by (rule_tac keep)
    next
      case False
      then show ?thesis using pub_more.prems old start_job_nth [of k p i uid thrown] pub_start ms
          start_job_nth(1) [of k p k uid thrown] by auto
    qed
  next
    case (pub_confirm k err)
    then show ?thesis using pub_more.prems old by (auto simp: settle_job_sel split: if_splits)
  next
    case (pub_timeout k)
    then show ?thesis using pub_more.prems old by (auto simp: settle_job_sel split: if_splits)
  next
    case (pub_return k)
    then show ?thesis using pub_more.prems old by (auto simp: return_frame_state)
  qed (use pub_more.prems old in \<open>auto simp: trackChannelClose_def\<close>)
qed simp


section \<open>A late return in single-flight mode\<close>

definition single_flight_options :: "amqp_options" where
  "single_flight_options = plain_options\<lparr>am_publisherOptions := Some \<lparr>po_persistent = None, po_mandatory = Some True,
    po_correlationHeader = Some False, po_externalContract = None\<rparr>\<rparr>"

lemma single_flight_flags [simp]:
  "publisher_flag po_mandatory False single_flight_options" "\<not> correlationHeader single_flight_options"
  "encode_body single_flight_options b = Inr b"
  by (simp_all add: single_flight_options_def publisher_flag_def correlationHeader_def externalContract_def encode_body_def
      plain_options_def dflt_def)

definition pub_of :: "nat option \<Rightarrow> (string, nat) omap \<Rightarrow> publish_job list \<Rightarrow> amqp_pub" where
  "pub_of ch pend jobs = \<lparr>pb_adapter = adapter_new\<lparr>ad_publishChannel := ch, ad_pendingReturns := pend\<rparr>, pb_jobs = jobs\<rparr>"

definition mjob :: "string \<Rightarrow> publish_state \<Rightarrow> bool \<Rightarrow> publish_job" where
  "mjob key st returned = \<lparr>pj_mandatory = True, pj_channel = 0, pj_key = key, pj_state = st, pj_returned = returned\<rparr>"

text \<open>Without the correlation header a return that comes late is taken for the next publication: a
  first mandatory publication times out, the second one is in flight when the first one's return
  arrives, and the second, which the broker has routed and acknowledged, is rejected as unroutable.\<close>
theorem late_return_rejects_next_publication:
  "\<exists>tr p e. pub_reach single_flight_options uid tr p \<and> LConfirm 1 None \<in> set tr \<and> LReturn 1 \<notin> set tr \<and>
    pj_state (pb_jobs p ! 1) = Rejected e \<and> error_kind e ''AmqpUnroutableError''"
proof -
  let ?R = "pub_reach single_flight_options uid"
  let ?to = "Rejected (timeout_error single_flight_options ''a'')"
  have 1: "?R [LNewChannel 0] (pub_of (Some 0) [] [])"
    using pub_more [OF pub_init pub_channel, where ch1 = 0] by (simp add: on_pub_def pub_of_def adapter_new_def)
  have 2: "?R [LNewChannel 0, LCall] (pub_of (Some 0) [] [mjob ''a'' Queued False])"
    using pub_more [OF 1 pub_call, where key1 = "''a''" and payload1 = "[]" and thrown1 = None]
    by (simp add: publish_call_def pub_of_def adapter_new_def mjob_def Let_def)
  have 3: "?R [LNewChannel 0, LCall, LStart 0] (pub_of (Some 0) [(uid 0, 0)] [mjob ''a'' InFlight False])"
    using pub_more [OF 2 pub_start, where i1 = 0 and thrown1 = None]
    by (simp add: start_job_def set_job_def map_pending_def pub_of_def adapter_new_def mjob_def may_start_def Let_def om_set_def)
  have 4: "?R [LNewChannel 0, LCall, LStart 0, LTimeout 0] (pub_of (Some 0) [] [mjob ''a'' ?to False])"
    using pub_more [OF 3 pub_timeout, where i1 = 0]
    by (simp add: settle_job_def set_job_def map_pending_def pub_of_def adapter_new_def mjob_def Let_def om_del_def)
  have 5: "?R [LNewChannel 0, LCall, LStart 0, LTimeout 0, LCall]
      (pub_of (Some 0) [] [mjob ''a'' ?to False, mjob ''b'' Queued False])"
    using pub_more [OF 4 pub_call, where key1 = "''b''" and payload1 = "[]" and thrown1 = None]
    by (simp add: publish_call_def pub_of_def adapter_new_def mjob_def Let_def)
  have 6: "?R [LNewChannel 0, LCall, LStart 0, LTimeout 0, LCall, LStart 1]
      (pub_of (Some 0) [(uid 1, 1)] [mjob ''a'' ?to False, mjob ''b'' InFlight False])"
    using pub_more [OF 5 pub_start, where i1 = 1 and thrown1 = None]
    by (simp add: start_job_def set_job_def map_pending_def pub_of_def adapter_new_def mjob_def may_start_def Let_def om_set_def)
  have 7: "?R [LNewChannel 0, LCall, LStart 0, LTimeout 0, LCall, LStart 1, LReturn 0]
      (pub_of (Some 0) [(uid 1, 1)] [mjob ''a'' ?to False, mjob ''b'' InFlight True])"
    using pub_more [OF 6 pub_return, where i1 = 0]
    by (simp add: return_frame_def mark_returned_def pub_of_def adapter_new_def mjob_def)
  have 8: "?R [LNewChannel 0, LCall, LStart 0, LTimeout 0, LCall, LStart 1, LReturn 0, LConfirm 1 None]
      (pub_of (Some 0) [] [mjob ''a'' ?to False, mjob ''b'' (Rejected (AmqpUnroutableError
        ''Message unroutable (mandatory): no queue bound for routing key b'')) True])"
    using pub_more [OF 7 pub_confirm, where i1 = 1 and err1 = None]
    by (simp add: settle_job_def set_job_def map_pending_def pub_of_def adapter_new_def mjob_def Let_def om_del_def confirm_state_def)
  show ?thesis
    by (intro exI conjI, rule 8) (simp add: pub_of_def mjob_def)+
qed


section \<open>From the publisher to the subscriber\<close>

definition on_wire :: "amqp_outgoing \<Rightarrow> bool \<Rightarrow> amqp_message" where
  "on_wire og redelivered = \<lparr>mg_content = og_body og, mg_routingKey = og_routingKey og, mg_redelivered = redelivered,
    mg_headers = Some (map (\<lambda>(k, v). (k, Some v)) (og_headers og)), mg_messageId = og_messageId og,
    mg_timestamp = og_timestamp og\<rparr>"

lemma om_get_rev: "om_ok m \<Longrightarrow> om_get (rev m) k = om_get m k"
proof -
  assume "om_ok m"
  then have d: "distinct (map fst m)" "distinct (map fst (rev m))" by (simp_all add: om_ok_def rev_map [symmetric])
  have "map_of (rev m) k = Some v \<longleftrightarrow> map_of m k = Some v" for v
    using d by (simp add: map_of_eq_Some_iff)
  then show ?thesis unfolding om_get_def by (metis not_Some_eq)
qed

lemma fold_om_set_get:
  "om_get (fold (\<lambda>(k, v) h. om_set k v h) xs m) k = (case om_get (rev xs) k of Some v \<Rightarrow> Some v | None \<Rightarrow> om_get m k)"
  by (induction xs arbitrary: m rule: rev_induct) (auto simp: om_get_cons split: option.split)

lemma fold_om_set_ok: "om_ok m \<Longrightarrow> om_ok (fold (\<lambda>(k, v) h. om_set k v h) xs m)"
  by (induction xs arbitrary: m) (auto split: prod.split)

lemma user_headers_fold:
  "user_headers (Some md) = fold (\<lambda>(k, v) h. om_set k v h) (filter (\<lambda>(k, v). \<not> internal_header k) md) []"
proof -
  have "fold (\<lambda>(key, v) h. if internal_header key then h else om_set key v h) md m =
      fold (\<lambda>(k, v) h. om_set k v h) (filter (\<lambda>(k, v). \<not> internal_header k) md) m" for m
    by (induction md arbitrary: m) auto
  then show ?thesis by (simp add: user_headers_def)
qed

lemma om_get_filter_keys: "om_get (filter (\<lambda>(k, v). P k) m) k = (if P k then om_get m k else None)"
  by (induction m) (auto simp: om_get_cons)

lemma user_headers_get:
  assumes "om_ok (dflt md [])"
  shows "om_get (user_headers md) k = (if internal_header k then None else om_get (dflt md []) k)"
proof (cases md)
  case None
  then show ?thesis by (simp add: user_headers_def dflt_def)
next
  case (Some m)
  have "om_ok (filter (\<lambda>(k, v). \<not> internal_header k) m)"
    using assms Some by (simp add: om_ok_def dflt_def distinct_map_filter)
  then show ?thesis using Some
    by (simp add: user_headers_fold fold_om_set_get om_get_rev om_get_filter_keys dflt_def split: option.split)
qed

lemma user_headers_ok: "om_ok (user_headers md)"
  by (cases md) (simp_all add: user_headers_def user_headers_fold [unfolded user_headers_def, simplified] fold_om_set_ok)

lemma publish_headers_ok: "om_ok (publish_headers options eventId nowISO md)"
  by (simp add: publish_headers_def Let_def user_headers_ok)

lemma publish_headers_get:
  assumes "om_ok (dflt md [])"
  shows "om_get (publish_headers options eventId nowISO md) k =
    (if internal_header k
     then (if k = PUBLISH_ID_HEADER
           then (if publisher_flag po_mandatory False options \<and> correlationHeader options then Some eventId else None)
           else if externalContract options then None
           else if k = ''x-event-id'' then Some eventId else Some nowISO)
     else om_get (dflt md []) k)"
  by (auto simp: publish_headers_def Let_def user_headers_get [OF assms] internal_header_def PUBLISH_ID_HEADER_def)

lemma parse_on_wire:
  assumes "om_ok hs"
  shows "om_get (parseHeaders (Some (map (\<lambda>(k, v). (k, Some v)) hs))) k = om_get hs k"
proof -
  have "fold (\<lambda>(key, v) m. case v of None \<Rightarrow> m | Some s \<Rightarrow> om_set key s m) (map (\<lambda>(k, v). (k, Some v)) hs) m =
      fold (\<lambda>(k, v) h. om_set k v h) hs m" for m
    by (induction hs arbitrary: m) auto
  then show ?thesis using assms
    by (simp add: parseHeaders_def fold_om_set_get om_get_rev split: option.split)
qed



section \<open>A bus over AMQP\<close>

interpretation amqp_settles: settling_adapter "\<lambda>_. broker f AckCall" "\<lambda>_ requeue. broker f (NackCall requeue)"
    "\<lambda>_ c (s, log). (snd (f c s), log @ [c])"
  for f
  by unfold_locales (simp_all add: broker_def split_beta)

lemma deliver_scripted:
  assumes "find_handler handlers (re_eventType event) = Some (scripted calls outcome)"
  shows "deliver handlers False event (broker f AckCall) (\<lambda>b. broker f (NackCall b)) aborted (s, []) =
    (outcome, if calls \<noteq> [] then (snd (f (hd calls) s), [hd calls])
      else if outcome = Inr () then (snd (f AckCall s), [AckCall]) else (s, []))"
  using amqp_settles.delivery [OF assms refl] by (simp add: first_settlement_def)

text \<open>C26. An AMQP delivery to a bus is settled on its channel like this, when the channel takes every
  settlement: a message that cannot be decoded is rejected without requeue and no handler runs;
  otherwise the channel sees the bus's settlement, and a rejection with requeue after it exactly when
  the handler threw. So a message is settled once, unless a handler settles it and then throws: then
  the channel is given a second settlement of the same message, which the protocol forbids.\<close>
theorem amqp_bus_settlement:
  assumes "\<forall>c w. fst (f c w) = Inr ()"
  shows "(case amqp_delivery options parseDate now uuid (broker f)
      (\<lambda>ev ack nack. deliver (handlers ev) draining ev ack nack aborted) (Some msg) (s, []) of (res, (s', log)) \<Rightarrow>
    (case delivered_event options parseDate now uuid msg of
       Inl _ \<Rightarrow> log = [NackCall False]
     | Inr ev \<Rightarrow>
        (find_handler (handlers ev) (re_eventType ev) = None \<longrightarrow> log = [AckCall]) \<and>
        (\<forall>h. find_handler (handlers ev) (re_eventType ev) = Some h \<and> draining \<longrightarrow> log = [NackCall True]) \<and>
        (find_handler (handlers ev) (re_eventType ev) = Some (scripted calls outcome) \<and> \<not> draining \<longrightarrow>
          log = (if calls \<noteq> [] then [hd calls] else if outcome = Inr () then [AckCall] else []) @
            (if outcome = Inr () then [] else [NackCall True]))))"
proof (cases "delivered_event options parseDate now uuid msg")
  case (Inl e)
  then show ?thesis by (simp add: amqp_delivery_def broker_apply)
next
  case (Inr ev)
  have fi: "fst (f c w) = Inr ()" for c w using assms by blast
  let ?m = "deliver (handlers ev) draining ev (broker f AckCall) (\<lambda>b. broker f (NackCall b)) aborted"
  have d: "amqp_delivery options parseDate now uuid (broker f)
      (\<lambda>ev ack nack. deliver (handlers ev) draining ev ack nack aborted) (Some msg) =
      io_catch ?m (\<lambda>_. broker f (NackCall True))"
    using Inr by (simp add: amqp_delivery_def)
  show ?thesis
  proof (cases "find_handler (handlers ev) (re_eventType ev)")
    case None
    then show ?thesis unfolding d using Inr fi
      by (simp add: deliver_def io_catch_def broker_apply split: sum.split)
  next
    case (Some h)
    show ?thesis
    proof (cases draining)
      case True
      then show ?thesis unfolding d using Some Inr fi
        by (simp add: deliver_def io_catch_def broker_apply split: sum.split)
    next
      case False
      show ?thesis
      proof (cases "h = scripted calls outcome")
        case True
        note run = deliver_scripted [OF Some [unfolded True], of f aborted s]
        show ?thesis unfolding d using Some Inr False True run
          by (cases outcome) (simp_all add: io_catch_def broker_apply)
      next
        case other: False
        then show ?thesis using Some Inr False by (simp split: prod.split)
      qed
    qed
  qed
qed

lemma amqp_bus_settlement_witness:
  "snd (snd (amqp_delivery plain_options (\<lambda>_. None) 0 ''u'' (broker (\<lambda>_ w. (Inr (), w)))
     (\<lambda>ev ack nack. deliver [(''t'', scripted [AckCall] (Inl (plain_error ''boom'')))] False ev ack nack (\<lambda>_. None))
     (Some \<lparr>mg_content = [], mg_routingKey = ''t'', mg_redelivered = False, mg_headers = None, mg_messageId = None,
       mg_timestamp = None\<rparr>) ((), []))) = [AckCall, NackCall True]"
proof -
  let ?msg = "\<lparr>mg_content = [], mg_routingKey = ''t'', mg_redelivered = False, mg_headers = None, mg_messageId = None,
       mg_timestamp = None\<rparr>"
  have f: "\<forall>c w. fst ((\<lambda>_ w. (Inr () :: jserr + unit, w)) c (w :: unit)) = Inr ()" by simp
  show ?thesis
    using amqp_bus_settlement [OF f, where options = plain_options and parseDate = "\<lambda>_. None" and now = 0 and uuid = "''u''"
        and handlers = "\<lambda>_. [(''t'', scripted [AckCall] (Inl (plain_error ''boom'')))]" and draining = False
        and aborted = "\<lambda>_. None" and msg = ?msg and s = "()" and calls = "[AckCall]" and outcome = "Inl (plain_error ''boom'')"]
    by (simp add: delivered_event_def Let_def decode_body_def plain_options_def parseHeaders_def find_handler_def om_get_cons
        split: prod.splits)
qed

end
