(* ===== verification/Kafka.thy ===== *)
theory Kafka
  imports Prelude Connect EventTopics EventMiddleware EventBus EventAdapter
begin

text \<open>
  packages/events-kafka/src/KafkaAdapter.ts. The pattern translation is followed down to the source text
  of the regular expression, and the regular expression is read back by the rules of the language for
  the fragment the code produces. A batch is a recursion over its messages; kafkajs's functions
  (resolveOffset, commitOffsetsIfNecessary, heartbeat) are computations over an arbitrary world. A header
  value is text, whether it came as a buffer or not; dates and numbers are parsed by parameters.
\<close>

section \<open>Patterns\<close>

definition regex_special :: "char \<Rightarrow> bool" where
  "regex_special c \<longleftrightarrow> c \<in> set ''.+?^${}()|[]'' \<or> c = CHR 0x5C"

definition kafka_escape :: "char \<Rightarrow> string" where
  "kafka_escape c =
    (if regex_special c then [CHR 0x5C, c]
     else if c = CHR ''*'' then ''[^.]+''
     else if c = CHR ''>'' then ''.+''
     else [c])"

datatype kafka_topic = LiteralTopic string | RegexTopic string

definition patternToKafkaTopicMatcher :: "string \<Rightarrow> jserr + kafka_topic" where
  "patternToKafkaTopicMatcher pattern =
    (if length pattern > 256 then Inl (plain_error (''Topic pattern exceeds maximum length (256): '' @ show_nat (length pattern)))
     else if CHR ''*'' \<notin> set pattern \<and> CHR ''>'' \<notin> set pattern then Inr (LiteralTopic pattern)
     else Inr (RegexTopic (''^'' @ concat (map kafka_escape pattern) @ ''$'')))"

datatype regex_atom = Lit char | SegmentPlus | AnyPlus

fun read_regex :: "string \<Rightarrow> regex_atom list" where
  "read_regex [] = []"
| "read_regex (c # r) =
    (if c = CHR 0x5C then (case r of [] \<Rightarrow> [] | d # r' \<Rightarrow> Lit d # read_regex r')
     else if c = CHR ''['' then SegmentPlus # read_regex (drop 4 r)
     else if c = CHR ''.'' then AnyPlus # read_regex (drop 1 r)
     else Lit c # read_regex r)"

definition line_end :: "char \<Rightarrow> bool" where
  "line_end c \<longleftrightarrow> (of_char c :: nat) \<in> {10, 13}"

fun regex_match :: "regex_atom list \<Rightarrow> string \<Rightarrow> bool" where
  "regex_match [] s \<longleftrightarrow> s = []"
| "regex_match (Lit c # as) s \<longleftrightarrow> (case s of [] \<Rightarrow> False | x # xs \<Rightarrow> x = c \<and> regex_match as xs)"
| "regex_match (SegmentPlus # as) s \<longleftrightarrow>
    list_ex (\<lambda>k. CHR ''.'' \<notin> set (take k s) \<and> regex_match as (drop k s)) [1..<Suc (length s)]"
| "regex_match (AnyPlus # as) s \<longleftrightarrow>
    list_ex (\<lambda>k. list_all (\<lambda>c. \<not> line_end c) (take k s) \<and> regex_match as (drop k s)) [1..<Suc (length s)]"

definition regex_test :: "string \<Rightarrow> string \<Rightarrow> bool" where
  "regex_test source topic = regex_match (read_regex (butlast (tl source))) topic"

definition kafka_subscribed :: "string \<Rightarrow> string \<Rightarrow> bool" where
  "kafka_subscribed pattern topic = (case patternToKafkaTopicMatcher pattern of
      Inl _ \<Rightarrow> False
    | Inr (LiteralTopic t) \<Rightarrow> topic = t
    | Inr (RegexTopic source) \<Rightarrow> regex_test source topic)"

section \<open>Messages\<close>

datatype kafka_header = HeaderUndefined | HeaderOne string | HeaderMany "string option list"

record kafka_message =
  km_offset :: int
  km_key :: "string option"
  km_value :: "nat list option"
  km_timestamp :: "string option"
  km_headers :: "(string, kafka_header) omap option"

definition kafka_parseHeaders :: "(string, kafka_header) omap option \<Rightarrow> (string, string) omap" where
  "kafka_parseHeaders headers = (case headers of
      None \<Rightarrow> []
    | Some hs \<Rightarrow> fold (\<lambda>(key, value) result. case value of
          HeaderUndefined \<Rightarrow> result
        | HeaderOne v \<Rightarrow> om_set key v result
        | HeaderMany vs \<Rightarrow> (case vs of Some v # _ \<Rightarrow> om_set key v result | _ \<Rightarrow> result)) hs [])"

definition parseTimestamp :: "(string \<Rightarrow> int option) \<Rightarrow> (string \<Rightarrow> int option) \<Rightarrow> int \<Rightarrow> string option \<Rightarrow> string option \<Rightarrow> int" where
  "parseTimestamp parseDate parseNumber now headerValue kafkaTimestamp =
    (let fromKafka = (case kafkaTimestamp of
           Some ts \<Rightarrow> if ts \<noteq> [] then dflt (parseNumber ts) now else now
         | None \<Rightarrow> now)
     in case headerValue of
          Some h \<Rightarrow> if h \<noteq> [] then dflt (parseDate h) fromKafka else fromKafka
        | None \<Rightarrow> fromKafka)"

definition kafka_publish_headers :: "(string, string) omap option \<Rightarrow> string \<Rightarrow> string \<Rightarrow> (string, string) omap" where
  "kafka_publish_headers metadata uuid nowISO =
    om_set ''x-published-at'' nowISO (om_set ''x-event-id'' uuid (fold (\<lambda>(k, v) h. om_set k v h) (dflt metadata []) []))"

record kafka_record =
  kr_topic :: string
  kr_key :: "string option"
  kr_value :: "nat list"
  kr_headers :: "(string, string) omap"

definition kafka_publish :: "bool \<Rightarrow> (kafka_record \<Rightarrow> ('s, jserr, unit) io) \<Rightarrow> string \<Rightarrow> string \<Rightarrow> string \<Rightarrow> nat list \<Rightarrow>
    string option \<Rightarrow> (string, string) omap option \<Rightarrow> ('s, jserr, unit) io" where
  "kafka_publish connected send uuid nowISO eventType payload key metadata =
    (if \<not> connected then io_throw (plain_error ''KafkaAdapter: not connected'')
     else send \<lparr>kr_topic = eventType, kr_key = key, kr_value = payload,
       kr_headers = kafka_publish_headers metadata uuid nowISO\<rparr>)"

record 's kafka_ops =
  ko_resolveOffset :: "int \<Rightarrow> ('s, jserr, unit) io"
  ko_commit :: "('s, jserr, unit) io"
  ko_heartbeat :: "('s, jserr, unit) io"

definition kafka_event :: "(string \<Rightarrow> int option) \<Rightarrow> (string \<Rightarrow> int option) \<Rightarrow> int \<Rightarrow> string \<Rightarrow> string \<Rightarrow> kafka_message \<Rightarrow> raw_event" where
  "kafka_event parseDate parseNumber now uuid topic message =
    (let msgHeaders = kafka_parseHeaders (km_headers message) in
     \<lparr>re_eventId = dflt (om_get msgHeaders ''x-event-id'') (dflt (km_key message) uuid), re_eventType = topic,
      re_payload = dflt (km_value message) [],
      re_publishedAt = parseTimestamp parseDate parseNumber now (om_get msgHeaders ''x-published-at'') (km_timestamp message),
      re_attempt = 1, re_metadata = om_del ''x-published-at'' (om_del ''x-event-id'' msgHeaders)\<rparr>)"

type_synonym 's kafka_handler = "raw_event \<Rightarrow> (bool \<times> 's, jserr, unit) io \<Rightarrow> (bool \<Rightarrow> (bool \<times> 's, jserr, unit) io) \<Rightarrow>
  (bool \<times> 's, jserr, unit) io"

definition kafka_ack :: "'s kafka_ops \<Rightarrow> int \<Rightarrow> (bool \<times> 's, jserr, unit) io" where
  "kafka_ack ops offset = on_cell (io_bind (ko_resolveOffset ops offset) (\<lambda>_. ko_commit ops))"

definition kafka_nack :: "'s kafka_ops \<Rightarrow> int \<Rightarrow> bool \<Rightarrow> (bool \<times> 's, jserr, unit) io" where
  "kafka_nack ops offset requeue =
    (if requeue = False then on_cell (io_bind (ko_resolveOffset ops offset) (\<lambda>_. ko_commit ops))
     else (\<lambda>(nacked, s). (Inr (), (True, s))))"

fun eachBatch :: "'s kafka_ops \<Rightarrow> (kafka_message \<Rightarrow> raw_event) \<Rightarrow> 's kafka_handler \<Rightarrow> kafka_message list \<Rightarrow> ('s, jserr, unit) io" where
  "eachBatch ops event handler [] s = (Inr (), s)"
| "eachBatch ops event handler (message # messages) s =
    (case handler (event message) (kafka_ack ops (km_offset message)) (kafka_nack ops (km_offset message)) (False, s) of
       (Inl _, (nacked, s')) \<Rightarrow> (Inr (), s')
     | (Inr _, (nacked, s')) \<Rightarrow>
         if nacked then (Inr (), s')
         else io_bind (ko_heartbeat ops) (\<lambda>_. eachBatch ops event handler messages) s')"

section \<open>The regular expression means the bus's pattern\<close>

definition kafka_atom :: "char \<Rightarrow> regex_atom" where
  "kafka_atom c = (if c = CHR ''*'' then SegmentPlus else if c = CHR ''>'' then AnyPlus else Lit c)"

lemma read_escape_Cons: "read_regex (kafka_escape c @ r) = kafka_atom c # read_regex r"
proof (cases "regex_special c")
  case True
  then have "kafka_escape c = [CHR 0x5C, c]" "kafka_atom c = Lit c"
    by (auto simp: kafka_escape_def kafka_atom_def regex_special_def)
  then show ?thesis by simp
next
  case False
  then show ?thesis
    by (auto simp: kafka_escape_def kafka_atom_def regex_special_def)
qed

lemma read_escape: "read_regex (concat (map kafka_escape p)) = map kafka_atom p"
  by (induction p) (simp_all add: read_escape_Cons)

lemma list_ex_split:
  "list_ex (\<lambda>k. P (take k s) \<and> Q (drop k s)) [1..<Suc (length s)] \<longleftrightarrow> (\<exists>t u. s = t @ u \<and> t \<noteq> [] \<and> P t \<and> Q u)"
proof
  assume "list_ex (\<lambda>k. P (take k s) \<and> Q (drop k s)) [1..<Suc (length s)]"
  then obtain k where k: "1 \<le> k" "k \<le> length s" "P (take k s)" "Q (drop k s)" by (auto simp: list_ex_iff)
  then have "take k s \<noteq> []" by auto
  then show "\<exists>t u. s = t @ u \<and> t \<noteq> [] \<and> P t \<and> Q u"
    using k by (intro exI [of _ "take k s"] exI [of _ "drop k s"]) simp
next
  assume "\<exists>t u. s = t @ u \<and> t \<noteq> [] \<and> P t \<and> Q u"
  then obtain t u where "s = t @ u" "t \<noteq> []" "P t" "Q u" by blast
  then show "list_ex (\<lambda>k. P (take k s) \<and> Q (drop k s)) [1..<Suc (length s)]"
    by (auto simp: list_ex_iff Suc_le_eq intro!: bexI [of _ "length t"])
qed

lemma regex_segment: "regex_match (SegmentPlus # as) s \<longleftrightarrow>
    (\<exists>t u. s = t @ u \<and> t \<noteq> [] \<and> CHR ''.'' \<notin> set t \<and> regex_match as u)"
  unfolding regex_match.simps by (rule list_ex_split)

lemma regex_any: "regex_match (AnyPlus # as) s \<longleftrightarrow>
    (\<exists>t u. s = t @ u \<and> t \<noteq> [] \<and> list_all (\<lambda>c. \<not> line_end c) t \<and> regex_match as u)"
  unfolding regex_match.simps by (rule list_ex_split)

lemma regex_lits: "regex_match (map Lit p @ as) s \<longleftrightarrow> (\<exists>u. s = p @ u \<and> regex_match as u)"
  by (induction p arbitrary: s) (auto split: list.split)

lemma regex_lit: "regex_match (Lit c # as) s \<longleftrightarrow> (\<exists>v. s = c # v \<and> regex_match as v)"
  by (cases s) auto

declare regex_match.simps(2-4) [simp del]

definition simple_segment :: "string \<Rightarrow> bool" where
  "simple_segment p \<longleftrightarrow> p = ''*'' \<or> CHR ''*'' \<notin> set p \<and> CHR ''>'' \<notin> set p"

definition kafka_pattern_ok :: "string list \<Rightarrow> bool" where
  "kafka_pattern_ok ps \<longleftrightarrow> list_all simple_segment (butlast ps) \<and> (simple_segment (last ps) \<or> last ps = ''>'')"

definition topic_segment_ok :: "string \<Rightarrow> bool" where
  "topic_segment_ok t \<longleftrightarrow> t \<noteq> [] \<and> CHR ''.'' \<notin> set t \<and> list_all (\<lambda>c. \<not> line_end c) t"

lemma literal_atoms: "CHR ''*'' \<notin> set p \<Longrightarrow> CHR ''>'' \<notin> set p \<Longrightarrow> map kafka_atom p = map Lit p"
  by (induction p) (auto simp: kafka_atom_def)

lemma dot_split: "c \<notin> set a \<Longrightarrow> c \<notin> set b \<Longrightarrow> a @ c # x = b @ c # y \<longleftrightarrow> a = b \<and> x = y"
proof
  assume c: "c \<notin> set a" "c \<notin> set b" and eq: "a @ c # x = b @ c # y"
  have tw: "takeWhile (\<lambda>z. z \<noteq> c) (l @ c # r) = l" if "c \<notin> set l" for l r
    using that by (induction l) auto
  have "a = b" using tw [OF c(1), of x] tw [OF c(2), of y] eq by simp
  then show "a = b \<and> x = y" using eq by simp
qed simp

lemma join_dots:
  assumes "list_all topic_segment_ok ts" "ts \<noteq> []"
  shows "js_join ''.'' ts \<noteq> []" "CHR ''.'' \<in> set (js_join ''.'' ts) \<longleftrightarrow> tl ts \<noteq> []"
    "list_all (\<lambda>c. \<not> line_end c) (js_join ''.'' ts)"
  using assms by (induction ts rule: induct_list012) (auto simp: topic_segment_ok_def line_end_def)

lemma single_segment:
  assumes p: "simple_segment p" "CHR ''.'' \<notin> set p" and ts: "list_all topic_segment_ok ts" "ts \<noteq> []"
  shows "regex_match (map kafka_atom p) (js_join ''.'' ts) \<longleftrightarrow> (\<exists>t. ts = [t] \<and> segment_ok p t)"
proof -
  obtain t r where t: "ts = t # r" using ts(2) by (cases ts) auto
  note jd = join_dots [OF ts]
  show ?thesis
  proof (cases "p = ''*''")
    case True
    have "regex_match (map kafka_atom p) s \<longleftrightarrow> s \<noteq> [] \<and> CHR ''.'' \<notin> set s" for s
      by (auto simp: True kafka_atom_def regex_segment)
    then show ?thesis using jd t True by (cases r) (auto simp: segment_ok_def)
  next
    case False
    then have lits: "map kafka_atom p = map Lit p" using p(1) unfolding simple_segment_def by (blast intro: literal_atoms)
    have "regex_match (map kafka_atom p) s \<longleftrightarrow> s = p" for s unfolding lits using regex_lits [of p "[]" s] by auto
    then show ?thesis using jd t False p(2) by (cases r) (auto simp: segment_ok_def)
  qed
qed

lemma first_segment:
  assumes p: "simple_segment p" "CHR ''.'' \<notin> set p" and ts: "list_all topic_segment_ok ts" "ts \<noteq> []"
  shows "regex_match (map kafka_atom p @ Lit (CHR ''.'') # as) (js_join ''.'' ts) \<longleftrightarrow>
    (\<exists>t r. ts = t # r \<and> r \<noteq> [] \<and> segment_ok p t \<and> regex_match as (js_join ''.'' r))"
proof -
  have dec: "regex_match (map kafka_atom p @ Lit (CHR ''.'') # as) s \<longleftrightarrow>
      (\<exists>t u. s = t @ CHR ''.'' # u \<and> CHR ''.'' \<notin> set t \<and> (p = ''*'' \<and> t \<noteq> [] \<or> p \<noteq> ''*'' \<and> t = p) \<and> regex_match as u)" for s
  proof (cases "p = ''*''")
    case True
    have "regex_match (map kafka_atom p @ Lit (CHR ''.'') # as) s \<longleftrightarrow>
        (\<exists>t u. s = t @ u \<and> t \<noteq> [] \<and> CHR ''.'' \<notin> set t \<and> (\<exists>v. u = CHR ''.'' # v \<and> regex_match as v))"
      by (simp add: True kafka_atom_def regex_segment regex_lit)
    then show ?thesis using True by auto
  next
    case False
    then have lits: "map kafka_atom p = map Lit p" using p(1) unfolding simple_segment_def by (blast intro: literal_atoms)
    show ?thesis unfolding lits regex_lits regex_lit using False p(2) by auto
  qed
  obtain t r where t: "ts = t # r" using ts(2) by (cases ts) auto
  have tok: "t \<noteq> []" "CHR ''.'' \<notin> set t" using ts(1) t by (auto simp: topic_segment_ok_def)
  show ?thesis
  proof (cases r)
    case Nil
    then have "CHR ''.'' \<notin> set (js_join ''.'' ts)" using tok t by simp
    then show ?thesis unfolding dec using Nil t by auto
  next
    case (Cons t2 r2)
    then have j: "js_join ''.'' ts = t @ CHR ''.'' # js_join ''.'' r" using t by simp
    show ?thesis unfolding dec j using t Cons tok by (auto simp: dot_split segment_ok_def)
  qed
qed

lemma kafka_regex_spec:
  assumes "ps \<noteq> []" "kafka_pattern_ok ps" "\<forall>p \<in> set ps. CHR ''.'' \<notin> set p" "list_all topic_segment_ok ts" "ts \<noteq> []"
  shows "regex_match (map kafka_atom (js_join ''.'' ps)) (js_join ''.'' ts) \<longleftrightarrow> spec_rec ps ts"
  using assms
proof (induction ps arbitrary: ts rule: induct_list012)
  case (2 p)
  note jd = join_dots [OF "2.prems"(4,5)]
  show ?case
  proof (cases "p = ''>''")
    case True
    have "regex_match [AnyPlus] s \<longleftrightarrow> s \<noteq> [] \<and> list_all (\<lambda>c. \<not> line_end c) s" for s
      by (auto simp: regex_any)
    then show ?thesis using True jd "2.prems"(5) by (simp add: kafka_atom_def)
  next
    case False
    then have "simple_segment p" using "2.prems"(2) by (simp add: kafka_pattern_ok_def)
    then show ?thesis using single_segment [of p ts] "2.prems" False by (auto split: list.split)
  qed
next
  case (3 p q qs)
  have p: "simple_segment p" "CHR ''.'' \<notin> set p" "p \<noteq> ''>''"
    using "3.prems"(2,3) by (auto simp: kafka_pattern_ok_def simple_segment_def)
  have IH: "regex_match (map kafka_atom (js_join ''.'' (q # qs))) (js_join ''.'' r) \<longleftrightarrow> spec_rec (q # qs) r"
    if "list_all topic_segment_ok r" "r \<noteq> []" for r
    using "3.IH"(2) [of r] "3.prems" that by (simp add: kafka_pattern_ok_def)
  have atoms: "map kafka_atom (js_join ''.'' (p # q # qs)) =
      map kafka_atom p @ Lit (CHR ''.'') # map kafka_atom (js_join ''.'' (q # qs))" by (simp add: kafka_atom_def)
  have nil: "\<not> spec_rec (q # qs) []" by simp
  obtain t r where t: "ts = t # r" using "3.prems"(5) by (cases ts) auto
  have r: "list_all topic_segment_ok r" using "3.prems"(4) t by simp
  have "spec_rec (p # q # qs) ts \<longleftrightarrow> r \<noteq> [] \<and> segment_ok p t \<and> spec_rec (q # qs) r"
    using p(3) nil unfolding t by (cases r) (simp_all del: spec_rec.simps(2) add: spec_rec.simps(2) [of p])
  then show ?case unfolding atoms first_segment [OF p(1,2) "3.prems"(4,5)] using IH [OF r] t by auto
qed simp

text \<open>C30. Subscription and routing agree on Kafka: for a pattern in which stars and a final
  greater-than sign stand for whole segments, and a topic without empty segments and line breaks,
  the regular expression that Kafka is given matches the topic exactly when the bus's own matching
  does; so the consumer group neither misses a topic that a route is for nor fetches one that has none.\<close>
theorem kafka_subscription_agrees_with_routing:
  assumes "length pattern \<le> 256" "kafka_pattern_ok (js_split CHR ''.'' pattern)"
    "list_all topic_segment_ok (js_split CHR ''.'' topic)"
  shows "kafka_subscribed pattern topic \<longleftrightarrow> matchPattern pattern topic"
proof (cases "CHR ''*'' \<notin> set pattern \<and> CHR ''>'' \<notin> set pattern")
  case True
  then show ?thesis using assms(1)
    by (auto simp: kafka_subscribed_def patternToKafkaTopicMatcher_def matchPattern_def)
next
  case False
  let ?ps = "js_split CHR ''.'' pattern" and ?ts = "js_split CHR ''.'' topic"
  have "kafka_subscribed pattern topic \<longleftrightarrow> regex_match (map kafka_atom pattern) topic"
    using False assms(1)
    by (auto simp: kafka_subscribed_def patternToKafkaTopicMatcher_def regex_test_def butlast_append read_escape)
  also have "\<dots> \<longleftrightarrow> spec_rec ?ps ?ts"
    using kafka_regex_spec [of ?ps ?ts, OF _ assms(2) _ assms(3)] js_split_no_sep [of _ "CHR ''.''" pattern]
    by (simp add: js_join_split)
  also have "\<dots> \<longleftrightarrow> matchPattern pattern topic"
    using False by (auto simp: matchPattern_def Let_def match_loop_rec)
  finally show ?thesis .
qed

lemma kafka_subscription_agrees_with_routing_witness:
  "kafka_subscribed ''a.*.>'' ''a.b.c.d'' \<longleftrightarrow> matchPattern ''a.*.>'' ''a.b.c.d''"
  using kafka_subscription_agrees_with_routing [of "''a.*.>''" "''a.b.c.d''"]
  by (simp add: kafka_pattern_ok_def simple_segment_def topic_segment_ok_def line_end_def)

section \<open>Connection\<close>

record kafka_adapter =
  ka_connected :: bool
  ka_producer :: "nat option"
  ka_consumers :: "nat list"

definition kafka_new :: kafka_adapter where
  "kafka_new = \<lparr>ka_connected = False, ka_producer = None, ka_consumers = []\<rparr>"

record 's kafka_lib =
  kl_producer :: "string \<Rightarrow> ('s, jserr, nat) io"
  kl_producer_connect :: "nat \<Rightarrow> ('s, jserr, unit) io"
  kl_producer_disconnect :: "nat \<Rightarrow> ('s, jserr, unit) io"
  kl_consumer :: "string \<Rightarrow> ('s, jserr, nat) io"
  kl_consumer_connect :: "nat \<Rightarrow> ('s, jserr, unit) io"
  kl_consumer_subscribe :: "nat \<Rightarrow> kafka_topic list \<Rightarrow> bool \<Rightarrow> ('s, jserr, unit) io"
  kl_consumer_run :: "nat \<Rightarrow> ('s, jserr, unit) io"
  kl_consumer_disconnect :: "nat \<Rightarrow> ('s, jserr, unit) io"
  kl_randomUUID :: "('s, jserr, string) io"

type_synonym ('s, 'a) kafka_io = "(kafka_adapter \<times> 's, jserr, 'a) io"

definition kafka_connect :: "'s kafka_lib \<Rightarrow> string option \<Rightarrow> string option \<Rightarrow> ('s, unit) kafka_io" where
  "kafka_connect lib clientId serviceName = (\<lambda>(a, s).
    if ka_connected a then (Inr (), (a, s))
    else io_bind (on_cell (kl_producer lib (dflt clientId (dflt serviceName ''connectum'')))) (\<lambda>p.
         io_bind (on_cell (io_catch (kl_producer_connect lib p)
           (\<lambda>err. io_bind (io_catch (kl_producer_disconnect lib p) (\<lambda>_. io_return ())) (\<lambda>_. io_throw err)))) (\<lambda>_.
           \<lambda>(a, s). (Inr (), (a\<lparr>ka_producer := Some p, ka_connected := True\<rparr>, s)))) (a, s))"

definition kafka_disconnect :: "'s kafka_lib \<Rightarrow> ('s, unit) kafka_io" where
  "kafka_disconnect lib = (\<lambda>(a, s).
    if \<not> ka_connected a then (Inr (), (a, s))
    else io_bind (on_cell (io_for (\<lambda>c. io_catch (kl_consumer_disconnect lib c) (\<lambda>_. io_return ())) (ka_consumers a))) (\<lambda>_.
         io_bind (\<lambda>(a, s). (Inr (), (a\<lparr>ka_consumers := []\<rparr>, s))) (\<lambda>_.
         io_bind (on_cell (case ka_producer a of None \<Rightarrow> io_return () | Some p \<Rightarrow> kl_producer_disconnect lib p)) (\<lambda>_.
           \<lambda>(a, s). (Inr (), (a\<lparr>ka_producer := None, ka_connected := False\<rparr>, s))))) (a, s))"

fun kafka_topics :: "string list \<Rightarrow> jserr + kafka_topic list" where
  "kafka_topics [] = Inr []"
| "kafka_topics (p # ps) = res_bind (patternToKafkaTopicMatcher p) (\<lambda>t. res_bind (kafka_topics ps) (\<lambda>ts. Inr (t # ts)))"

definition kafka_subscribe :: "'s kafka_lib \<Rightarrow> bool option \<Rightarrow> string list \<Rightarrow> string option \<Rightarrow> ('s, nat) kafka_io" where
  "kafka_subscribe lib fromBeginning patterns grp = (\<lambda>(a, s).
    if \<not> ka_connected a then (Inl (plain_error ''KafkaAdapter: not connected''), (a, s))
    else io_bind (on_cell (case grp of Some g \<Rightarrow> io_return g
           | None \<Rightarrow> io_bind (kl_randomUUID lib) (\<lambda>u. io_return (''connectum-'' @ u)))) (\<lambda>groupId.
         io_bind (on_cell (kl_consumer lib groupId)) (\<lambda>c.
         io_bind (on_cell (kl_consumer_connect lib c)) (\<lambda>_.
         io_bind (on_cell (io_catch
             (io_bind (io_lift (kafka_topics patterns)) (\<lambda>topics.
              io_bind (kl_consumer_subscribe lib c topics (dflt fromBeginning False)) (\<lambda>_. kl_consumer_run lib c)))
             (\<lambda>err. io_bind (io_catch (kl_consumer_disconnect lib c) (\<lambda>_. io_return ())) (\<lambda>_. io_throw err)))) (\<lambda>_.
           \<lambda>(a, s). (Inr c, (a\<lparr>ka_consumers := ka_consumers a @ [c]\<rparr>, s)))))) (a, s))"

definition kafka_unsubscribe :: "'s kafka_lib \<Rightarrow> nat \<Rightarrow> ('s, unit) kafka_io" where
  "kafka_unsubscribe lib c = (\<lambda>(a, s). on_cell (kl_consumer_disconnect lib c) (a\<lparr>ka_consumers := remove1 c (ka_consumers a)\<rparr>, s))"

section \<open>A bus over Kafka\<close>

datatype kafka_call = Resolve int | Commit | Heartbeat

definition log_ops :: "kafka_call list kafka_ops" where
  "log_ops = \<lparr>ko_resolveOffset = (\<lambda>offset l. (Inr (), l @ [Resolve offset])),
    ko_commit = (\<lambda>l. (Inr (), l @ [Commit])), ko_heartbeat = (\<lambda>l. (Inr (), l @ [Heartbeat]))\<rparr>"

definition goes_on :: "settle_call option \<Rightarrow> jserr + unit \<Rightarrow> bool" where
  "goes_on v outcome \<longleftrightarrow> outcome = Inr () \<and> v \<noteq> Some (NackCall True)"

fun batch_log :: "(kafka_message \<Rightarrow> settle_call option) \<Rightarrow> (kafka_message \<Rightarrow> jserr + unit) \<Rightarrow> kafka_message list \<Rightarrow> kafka_call list" where
  "batch_log v oc [] = []"
| "batch_log v oc (m # ms) = (if done_with (v m) then [Resolve (km_offset m), Commit] else []) @
    (if goes_on (v m) (oc m) then Heartbeat # batch_log v oc ms else [])"

definition kafka_noted :: "int \<Rightarrow> settle_call \<Rightarrow> bool \<times> kafka_call list \<Rightarrow> bool \<times> kafka_call list" where
  "kafka_noted offset c = (\<lambda>(nacked, l). if c = NackCall True then (True, l) else (nacked, l @ [Resolve offset, Commit]))"

interpretation kafka_settles: settling_adapter "kafka_ack log_ops" "kafka_nack log_ops" kafka_noted
  by unfold_locales (auto simp: kafka_ack_def kafka_nack_def kafka_noted_def log_ops_def io_bind_def split: prod.split)

lemma eachBatch_bus:
  assumes "\<forall>m \<in> set ms. find_handler handlers (re_eventType (event m)) = Some (\<lambda>ev. scripted (cs ev) (oc ev) ev)"
  shows "eachBatch log_ops event (\<lambda>ev ack nack. deliver handlers False ev ack nack aborted) ms l =
    (Inr (), l @ batch_log (\<lambda>m. first_settlement (cs (event m)) (oc (event m))) (\<lambda>m. oc (event m)) ms)"
  using assms
proof (induction ms arbitrary: l)
  case (Cons m ms)
  let ?ev = "event m"
  let ?a = "kafka_ack log_ops (km_offset m)" and ?n = "kafka_nack log_ops (km_offset m)"
  have d: "deliver handlers False ?ev ?a ?n aborted (False, l) = (oc ?ev,
      case first_settlement (cs ?ev) (oc ?ev) of None \<Rightarrow> (False, l) | Some c \<Rightarrow> kafka_noted (km_offset m) c (False, l))"
    using Cons.prems by (intro kafka_settles.delivery) auto
  have hb: "ko_heartbeat log_ops l' = (Inr (), l' @ [Heartbeat])" for l' by (simp add: log_ops_def)
  have some: "first_settlement (cs ?ev) (oc ?ev) \<noteq> None" if "oc ?ev = Inr ()" using that by (simp add: first_settlement_def)
  show ?case
  proof (cases "oc ?ev")
    case (Inl e)
    then show ?thesis unfolding eachBatch.simps d
      by (auto simp: kafka_noted_def done_with_def goes_on_def split: option.split) (metis (full_types) settle_call.exhaust)+
  next
    case (Inr u)
    then obtain c where c: "first_settlement (cs ?ev) (oc ?ev) = Some c" using some by auto
    have cc: "c = NackCall True \<or> c = AckCall \<or> c = NackCall False" by (metis (full_types) settle_call.exhaust)
    show ?thesis unfolding eachBatch.simps d c option.case kafka_noted_def
      using Inr c cc Cons by (auto simp: io_bind_def hb done_with_def goes_on_def)
  qed
qed simp

definition resolved_offsets :: "kafka_call list \<Rightarrow> int list" where
  "resolved_offsets l = concat (map (\<lambda>c. case c of Resolve i \<Rightarrow> [i] | _ \<Rightarrow> []) l)"


definition kafka_plain :: "int \<Rightarrow> kafka_message" where
  "kafka_plain offset = \<lparr>km_offset = offset, km_key = None, km_value = Some [nat offset], km_timestamp = None, km_headers = None\<rparr>"


end
