(* ===== verification/Nats.thy ===== *)
theory Nats
  imports Prelude Connect EventTopics EventMiddleware EventBus EventAdapter
begin

text \<open>
  packages/events-nats/src/NatsAdapter.ts and types.ts. A connection, a JetStream client, its manager, a
  consumer and an iterator of messages are numbers that the NATS library hands out; the library's
  functions are computations over an arbitrary world and may reject. The closure variables of the
  adapter are a record in front of that world, those of a running subscribe (its iterators and durable
  names, which survive a throw) a pair. The unsubscriptions that disconnect starts are run one after the
  other; their closures are disjoint. The headers of a message are a type of the library with its
  operations append, keys and get.
\<close>

section \<open>Options and names\<close>

datatype deliver_policy = PolicyNew | PolicyAll | PolicyLast

definition toDeliverPolicy :: "string option \<Rightarrow> deliver_policy" where
  "toDeliverPolicy policy =
    (if policy = Some ''all'' then PolicyAll else if policy = Some ''last'' then PolicyLast else PolicyNew)"

datatype nats_servers = OneServer string | ServerList "string list"

record nats_options =
  no_servers :: nats_servers
  no_stream :: "string option"
  no_connectionName :: "string option"
  no_deliverPolicy :: "string option"
  no_ackWait :: "int option"
  no_maxDeliver :: "int option"

definition nats_stream :: "nats_options \<Rightarrow> string" where
  "nats_stream opts = dflt (no_stream opts) ''events''"

definition durable_char :: "char \<Rightarrow> bool" where
  "durable_char c \<longleftrightarrow> (let n = (of_char c :: nat) in
    97 \<le> n \<and> n \<le> 122 \<or> 65 \<le> n \<and> n \<le> 90 \<or> 48 \<le> n \<and> n \<le> 57 \<or> n = 95 \<or> n = 45)"

definition sanitizeDurableName :: "string \<Rightarrow> string" where
  "sanitizeDurableName name = map (\<lambda>c. if durable_char c then c else CHR ''_'') name"

definition consumerName :: "(string \<Rightarrow> string) \<Rightarrow> string \<Rightarrow> string \<Rightarrow> string" where
  "consumerName sha256hex grp pattern =
    sanitizeDurableName grp @ ''--'' @ sanitizeDurableName pattern @ ''--'' @ take 8 (sha256hex (grp @ [CHR 0x00] @ pattern))"

record nats_consumer =
  nc_durable_name :: string
  nc_ack_policy :: string
  nc_deliver_policy :: deliver_policy
  nc_filter_subject :: string
  nc_ack_wait :: int
  nc_max_deliver :: int

definition nats_consumer_config :: "nats_options \<Rightarrow> (string \<Rightarrow> string) \<Rightarrow> string \<Rightarrow> string \<Rightarrow> nats_consumer" where
  "nats_consumer_config opts sha256hex grp pattern =
    \<lparr>nc_durable_name = consumerName sha256hex grp pattern, nc_ack_policy = ''explicit'',
     nc_deliver_policy = toDeliverPolicy (no_deliverPolicy opts),
     nc_filter_subject = nats_stream opts @ ''.'' @ pattern,
     nc_ack_wait = (case no_ackWait opts of
        Some w \<Rightarrow> if w \<noteq> 0 then w * 1000000 else 30000000000 | None \<Rightarrow> 30000000000),
     nc_max_deliver = dflt (no_maxDeliver opts) 5\<rparr>"

section \<open>The library and the adapter\<close>

record 'h nats_headers =
  nh_new :: 'h
  nh_append :: "string \<Rightarrow> string \<Rightarrow> 'h \<Rightarrow> jserr + 'h"
  nh_keys :: "'h \<Rightarrow> string list"
  nh_get :: "'h \<Rightarrow> string \<Rightarrow> string"

record ('s, 'h) nats_lib =
  nl_connect :: "string list \<Rightarrow> string option \<Rightarrow> ('s, jserr, nat) io"
  nl_jetstream :: "nat \<Rightarrow> ('s, jserr, nat) io"
  nl_manager :: "nat \<Rightarrow> ('s, jserr, nat) io"
  nl_stream_info :: "nat \<Rightarrow> string \<Rightarrow> ('s, jserr, unit) io"
  nl_stream_add :: "nat \<Rightarrow> string \<Rightarrow> string list \<Rightarrow> ('s, jserr, unit) io"
  nl_code :: "jserr \<Rightarrow> int option"
  nl_api_err_code :: "jserr \<Rightarrow> int option"
  nl_close :: "nat \<Rightarrow> ('s, jserr, unit) io"
  nl_drain :: "nat \<Rightarrow> ('s, jserr, unit) io"
  nl_publish :: "nat \<Rightarrow> string \<Rightarrow> nat list \<Rightarrow> 'h \<Rightarrow> ('s, jserr, unit) io"
  nl_consumer_add :: "nat \<Rightarrow> string \<Rightarrow> nats_consumer \<Rightarrow> ('s, jserr, unit) io"
  nl_consumer_get :: "nat \<Rightarrow> string \<Rightarrow> string \<Rightarrow> ('s, jserr, nat) io"
  nl_consumer_delete :: "nat \<Rightarrow> string \<Rightarrow> string \<Rightarrow> ('s, jserr, unit) io"
  nl_consume :: "nat \<Rightarrow> ('s, jserr, nat) io"
  nl_iter_close :: "nat \<Rightarrow> ('s, jserr, unit) io"
  nl_randomUUID :: "('s, jserr, string) io"
  nl_sha256hex :: "string \<Rightarrow> string"

record nats_subscription =
  ns_messageIterators :: "nat list"
  ns_createdDurables :: "string list"
  ns_isAutoGroup :: bool

record nats_adapter =
  na_nc :: "nat option"
  na_js :: "nat option"
  na_jsm :: "nat option"
  na_subscriptions :: "nats_subscription list"
  na_activeSubs :: "nat list"

type_synonym ('s, 'a) nats_io = "(nats_adapter \<times> 's, jserr, 'a) io"

definition nats_new :: nats_adapter where
  "nats_new = \<lparr>na_nc = None, na_js = None, na_jsm = None, na_subscriptions = [], na_activeSubs = []\<rparr>"

definition ignored :: "('s, 'e, unit) io \<Rightarrow> ('s, 'e, unit) io" where
  "ignored m = io_catch m (\<lambda>_. io_return ())"

definition nats_ensure_stream :: "('s, 'h) nats_lib \<Rightarrow> nat \<Rightarrow> string \<Rightarrow> ('s, jserr, unit) io" where
  "nats_ensure_stream lib manager stream = io_catch (nl_stream_info lib manager stream) (\<lambda>err.
    if nl_code lib err = Some 404 \<or> nl_code lib err = Some 10059 \<or> nl_api_err_code lib err = Some 10059
    then nl_stream_add lib manager stream [stream @ ''.>'']
    else io_throw err)"

definition nats_connect :: "('s, 'h) nats_lib \<Rightarrow> nats_options \<Rightarrow> string option \<Rightarrow> ('s, unit) nats_io" where
  "nats_connect lib opts serviceName = (\<lambda>(a, s).
    if na_nc a \<noteq> None then (Inl (plain_error ''NatsAdapter: already connected''), (a, s))
    else io_bind (on_cell (nl_connect lib (case no_servers opts of OneServer u \<Rightarrow> [u] | ServerList us \<Rightarrow> us)
             (case no_connectionName opts of Some n \<Rightarrow> Some n | None \<Rightarrow> serviceName))) (\<lambda>connection.
         io_bind (on_cell (io_catch
             (io_bind (nl_jetstream lib connection) (\<lambda>jetStream.
              io_bind (nl_manager lib connection) (\<lambda>manager.
              io_bind (nats_ensure_stream lib manager (nats_stream opts)) (\<lambda>_. io_return (jetStream, manager)))))
             (\<lambda>err. io_bind (ignored (nl_close lib connection)) (\<lambda>_. io_throw err)))) (\<lambda>(jetStream, manager).
           \<lambda>(a, s). (Inr (), (a\<lparr>na_nc := Some connection, na_js := Some jetStream, na_jsm := Some manager\<rparr>, s)))) (a, s))"

section \<open>Publishing\<close>

definition x_header :: "string \<Rightarrow> bool" where
  "x_header key \<longleftrightarrow> take 2 key = ''x-''"

fun nats_user_headers :: "'h nats_headers \<Rightarrow> (string \<times> string) list \<Rightarrow> 'h \<Rightarrow> jserr + 'h" where
  "nats_user_headers H [] h = Inr h"
| "nats_user_headers H ((key, value) # es) h =
    (if x_header key then nats_user_headers H es h
     else res_bind (nh_append H key value h) (nats_user_headers H es))"

definition nats_publish_headers :: "'h nats_headers \<Rightarrow> string \<Rightarrow> (string, string) omap option \<Rightarrow> jserr + 'h" where
  "nats_publish_headers H eventId metadata =
    res_bind (nh_append H ''x-event-id'' eventId (nh_new H)) (nats_user_headers H (dflt metadata []))"

definition nats_publish :: "('s, 'h) nats_lib \<Rightarrow> 'h nats_headers \<Rightarrow> nats_options \<Rightarrow> string \<Rightarrow> nat list \<Rightarrow>
    (string, string) omap option \<Rightarrow> ('s, unit) nats_io" where
  "nats_publish lib H opts eventType payload metadata = (\<lambda>(a, s). case na_js a of
      None \<Rightarrow> (Inl (plain_error ''NatsAdapter: not connected''), (a, s))
    | Some js \<Rightarrow> on_cell (io_bind (nl_randomUUID lib) (\<lambda>eventId.
        io_bind (io_lift (nats_publish_headers H eventId metadata)) (\<lambda>headers.
          nl_publish lib js (nats_stream opts @ ''.'' @ eventType) payload headers))) (a, s))"

section \<open>Subscribing\<close>

type_synonym ('s, 'a) nats_opening = "((nat list \<times> string list) \<times> 's, jserr, 'a) io"

definition nats_open :: "('s, 'h) nats_lib \<Rightarrow> nats_options \<Rightarrow> nat \<Rightarrow> nat \<Rightarrow> string \<Rightarrow> string \<Rightarrow> ('s, unit) nats_opening" where
  "nats_open lib opts js jsm grp pattern =
    (let stream = nats_stream opts; durableName = consumerName (nl_sha256hex lib) grp pattern in
     io_bind (on_cell (nl_consumer_add lib jsm stream (nats_consumer_config opts (nl_sha256hex lib) grp pattern))) (\<lambda>_.
     io_bind (\<lambda>((iterators, durables), s). (Inr (), ((iterators, durables @ [durableName]), s))) (\<lambda>_.
     io_bind (on_cell (nl_consumer_get lib js stream durableName)) (\<lambda>consumer.
     io_bind (on_cell (nl_consume lib consumer)) (\<lambda>messages.
       \<lambda>((iterators, durables), s). (Inr (), ((iterators @ [messages], durables), s)))))))"

definition nats_rollback :: "('s, 'h) nats_lib \<Rightarrow> nat \<Rightarrow> string \<Rightarrow> nat list \<Rightarrow> string list \<Rightarrow> ('s, jserr, unit) io" where
  "nats_rollback lib jsm stream iterators durables =
    io_bind (io_for (\<lambda>i. ignored (nl_iter_close lib i)) iterators)
      (\<lambda>_. io_for (\<lambda>d. ignored (nl_consumer_delete lib jsm stream d)) durables)"

definition nats_group :: "('s, 'h) nats_lib \<Rightarrow> string option \<Rightarrow> ('s, jserr, string) io" where
  "nats_group lib grp = (case grp of
      Some g \<Rightarrow> io_return g
    | None \<Rightarrow> io_bind (nl_randomUUID lib) (\<lambda>u. io_return (''sub-'' @ take 8 u)))"

definition nats_subscribe :: "('s, 'h) nats_lib \<Rightarrow> nats_options \<Rightarrow> string list \<Rightarrow> string option \<Rightarrow> ('s, nat) nats_io" where
  "nats_subscribe lib opts patterns grp = (\<lambda>(a, s). case (na_js a, na_jsm a) of
      (Some js, Some jsm) \<Rightarrow> io_bind (on_cell (nats_group lib grp)) (\<lambda>g. \<lambda>(a, s).
        case io_for (nats_open lib opts js jsm g) patterns (([], []), s) of
          (Inl err, ((iterators, durables), s')) \<Rightarrow>
            (Inl err, (a, snd (nats_rollback lib jsm (nats_stream opts) iterators durables s')))
        | (Inr _, ((iterators, durables), s')) \<Rightarrow>
            (let handle = length (na_subscriptions a) in
             (Inr handle, (a\<lparr>na_subscriptions := na_subscriptions a @ [\<lparr>ns_messageIterators = iterators,
                ns_createdDurables = durables, ns_isAutoGroup = (grp = None \<or> grp = Some [])\<rparr>],
                na_activeSubs := na_activeSubs a @ [handle]\<rparr>, s')))) (a, s)
    | _ \<Rightarrow> (Inl (plain_error ''NatsAdapter: not connected''), (a, s)))"

definition nats_unsubscribe :: "('s, 'h) nats_lib \<Rightarrow> nats_options \<Rightarrow> nat \<Rightarrow> ('s, unit) nats_io" where
  "nats_unsubscribe lib opts handle = (\<lambda>(a, s).
    let sub = na_subscriptions a ! handle in
    io_bind (on_cell (io_for (nl_iter_close lib) (ns_messageIterators sub))) (\<lambda>_.
    io_bind (on_cell (case (ns_isAutoGroup sub, na_jsm a) of
        (True, Some jsm) \<Rightarrow> io_for (\<lambda>d. ignored (nl_consumer_delete lib jsm (nats_stream opts) d)) (ns_createdDurables sub)
      | _ \<Rightarrow> io_return ())) (\<lambda>_.
      \<lambda>(a, s). (Inr (), (a\<lparr>na_subscriptions := (na_subscriptions a)[handle :=
          sub\<lparr>ns_messageIterators := [], ns_createdDurables := []\<rparr>],
        na_activeSubs := remove1 handle (na_activeSubs a)\<rparr>, s)))) (a, s))"

definition nats_disconnect :: "('s, 'h) nats_lib \<Rightarrow> nats_options \<Rightarrow> ('s, unit) nats_io" where
  "nats_disconnect lib opts = (\<lambda>(a, s).
    io_bind (io_for (\<lambda>handle. ignored (nats_unsubscribe lib opts handle)) (na_activeSubs a)) (\<lambda>_.
    io_bind (\<lambda>(a, s). (Inr (), (a\<lparr>na_activeSubs := []\<rparr>, s))) (\<lambda>_.
      \<lambda>(a, s). case na_nc a of
          None \<Rightarrow> (Inr (), (a, s))
        | Some connection \<Rightarrow> io_bind (on_cell (nl_drain lib connection)) (\<lambda>_.
            \<lambda>(a, s). (Inr (), (a\<lparr>na_nc := None, na_js := None, na_jsm := None\<rparr>, s))) (a, s))) (a, s))"

section \<open>Consuming\<close>

datatype nats_timestamp = BigNanos int | NumberNanos "int option"

record 'h nats_message =
  nm_subject :: string
  nm_headers :: "'h option"
  nm_data :: "nat list"
  nm_timestampNanos :: nats_timestamp
  nm_deliveryCount :: int

definition nats_parseHeaders :: "'h nats_headers \<Rightarrow> 'h option \<Rightarrow> (string, string) omap" where
  "nats_parseHeaders H hdrs = (case hdrs of
      None \<Rightarrow> []
    | Some h \<Rightarrow> fold (\<lambda>key m. if nh_get H h key \<noteq> [] then om_set key (nh_get H h key) m else m) (nh_keys H h) [])"

definition trunc_div :: "int \<Rightarrow> int \<Rightarrow> int" where
  "trunc_div a b = sgn a * (\<bar>a\<bar> div b)"

definition nats_publishedAt :: "int \<Rightarrow> nats_timestamp \<Rightarrow> int" where
  "nats_publishedAt now ts = (case ts of
      BigNanos n \<Rightarrow> trunc_div n 1000000
    | NumberNanos (Some n) \<Rightarrow> trunc_div n 1000000
    | NumberNanos None \<Rightarrow> now)"

definition nats_event :: "'h nats_headers \<Rightarrow> string \<Rightarrow> int \<Rightarrow> string \<Rightarrow> 'h nats_message \<Rightarrow> raw_event" where
  "nats_event H uuid now streamName msg =
    (let subjectPrefix = streamName @ ''.'' in
     \<lparr>re_eventId = (case nm_headers msg of None \<Rightarrow> uuid | Some h \<Rightarrow> nh_get H h ''x-event-id''),
      re_eventType = (if take (length subjectPrefix) (nm_subject msg) = subjectPrefix
        then drop (length subjectPrefix) (nm_subject msg) else nm_subject msg),
      re_payload = nm_data msg, re_publishedAt = nats_publishedAt now (nm_timestampNanos msg),
      re_attempt = nm_deliveryCount msg, re_metadata = om_del ''x-event-id'' (nats_parseHeaders H (nm_headers msg))\<rparr>)"

record ('s, 'h) nats_msg_ops =
  mo_ack :: "'h nats_message \<Rightarrow> ('s, jserr, unit) io"
  mo_nak :: "'h nats_message \<Rightarrow> ('s, jserr, unit) io"
  mo_term :: "'h nats_message \<Rightarrow> ('s, jserr, unit) io"

definition nats_nack :: "('s, 'h) nats_msg_ops \<Rightarrow> 'h nats_message \<Rightarrow> bool \<Rightarrow> ('s, jserr, unit) io" where
  "nats_nack ops msg requeue = (if requeue = False then mo_term ops msg else mo_nak ops msg)"

fun nats_consumeLoop :: "('s, 'h) nats_msg_ops \<Rightarrow> ('h nats_message \<Rightarrow> raw_event) \<Rightarrow>
    (raw_event \<Rightarrow> ('s, jserr, unit) io \<Rightarrow> (bool \<Rightarrow> ('s, jserr, unit) io) \<Rightarrow> ('s, jserr, unit) io) \<Rightarrow>
    'h nats_message list \<Rightarrow> ('s, jserr, unit) io" where
  "nats_consumeLoop ops event handler [] = io_return ()"
| "nats_consumeLoop ops event handler (msg # msgs) =
    io_bind (io_catch (handler (event msg) (mo_ack ops msg) (nats_nack ops msg)) (\<lambda>_. mo_nak ops msg))
      (\<lambda>_. nats_consumeLoop ops event handler msgs)"

section \<open>A failed subscribe leaves nothing behind\<close>

datatype nats_entry = Added string | Got string | Opened nat | CloseTried nat | DeleteTried string | Other

definition nats_op :: "(nats_entry list \<Rightarrow> nats_entry \<Rightarrow> bool) \<Rightarrow> nats_entry \<Rightarrow> 'a \<Rightarrow> (nats_entry list, jserr, 'a) io" where
  "nats_op fails entry x = (\<lambda>l. if fails l entry
    then (Inl (plain_error ''nats''), l @ (case entry of CloseTried i \<Rightarrow> [entry] | DeleteTried d \<Rightarrow> [entry] | _ \<Rightarrow> []))
    else (Inr x, l @ [entry]))"

definition nats_log_lib :: "(nats_entry list \<Rightarrow> nats_entry \<Rightarrow> bool) \<Rightarrow> (string \<Rightarrow> string) \<Rightarrow> string \<Rightarrow> (nats_entry list, unit) nats_lib" where
  "nats_log_lib fails sha uuid = \<lparr>nl_connect = (\<lambda>_ _. nats_op fails Other 0), nl_jetstream = (\<lambda>_. nats_op fails Other 0),
    nl_manager = (\<lambda>_. nats_op fails Other 0), nl_stream_info = (\<lambda>_ _. nats_op fails Other ()),
    nl_stream_add = (\<lambda>_ _ _. nats_op fails Other ()), nl_code = je_code, nl_api_err_code = (\<lambda>_. None),
    nl_close = (\<lambda>_. nats_op fails Other ()), nl_drain = (\<lambda>_. nats_op fails Other ()),
    nl_publish = (\<lambda>_ _ _ _. nats_op fails Other ()),
    nl_consumer_add = (\<lambda>_ _ c. nats_op fails (Added (nc_durable_name c)) ()),
    nl_consumer_get = (\<lambda>_ _ d. nats_op fails (Got d) 0),
    nl_consumer_delete = (\<lambda>_ _ d. nats_op fails (DeleteTried d) ()),
    nl_consume = (\<lambda>_ l. nats_op fails (Opened (length l)) (length l) l),
    nl_iter_close = (\<lambda>i. nats_op fails (CloseTried i) ()),
    nl_randomUUID = io_return uuid, nl_sha256hex = sha\<rparr>"

definition added :: "nats_entry list \<Rightarrow> string list" where
  "added l = concat (map (\<lambda>e. case e of Added d \<Rightarrow> [d] | _ \<Rightarrow> []) l)"

definition opened :: "nats_entry list \<Rightarrow> nat list" where
  "opened l = concat (map (\<lambda>e. case e of Opened i \<Rightarrow> [i] | _ \<Rightarrow> []) l)"

definition close_tried :: "nats_entry list \<Rightarrow> nat list" where
  "close_tried l = concat (map (\<lambda>e. case e of CloseTried i \<Rightarrow> [i] | _ \<Rightarrow> []) l)"

definition delete_tried :: "nats_entry list \<Rightarrow> string list" where
  "delete_tried l = concat (map (\<lambda>e. case e of DeleteTried d \<Rightarrow> [d] | _ \<Rightarrow> []) l)"

lemmas nats_log_defs = added_def opened_def close_tried_def delete_tried_def

lemma nats_log_Nil [simp]: "added [] = []" "opened [] = []" "close_tried [] = []" "delete_tried [] = []"
  by (simp_all add: nats_log_defs)

lemma nats_log_append [simp]:
  "added (l @ l') = added l @ added l'" "opened (l @ l') = opened l @ opened l'"
  "close_tried (l @ l') = close_tried l @ close_tried l'" "delete_tried (l @ l') = delete_tried l @ delete_tried l'"
  by (simp_all add: nats_log_defs)

lemma nats_log_Cons [simp]:
  "added (e # l) = (case e of Added d \<Rightarrow> [d] | _ \<Rightarrow> []) @ added l" "opened (e # l) = (case e of Opened i \<Rightarrow> [i] | _ \<Rightarrow> []) @ opened l"
  "close_tried (e # l) = (case e of CloseTried i \<Rightarrow> [i] | _ \<Rightarrow> []) @ close_tried l"
  "delete_tried (e # l) = (case e of DeleteTried d \<Rightarrow> [d] | _ \<Rightarrow> []) @ delete_tried l"
  by (simp_all add: nats_log_defs)

definition opening_ok :: "(nat list \<times> string list) \<times> nats_entry list \<Rightarrow> bool" where
  "opening_ok w \<longleftrightarrow> (case w of ((iterators, durables), l) \<Rightarrow>
    opened l = iterators \<and> added l = durables \<and> close_tried l = [] \<and> delete_tried l = [])"

lemma nats_open_log:
  assumes "opening_ok ((its, ds), l)"
  shows "case nats_open (nats_log_lib fails sha uuid) opts js jsm g p ((its, ds), l) of (res, ((its', ds'), l')) \<Rightarrow>
    opening_ok ((its', ds'), l') \<and> (res = Inr () \<longrightarrow> ds' = ds @ [consumerName sha g p] \<and> length its' = Suc (length its))"
  using assms
  by (simp add: nats_open_def nats_log_lib_def nats_op_def io_bind_def opening_ok_def nats_consumer_config_def Let_def)

lemma nats_open_all_log:
  assumes "opening_ok ((its, ds), l)"
  shows "case io_for (nats_open (nats_log_lib fails sha uuid) opts js jsm g) ps ((its, ds), l) of (res, ((its', ds'), l')) \<Rightarrow>
    opening_ok ((its', ds'), l') \<and> (res = Inr () \<longrightarrow> ds' = ds @ map (consumerName sha g) ps \<and> length its' = length its + length ps)"
  using assms
proof (induction ps arbitrary: its ds l)
  case (Cons p ps)
  obtain res1 its1 ds1 l1 where s: "nats_open (nats_log_lib fails sha uuid) opts js jsm g p ((its, ds), l) = (res1, ((its1, ds1), l1))"
    by (metis prod.collapse)
  have q: "opening_ok ((its1, ds1), l1)" "res1 = Inr () \<Longrightarrow> ds1 = ds @ [consumerName sha g p] \<and> length its1 = Suc (length its)"
    using nats_open_log [OF Cons.prems, where fails = fails and sha = sha and uuid = uuid and opts = opts and js = js and jsm = jsm and g = g and p = p] by (simp_all add: s)
  show ?case
  proof (cases res1)
    case (Inl e)
    then show ?thesis using q(1) by (simp add: io_bind_def s)
  next
    case (Inr u)
    then show ?thesis using Cons.IH [OF q(1)] q(2) by (auto simp: io_bind_def s split: prod.splits)
  qed
qed simp

lemma io_for_log:
  assumes "\<And>x l. snd (f x l) = l @ [g x]" "\<And>x l. fst (f x l) = Inr ()"
  shows "io_for f xs l = (Inr (), l @ map g xs)"
proof (induction xs arbitrary: l)
  case (Cons x xs)
  have "f x l = (Inr (), l @ [g x])" using assms by (metis prod.collapse)
  then show ?case by (simp add: io_bind_def Cons.IH)
qed simp

lemma nats_rollback_log:
  "nats_rollback (nats_log_lib fails sha uuid) jsm stream its ds l = (Inr (), l @ map CloseTried its @ map DeleteTried ds)"
proof -
  have c: "io_for (\<lambda>i. ignored (nl_iter_close (nats_log_lib fails sha uuid) i)) its l' = (Inr (), l' @ map CloseTried its)" for l'
    by (rule io_for_log) (simp_all add: ignored_def io_catch_def nats_log_lib_def nats_op_def)
  have d: "io_for (\<lambda>d. ignored (nl_consumer_delete (nats_log_lib fails sha uuid) jsm stream d)) ds l' = (Inr (), l' @ map DeleteTried ds)" for l'
    by (rule io_for_log) (simp_all add: ignored_def io_catch_def nats_log_lib_def nats_op_def)
  show ?thesis by (simp add: nats_rollback_def io_bind_def c d)
qed

lemma tried_maps [simp]:
  "added (map CloseTried its) = []" "opened (map CloseTried its) = []" "close_tried (map CloseTried its) = its" "delete_tried (map CloseTried its) = []"
  "added (map DeleteTried ds) = []" "opened (map DeleteTried ds) = []" "close_tried (map DeleteTried ds) = []" "delete_tried (map DeleteTried ds) = ds"
  by (induction its; induction ds; simp add: nats_log_defs)+

definition nats_broker_group :: "string \<Rightarrow> string option \<Rightarrow> string" where
  "nats_broker_group uuid grp = dflt grp (''sub-'' @ take 8 uuid)"


section \<open>A bus over NATS\<close>

datatype nats_verb = VAck | VNak | VTerm

definition nats_log_ops :: "(('h nats_message \<times> nats_verb) list, 'h) nats_msg_ops" where
  "nats_log_ops = \<lparr>mo_ack = (\<lambda>m l. (Inr (), l @ [(m, VAck)])), mo_nak = (\<lambda>m l. (Inr (), l @ [(m, VNak)])),
    mo_term = (\<lambda>m l. (Inr (), l @ [(m, VTerm)]))\<rparr>"

definition nats_verb_of :: "settle_call \<Rightarrow> nats_verb" where
  "nats_verb_of c = (case c of AckCall \<Rightarrow> VAck | NackCall requeue \<Rightarrow> if requeue then VNak else VTerm)"

interpretation nats_settles: settling_adapter "mo_ack nats_log_ops" "nats_nack nats_log_ops" "\<lambda>m c l. l @ [(m, nats_verb_of c)]"
  by unfold_locales (simp_all add: nats_log_ops_def nats_nack_def nats_verb_of_def)

text \<open>With a bus behind the adapter every message of a subscription is settled, in the order in
  which the messages arrive and whatever the handlers before it did: the broker sees for each the
  settlement the bus chose first (an acknowledgement, a negative one, or a termination when the event was
  rejected without redelivery), then a further negative acknowledgement if the handler threw, which is
  the only settlement if it threw before it had settled.\<close>
theorem nats_settles_every_message:
  assumes "\<forall>m \<in> set ms. find_handler handlers (re_eventType (event m)) = Some (\<lambda>ev. scripted (cs ev) (oc ev) ev)"
  shows "nats_consumeLoop nats_log_ops event (\<lambda>ev ack nack. deliver handlers False ev ack nack aborted) ms l =
    (Inr (), l @ concat (map (\<lambda>m. case first_settlement (cs (event m)) (oc (event m)) of
        None \<Rightarrow> [(m, VNak)]
      | Some c \<Rightarrow> (m, nats_verb_of c) # (if oc (event m) = Inr () then [] else [(m, VNak)])) ms))"
  using assms
proof (induction ms arbitrary: l)
  case (Cons m ms)
  let ?ev = "event m"
  have d: "deliver handlers False ?ev (mo_ack nats_log_ops m) (nats_nack nats_log_ops m) aborted l = (oc ?ev,
      case first_settlement (cs ?ev) (oc ?ev) of None \<Rightarrow> l | Some c \<Rightarrow> l @ [(m, nats_verb_of c)])"
    using Cons.prems by (intro nats_settles.delivery) auto
  have nak: "mo_nak nats_log_ops m l' = (Inr (), l' @ [(m, VNak)])" for l' by (simp add: nats_log_ops_def)
  have some: "first_settlement (cs ?ev) (oc ?ev) \<noteq> None" if "oc ?ev = Inr ()" using that by (simp add: first_settlement_def)
  show ?case using Cons some
    by (cases "oc ?ev") (auto simp: io_bind_def io_catch_def d nak split: option.split)
qed simp

definition nats_plain :: "nat \<Rightarrow> unit nats_message" where
  "nats_plain n = \<lparr>nm_subject = ''events.t'', nm_headers = None, nm_data = [n], nm_timestampNanos = BigNanos 0, nm_deliveryCount = 1\<rparr>"

definition no_headers :: "unit nats_headers" where
  "no_headers = \<lparr>nh_new = (), nh_append = (\<lambda>_ _ _. Inr ()), nh_keys = (\<lambda>_. []), nh_get = (\<lambda>_ _. [])\<rparr>"

lemma nats_settles_every_message_witness:
  "nats_consumeLoop nats_log_ops (nats_event no_headers ''u'' 0 ''events'')
     (\<lambda>ev ack nack. deliver [(''t'', \<lambda>ev. scripted [] (if re_payload ev = [1] then Inl (plain_error ''x'') else Inr ()) ev)]
        False ev ack nack (\<lambda>_. None)) [nats_plain 1, nats_plain 2] [] =
   (Inr (), [(nats_plain 1, VNak), (nats_plain 2, VAck)])"
proof -
  let ?event = "nats_event no_headers ''u'' 0 ''events''"
  let ?oc = "\<lambda>ev. if re_payload ev = [1] then Inl (plain_error ''x'') else Inr ()"
  let ?h = "[(''t'', \<lambda>ev. scripted [] (?oc ev) ev)]"
  have e: "re_eventType (?event (nats_plain n)) = ''t''" "re_payload (?event (nats_plain n)) = [n]" for n
    by (simp_all add: nats_event_def nats_plain_def Let_def)
  have h: "\<forall>m \<in> set [nats_plain 1, nats_plain 2]. find_handler ?h (re_eventType (?event m)) = Some (\<lambda>ev. scripted [] (?oc ev) ev)"
    by (simp add: e find_handler_def om_get_cons)
  show ?thesis
    using nats_settles_every_message [OF h, where aborted = "\<lambda>_. None" and l = "[]"]
    by (simp del: nats_consumeLoop.simps add: e first_settlement_def nats_verb_of_def)
qed

section \<open>What is published is what is received\<close>

definition header_laws :: "'h nats_headers \<Rightarrow> (string \<Rightarrow> string \<Rightarrow> bool) \<Rightarrow> bool" where
  "header_laws H ok \<longleftrightarrow> nh_keys H (nh_new H) = [] \<and>
    (\<forall>k v h. ok k v \<and> k \<notin> set (nh_keys H h) \<longrightarrow>
      (\<exists>h'. nh_append H k v h = Inr h' \<and> nh_keys H h' = nh_keys H h @ [k] \<and>
        (\<forall>k'. nh_get H h' k' = (if k' = k then v else nh_get H h k'))))"

definition user_entries :: "(string \<times> string) list \<Rightarrow> (string \<times> string) list" where
  "user_entries es = filter (\<lambda>(k, v). \<not> x_header k) es"

lemma nats_user_headers_result:
  assumes "header_laws H ok" "distinct (map fst es)" "\<forall>(k, v) \<in> set es. \<not> x_header k \<longrightarrow> ok k v \<and> k \<notin> set (nh_keys H h)"
  shows "\<exists>h'. nats_user_headers H es h = Inr h' \<and> nh_keys H h' = nh_keys H h @ map fst (user_entries es) \<and>
    (\<forall>k. nh_get H h' k = (case map_of (user_entries es) k of Some v \<Rightarrow> v | None \<Rightarrow> nh_get H h k))"
  using assms(2,3)
proof (induction es arbitrary: h)
  case (Cons e es)
  obtain k v where e: "e = (k, v)" by (cases e)
  show ?case
  proof (cases "x_header k")
    case True
    then show ?thesis using Cons by (auto simp: e user_entries_def)
  next
    case False
    then obtain h1 where h1: "nh_append H k v h = Inr h1" "nh_keys H h1 = nh_keys H h @ [k]"
      "\<And>k'. nh_get H h1 k' = (if k' = k then v else nh_get H h k')"
      using assms(1) Cons.prems(2) unfolding header_laws_def e by fastforce
    have "\<forall>(k', v') \<in> set es. \<not> x_header k' \<longrightarrow> ok k' v' \<and> k' \<notin> set (nh_keys H h1)"
      using Cons.prems by (force simp: e h1(2))
    then obtain h' where h': "nats_user_headers H es h1 = Inr h'" "nh_keys H h' = nh_keys H h1 @ map fst (user_entries es)"
      "\<And>k. nh_get H h' k = (case map_of (user_entries es) k of Some v \<Rightarrow> v | None \<Rightarrow> nh_get H h1 k)"
      using Cons.IH [of h1] Cons.prems(1) by auto
    have fresh: "map_of (user_entries es) k = None"
      using Cons.prems(1) by (auto simp: e map_of_eq_None_iff user_entries_def)
    show ?thesis
    proof (intro exI conjI allI)
      show "nats_user_headers H (e # es) h = Inr h'" using False h1(1) h'(1) by (simp add: e)
      show "nh_keys H h' = nh_keys H h @ map fst (user_entries (e # es))" using False h'(2) by (simp add: e h1(2) user_entries_def)
      fix q
      have "user_entries (e # es) = (k, v) # user_entries es" using False by (simp add: e user_entries_def)
      then show "nh_get H h' q = (case map_of (user_entries (e # es)) q of Some v \<Rightarrow> v | None \<Rightarrow> nh_get H h q)"
        using fresh by (auto simp: h'(3) h1(3) split: option.split)
    qed
  qed
qed (simp add: user_entries_def)

lemma fold_headers:
  assumes "distinct ks" "\<forall>k \<in> set ks. \<not> om_has m k"
  shows "fold (\<lambda>k m. if g k \<noteq> [] then om_set k (g k) m else m) ks m = m @ map (\<lambda>k. (k, g k)) (filter (\<lambda>k. g k \<noteq> []) ks)"
  using assms
proof (induction ks arbitrary: m)
  case (Cons k ks)
  have n: "om_set k (g k) m = m @ [(k, g k)]" using Cons.prems(2) by (simp add: om_set_new)
  have "\<forall>k' \<in> set ks. \<not> om_has (om_set k (g k) m) k'" using Cons.prems by auto
  then show ?case using Cons.IH [of "m @ [(k, g k)]"] Cons.IH [of m] Cons.prems by (simp add: n)
qed simp

lemma map_filter_entries:
  assumes "\<forall>(k, v) \<in> set es. g k = v"
  shows "map (\<lambda>k. (k, g k)) (filter (\<lambda>k. g k \<noteq> []) (map fst es)) = filter (\<lambda>(k, v). v \<noteq> []) es"
  using assms by (induction es) auto

text \<open>A published event comes back as it was, for every header type that keeps its entries in order and
  returns what was appended: the subject carries the stream and the topic and yields the topic again,
  the event id is the generated one and never the publisher's, and the metadata are the publisher's
  entries in their order without those whose key starts with x- and those whose value is empty.\<close>
theorem nats_event_roundtrip:
  assumes "header_laws H ok" and "distinct (map fst metadata)" and "ok ''x-event-id'' eventId" and "eventId \<noteq> []"
    and "\<forall>(k, v) \<in> set metadata. \<not> x_header k \<longrightarrow> ok k v"
  shows "\<exists>h. nats_publish_headers H eventId (Some metadata) = Inr h \<and>
    nats_event H uuid now stream \<lparr>nm_subject = stream @ ''.'' @ eventType, nm_headers = Some h, nm_data = payload,
      nm_timestampNanos = ts, nm_deliveryCount = n\<rparr> =
    \<lparr>re_eventId = eventId, re_eventType = eventType, re_payload = payload, re_publishedAt = nats_publishedAt now ts,
      re_attempt = n, re_metadata = filter (\<lambda>(k, v). \<not> x_header k \<and> v \<noteq> []) metadata\<rparr>"
proof -
  have laws: "nh_keys H (nh_new H) = []"
    "\<And>k v h. ok k v \<Longrightarrow> k \<notin> set (nh_keys H h) \<Longrightarrow> \<exists>h'. nh_append H k v h = Inr h' \<and> nh_keys H h' = nh_keys H h @ [k] \<and>
      (\<forall>k'. nh_get H h' k' = (if k' = k then v else nh_get H h k'))"
    using assms(1) unfolding header_laws_def by blast+
  obtain h0 where h0: "nh_append H ''x-event-id'' eventId (nh_new H) = Inr h0" "nh_keys H h0 = [''x-event-id'']"
    "\<And>k. nh_get H h0 k = (if k = ''x-event-id'' then eventId else nh_get H (nh_new H) k)"
    using laws(2) [OF assms(3), of "nh_new H"] by (auto simp: laws(1))
  have x: "x_header ''x-event-id''" by (simp add: x_header_def)
  have "\<forall>(k, v) \<in> set metadata. \<not> x_header k \<longrightarrow> ok k v \<and> k \<notin> set (nh_keys H h0)"
    using assms(5) x by (auto simp: h0(2))
  from nats_user_headers_result [OF assms(1,2) this] obtain h where
    h: "nats_user_headers H metadata h0 = Inr h" "nh_keys H h = nh_keys H h0 @ map fst (user_entries metadata)"
    "\<And>k. nh_get H h k = (case map_of (user_entries metadata) k of Some v \<Rightarrow> v | None \<Rightarrow> nh_get H h0 k)" by blast
  have d: "distinct (map fst (user_entries metadata))"
    using assms(2) by (simp add: user_entries_def distinct_map_filter)
  have nx: "''x-event-id'' \<notin> fst ` set (user_entries metadata)" using x by (auto simp: user_entries_def)
  have id: "nh_get H h ''x-event-id'' = eventId" using nx by (simp add: h(3) h0(3) map_of_eq_None_iff [THEN iffD2])
  have get: "nh_get H h k = v" if "(k, v) \<in> set (user_entries metadata)" for k v
    using that d by (simp add: h(3))
  have "map (\<lambda>k. (k, nh_get H h k)) (filter (\<lambda>k. nh_get H h k \<noteq> []) (map fst (user_entries metadata))) =
      filter (\<lambda>(k, v). v \<noteq> []) (user_entries metadata)"
    using get by (intro map_filter_entries) auto
  then have "nats_parseHeaders H (Some h) = (''x-event-id'', eventId) # filter (\<lambda>(k, v). v \<noteq> []) (user_entries metadata)"
    using fold_headers [of "nh_keys H h" "[]" "nh_get H h"] d nx id assms(4)
    by (simp add: nats_parseHeaders_def h(2) h0(2) om_has_def)
  then have "om_del ''x-event-id'' (nats_parseHeaders H (Some h)) = filter (\<lambda>(k, v). v \<noteq> []) (user_entries metadata)"
    using nx om_del_absent [of "filter (\<lambda>(k, v). v \<noteq> []) (user_entries metadata)" "''x-event-id''"]
    by (auto simp: om_del_def AList.delete_eq om_has_keys om_keys_def)
  moreover have "filter (\<lambda>(k, v). v \<noteq> []) (user_entries metadata) = filter (\<lambda>(k, v). \<not> x_header k \<and> v \<noteq> []) metadata"
    by (simp add: user_entries_def filter_filter split_def conj_commute)
  ultimately show ?thesis
    using h(1) h0(1) id by (simp add: nats_publish_headers_def dflt_def nats_event_def Let_def)
qed

definition list_headers :: "(string, string) omap nats_headers" where
  "list_headers = \<lparr>nh_new = [], nh_append = (\<lambda>k v h. Inr (if om_has h k then h else h @ [(k, v)])),
    nh_keys = om_keys, nh_get = (\<lambda>h k. dflt (om_get h k) [])\<rparr>"

lemma list_headers_laws: "header_laws list_headers (\<lambda>k v. True)"
proof -
  have "om_get (h @ [(k, v)]) k' = (if k' = k then Some v else om_get h k')" if "\<not> om_has h k" for h and k k' v :: string
    using that by (auto simp: om_get_def om_has_def map_add_def split: option.splits)
  then show ?thesis
    by (auto simp: header_laws_def list_headers_def om_has_keys [symmetric] dflt_def)
      (auto simp: om_keys_def)
qed

lemma nats_event_roundtrip_witness:
  "re_metadata (nats_event list_headers ''u'' 0 ''events'' \<lparr>nm_subject = ''events.orders.created'',
     nm_headers = Some [(''x-event-id'', ''1''), (''tenant'', ''a'')], nm_data = [1], nm_timestampNanos = BigNanos 0, nm_deliveryCount = 1\<rparr>)
   = [(''tenant'', ''a'')]"
proof -
  have "nats_publish_headers list_headers ''1'' (Some [(''tenant'', ''a''), (''x-trace'', ''t'')]) =
      Inr [(''x-event-id'', ''1''), (''tenant'', ''a'')]"
    by (simp add: nats_publish_headers_def list_headers_def dflt_def x_header_def om_has_def om_get_cons)
  then show ?thesis
    using nats_event_roundtrip [OF list_headers_laws, where metadata = "[(''tenant'', ''a''), (''x-trace'', ''t'')]" and eventId = "''1''"
      and uuid = "''u''" and now = 0 and stream = "''events''" and eventType = "''orders.created''" and payload = "[1]"
      and ts = "BigNanos 0" and n = 1]
    by (simp add: x_header_def)
qed

end
