(* ===== verification/Redis.thy ===== *)
theory Redis
  imports Prelude Connect EventTopics EventMiddleware EventBus EventAdapter
begin

text \<open>
  packages/events-redis/src/RedisAdapter.ts and types.ts. Connections are numbers that ioredis hands out;
  its commands are computations over an arbitrary world and may reject. A payload is a list of bytes
  and is followed through base64, the encoding of the standard library. The flag subscriptionRunning can
  change while a command is awaited, so the loop reads it off the world. The endless loop is a partial
  function that is undefined as long as the subscription runs.
\<close>

section \<open>Base64\<close>

definition b64_char :: "nat \<Rightarrow> char" where
  "b64_char n = (if n < 26 then char_of (65 + n) else if n < 52 then char_of (71 + n)
    else if n < 62 then char_of (n - 4) else if n = 62 then CHR ''+'' else CHR ''/'')"

definition b64_value :: "char \<Rightarrow> nat option" where
  "b64_value c = (let n = (of_char c :: nat) in
    if 65 \<le> n \<and> n \<le> 90 then Some (n - 65) else if 97 \<le> n \<and> n \<le> 122 then Some (n - 71)
    else if 48 \<le> n \<and> n \<le> 57 then Some (n + 4)
    else if c = CHR ''+'' \<or> c = CHR ''-'' then Some 62 else if c = CHR ''/'' \<or> c = CHR ''_'' then Some 63 else None)"

fun sextets :: "nat list \<Rightarrow> nat list" where
  "sextets (a # b # c # r) = [a div 4, a mod 4 * 16 + b div 16, b mod 16 * 4 + c div 64, c mod 64] @ sextets r"
| "sextets [a, b] = [a div 4, a mod 4 * 16 + b div 16, b mod 16 * 4]"
| "sextets [a] = [a div 4, a mod 4 * 16]"
| "sextets [] = []"

fun b64_octets :: "nat list \<Rightarrow> nat list" where
  "b64_octets (w # x # y # z # r) = [w * 4 + x div 16, x mod 16 * 16 + y div 4, y mod 4 * 64 + z] @ b64_octets r"
| "b64_octets [w, x, y] = [w * 4 + x div 16, x mod 16 * 16 + y div 4]"
| "b64_octets [w, x] = [w * 4 + x div 16]"
| "b64_octets [w] = []"
| "b64_octets [] = []"

definition base64_encode :: "nat list \<Rightarrow> string" where
  "base64_encode bytes = map b64_char (sextets bytes) @
    (if length bytes mod 3 = 1 then ''=='' else if length bytes mod 3 = 2 then ''='' else [])"

definition base64_decode :: "string \<Rightarrow> nat list" where
  "base64_decode s = b64_octets (List.map_filter b64_value (takeWhile (\<lambda>c. c \<noteq> CHR ''='') s))"

lemma joined_bits:
  fixes m k n :: nat
  assumes "k < n"
  shows "(m * n + k) div n = m" "(m * n + k) mod n = k"
  using assms by simp_all

lemma two_octets:
  fixes a b :: nat
  assumes "b < 256"
  shows "a div 4 * 4 + (a mod 4 * 16 + b div 16) div 16 = a" "(a mod 4 * 16 + b div 16) mod 16 * 16 + b mod 16 = b"
proof -
  have "b div 16 < 16" using assms by (simp add: less_mult_imp_div_less)
  then show "a div 4 * 4 + (a mod 4 * 16 + b div 16) div 16 = a" "(a mod 4 * 16 + b div 16) mod 16 * 16 + b mod 16 = b"
    by (simp_all only: joined_bits div_mult_mod_eq)
qed

lemma three_octets:
  fixes b c :: nat
  assumes "c < 256"
  shows "(b mod 16 * 4 + c div 64) div 4 = b mod 16" "(b mod 16 * 4 + c div 64) mod 4 * 64 + c mod 64 = c"
proof -
  have "c div 64 < 4" using assms by (simp add: less_mult_imp_div_less)
  then show "(b mod 16 * 4 + c div 64) div 4 = b mod 16" "(b mod 16 * 4 + c div 64) mod 4 * 64 + c mod 64 = c"
    by (simp_all only: joined_bits div_mult_mod_eq)
qed

lemma octets_sextets: "list_all (\<lambda>b. b < 256) bs \<Longrightarrow> b64_octets (sextets bs) = bs"
proof (induction bs rule: sextets.induct)
  case (1 a b c r)
  then show ?case using two_octets [of b a] three_octets [of c b] by simp
next
  case (2 a b)
  then have "b < 256" by simp
  from two_octets [OF this, of a] show ?case by simp
next
  case (3 a)
  show ?case by simp
qed simp

lemma less_join:
  fixes x y m n :: nat
  assumes "x < m" "y < n"
  shows "x * n + y < m * n"
proof -
  have "x * n + y < (x + 1) * n" using assms(2) by simp
  also have "\<dots> \<le> m * n" using assms(1) by (intro mult_le_mono1) simp
  finally show ?thesis .
qed

lemma sextet_less:
  fixes a b :: nat
  shows "a < 256 \<Longrightarrow> a div 4 < 64" "b < 256 \<Longrightarrow> a mod 4 * 16 + b div 16 < 64" "b < 256 \<Longrightarrow> a mod 16 * 4 + b div 64 < 64"
    "a mod 64 < 64" "a mod 16 * 4 < 64" "a mod 4 * 16 < 64"
proof -
  show "a < 256 \<Longrightarrow> a div 4 < 64" by (simp add: less_mult_imp_div_less)
  have "b < 256 \<Longrightarrow> b div 16 < 16" "b < 256 \<Longrightarrow> b div 64 < 4" by (simp_all add: less_mult_imp_div_less)
  then show "b < 256 \<Longrightarrow> a mod 4 * 16 + b div 16 < 64" "b < 256 \<Longrightarrow> a mod 16 * 4 + b div 64 < 64"
    using less_join [of "a mod 4" 4 "b div 16" 16] less_join [of "a mod 16" 16 "b div 64" 4] by simp_all
  show "a mod 64 < 64" "a mod 16 * 4 < 64" "a mod 4 * 16 < 64"
    using less_join [of "a mod 16" 16 0 4] less_join [of "a mod 4" 4 0 16] by simp_all
qed

lemma sextets_bound: "list_all (\<lambda>b. b < 256) bs \<Longrightarrow> list_all (\<lambda>n. n < 64) (sextets bs)"
  by (induction bs rule: sextets.induct) (simp_all add: sextet_less)

lemma b64_value_char:
  assumes "n < 64"
  shows "b64_value (b64_char n) = Some n \<and> b64_char n \<noteq> CHR ''=''"
proof -
  have e: "(of_char (char_of m :: char) :: nat) = m" if "m < 256" for m
    using that by (simp add: of_char_of take_bit_eq_mod)
  have q: "c \<noteq> CHR ''=''" if "(of_char c :: nat) \<noteq> 61" for c using that by auto
  consider "n < 26" | "26 \<le> n \<and> n < 52" | "52 \<le> n \<and> n < 62" | "n = 62" | "n = 63" using assms by linarith
  then show ?thesis
  proof cases
    case 1
    then show ?thesis by (intro conjI q) (simp_all add: b64_char_def b64_value_def Let_def e)
  next
    case 2
    then show ?thesis by (intro conjI q) (simp_all add: b64_char_def b64_value_def Let_def e)
  next
    case 3
    then obtain m where m: "n = m + 4" "48 \<le> m" "m < 58" using that [of "n - 4"] by auto
    then have "(of_char (b64_char n) :: nat) = m" by (simp add: b64_char_def e)
    then show ?thesis using m by (intro conjI q) (simp_all add: b64_value_def Let_def)
  qed (simp_all add: b64_char_def b64_value_def)
qed

lemma base64_roundtrip [simp]:
  assumes "list_all (\<lambda>b. b < 256) bytes"
  shows "base64_decode (base64_encode bytes) = bytes"
proof -
  let ?p = "if length bytes mod 3 = 1 then ''=='' else if length bytes mod 3 = 2 then ''='' else []"
  have "takeWhile (\<lambda>c. c \<noteq> CHR ''='') (map b64_char ns @ ?p) = map b64_char ns \<and> List.map_filter b64_value (map b64_char ns) = ns"
    if "list_all (\<lambda>n. n < 64) ns" for ns
    using that by (induction ns) (auto simp: b64_value_char List.map_filter_simps)
  from this [OF sextets_bound [OF assms]] show ?thesis
    by (simp add: base64_decode_def base64_encode_def octets_sextets [OF assms])
qed

section \<open>Options, connections\<close>

record redis_options =
  rd_connectionName :: "string option"
  rd_rest :: string

record redis_adapter_options =
  ro_url :: "string option"
  ro_redisOptions :: "redis_options option"
  ro_maxLen :: "int option"
  ro_blockMs :: "int option"
  ro_count :: "int option"

definition streamKey :: "string \<Rightarrow> string" where
  "streamKey eventType = ''events:'' @ eventType"

definition merged_redis_options :: "redis_adapter_options \<Rightarrow> string option \<Rightarrow> redis_options option" where
  "merged_redis_options opts connectionName =
    (let hasExplicit = (case ro_redisOptions opts of None \<Rightarrow> False | Some r \<Rightarrow> rd_connectionName r \<noteq> None) in
     if connectionName \<noteq> None \<and> \<not> hasExplicit
     then Some ((dflt (ro_redisOptions opts) \<lparr>rd_connectionName = None, rd_rest = []\<rparr>)\<lparr>rd_connectionName := connectionName\<rparr>)
     else ro_redisOptions opts)"

record 's redis_lib =
  rl_new :: "string option \<Rightarrow> redis_options option \<Rightarrow> ('s, jserr, nat) io"
  rl_status :: "nat \<Rightarrow> 's \<Rightarrow> string"
  rl_start_connect :: "nat \<Rightarrow> ('s, jserr, unit) io"
  rl_ready_or_error :: "nat \<Rightarrow> ('s, jserr, unit) io"
  rl_disconnect :: "nat \<Rightarrow> ('s, jserr, unit) io"
  rl_quit :: "nat \<Rightarrow> ('s, jserr, unit) io"
  rl_duplicate :: "nat \<Rightarrow> ('s, jserr, nat) io"
  rl_xadd :: "nat \<Rightarrow> string list \<Rightarrow> ('s, jserr, unit) io"
  rl_xgroup_create :: "nat \<Rightarrow> string \<Rightarrow> string \<Rightarrow> ('s, jserr, unit) io"
  rl_busygroup :: "jserr \<Rightarrow> bool"
  rl_loop_ended :: "nat \<Rightarrow> ('s, jserr, unit) io"
  rl_randomUUID :: "('s, jserr, string) io"

record redis_subscription =
  rs_running :: bool
  rs_reader :: nat
  rs_group :: string
  rs_consumer :: string
  rs_streamKeys :: "string list"

record redis_adapter =
  ra_redis :: "nat option"
  ra_subscriptions :: "redis_subscription list"
  ra_readers :: "nat list"
  ra_stopCallbacks :: "nat list"
  ra_activeLoops :: "nat list"

type_synonym ('s, 'a) redis_io = "(redis_adapter \<times> 's, jserr, 'a) io"

definition redis_new :: redis_adapter where
  "redis_new = \<lparr>ra_redis = None, ra_subscriptions = [], ra_readers = [], ra_stopCallbacks = [], ra_activeLoops = []\<rparr>"

definition createRedisInstance :: "'s redis_lib \<Rightarrow> redis_adapter_options \<Rightarrow> string option \<Rightarrow> ('s, jserr, nat) io" where
  "createRedisInstance lib opts connectionName =
    rl_new lib (case ro_url opts of Some u \<Rightarrow> if u \<noteq> [] then Some u else None | None \<Rightarrow> None)
      (merged_redis_options opts connectionName)"

definition waitForReady :: "'s redis_lib \<Rightarrow> nat \<Rightarrow> ('s, jserr, unit) io" where
  "waitForReady lib c = (\<lambda>s.
    if rl_status lib c s = ''ready'' then (Inr (), s)
    else io_bind (if rl_status lib c s = ''wait'' then io_catch (rl_start_connect lib c) (\<lambda>_. io_return ()) else io_return ())
      (\<lambda>_. rl_ready_or_error lib c) s)"

definition ready_or_dropped :: "'s redis_lib \<Rightarrow> nat \<Rightarrow> ('s, jserr, unit) io" where
  "ready_or_dropped lib c = io_catch (waitForReady lib c) (\<lambda>err. io_bind (rl_disconnect lib c) (\<lambda>_. io_throw err))"

definition redis_connect :: "'s redis_lib \<Rightarrow> redis_adapter_options \<Rightarrow> string option \<Rightarrow> ('s, unit) redis_io" where
  "redis_connect lib opts serviceName = (\<lambda>(a, s).
    if ra_redis a \<noteq> None then (Inl (plain_error ''RedisAdapter: already connected''), (a, s))
    else io_bind (on_cell (createRedisInstance lib opts serviceName)) (\<lambda>c.
         io_bind (on_cell (ready_or_dropped lib c)) (\<lambda>_.
           \<lambda>(a, s). (Inr (), (a\<lparr>ra_redis := Some c\<rparr>, s)))) (a, s))"

definition redis_stop :: "nat \<Rightarrow> redis_adapter \<Rightarrow> redis_adapter" where
  "redis_stop i a = a\<lparr>ra_subscriptions := (ra_subscriptions a)[i := (ra_subscriptions a ! i)\<lparr>rs_running := False\<rparr>]\<rparr>"

definition redis_disconnect :: "'s redis_lib \<Rightarrow> ('s, unit) redis_io" where
  "redis_disconnect lib =
    io_bind (\<lambda>(a, s). (Inr (), (fold redis_stop (ra_stopCallbacks a) a, s))) (\<lambda>_.
    io_bind (\<lambda>(a, s). on_cell (io_for (rl_disconnect lib) (ra_readers a)) (a, s)) (\<lambda>_.
    io_bind (\<lambda>(a, s). on_cell (io_for (\<lambda>l. io_catch (rl_loop_ended lib l) (\<lambda>_. io_return ())) (ra_activeLoops a)) (a, s)) (\<lambda>_.
    io_bind (\<lambda>(a, s). (Inr (), (a\<lparr>ra_stopCallbacks := [], ra_activeLoops := [], ra_readers := []\<rparr>, s))) (\<lambda>_.
      \<lambda>(a, s). case ra_redis a of
          None \<Rightarrow> (Inr (), (a, s))
        | Some c \<Rightarrow> io_bind (on_cell (rl_quit lib c)) (\<lambda>_. \<lambda>(a, s). (Inr (), (a\<lparr>ra_redis := None\<rparr>, s))) (a, s)))))"

section \<open>Publishing\<close>

definition redis_fields :: "string \<Rightarrow> string \<Rightarrow> nat list \<Rightarrow> string \<Rightarrow> (string, string) omap option \<Rightarrow> string list" where
  "redis_fields eventId eventType payload nowISO metadata =
    [''eventId'', eventId, ''eventType'', eventType, ''payload'', base64_encode payload, ''publishedAt'', nowISO] @
    concat (map (\<lambda>(k, v). [''meta:'' @ k, v]) (dflt metadata []))"

definition xadd_args :: "redis_adapter_options \<Rightarrow> string \<Rightarrow> string list \<Rightarrow> string list" where
  "xadd_args opts eventType flds = [streamKey eventType] @
    (case ro_maxLen opts of Some n \<Rightarrow> [''MAXLEN'', ''~'', show_int n] | None \<Rightarrow> []) @ [''*''] @ flds"

definition redis_publish :: "'s redis_lib \<Rightarrow> redis_adapter_options \<Rightarrow> ('s \<Rightarrow> string) \<Rightarrow> string \<Rightarrow> nat list \<Rightarrow>
    (string, string) omap option \<Rightarrow> ('s, unit) redis_io" where
  "redis_publish lib opts nowISO eventType payload metadata = (\<lambda>(a, s). case ra_redis a of
      None \<Rightarrow> (Inl (plain_error ''RedisAdapter: not connected''), (a, s))
    | Some c \<Rightarrow> on_cell (io_bind (rl_randomUUID lib) (\<lambda>eventId. \<lambda>s.
        rl_xadd lib c (xadd_args opts eventType (redis_fields eventId eventType payload (nowISO s) metadata)) s)) (a, s))"

section \<open>Subscribing\<close>

definition wildcard_error :: jserr where
  "wildcard_error = plain_error ''RedisAdapter: wildcard pattern is not supported. Redis Streams requires explicit topic names.''"

definition redis_group :: "'s redis_lib \<Rightarrow> string option \<Rightarrow> ('s, jserr, string) io" where
  "redis_group lib grp = (case grp of Some g \<Rightarrow> io_return g
    | None \<Rightarrow> io_bind (rl_randomUUID lib) (\<lambda>u. io_return (''connectum-'' @ u)))"

definition ensure_groups :: "'s redis_lib \<Rightarrow> nat \<Rightarrow> string \<Rightarrow> string list \<Rightarrow> ('s, jserr, unit) io" where
  "ensure_groups lib c grp keys = io_for (\<lambda>key. io_catch (rl_xgroup_create lib c key grp)
    (\<lambda>err. if rl_busygroup lib err then io_return () else io_throw err)) keys"

definition redis_subscribe :: "'s redis_lib \<Rightarrow> string list \<Rightarrow> string option \<Rightarrow> ('s, nat) redis_io" where
  "redis_subscribe lib patterns grp = (\<lambda>(a, s). case ra_redis a of
      None \<Rightarrow> (Inl (plain_error ''RedisAdapter: not connected''), (a, s))
    | Some c \<Rightarrow>
      if list_ex (\<lambda>p. CHR ''*'' \<in> set p \<or> CHR ''>'' \<in> set p) patterns then (Inl wildcard_error, (a, s))
      else io_bind (on_cell (redis_group lib grp)) (\<lambda>g.
           io_bind (on_cell (rl_randomUUID lib)) (\<lambda>u.
           io_bind (on_cell (ensure_groups lib c g (map streamKey patterns))) (\<lambda>_.
           io_bind (on_cell (rl_duplicate lib c)) (\<lambda>reader.
           io_bind (on_cell (ready_or_dropped lib reader)) (\<lambda>_.
             \<lambda>(a, s). (let i = length (ra_subscriptions a) in
               (Inr i, (a\<lparr>ra_subscriptions := ra_subscriptions a @ [\<lparr>rs_running = True, rs_reader = reader, rs_group = g,
                   rs_consumer = ''consumer-'' @ u, rs_streamKeys = map streamKey patterns\<rparr>],
                 ra_readers := ra_readers a @ [reader], ra_stopCallbacks := ra_stopCallbacks a @ [i],
                 ra_activeLoops := ra_activeLoops a @ [i]\<rparr>, s)))))))) (a, s))"

definition redis_unsubscribe :: "'s redis_lib \<Rightarrow> nat \<Rightarrow> ('s, unit) redis_io" where
  "redis_unsubscribe lib i =
    io_bind (\<lambda>(a, s). (Inr (), (redis_stop i a, s))) (\<lambda>_.
    io_bind (\<lambda>(a, s). on_cell (rl_disconnect lib (rs_reader (ra_subscriptions a ! i))) (a, s)) (\<lambda>_.
    io_bind (on_cell (io_catch (rl_loop_ended lib i) (\<lambda>_. io_return ()))) (\<lambda>_.
      \<lambda>(a, s). (Inr (), (a\<lparr>ra_readers := remove1 (rs_reader (ra_subscriptions a ! i)) (ra_readers a),
        ra_stopCallbacks := remove1 i (ra_stopCallbacks a), ra_activeLoops := remove1 i (ra_activeLoops a)\<rparr>, s)))))"

section \<open>Consuming\<close>

fun field_pairs :: "string list \<Rightarrow> (string \<times> string) list" where
  "field_pairs (k # v # r) = (k, v) # field_pairs r"
| "field_pairs _ = []"

definition parseFields :: "string list \<Rightarrow> (string, string) omap" where
  "parseFields flds = fold (\<lambda>(k, v) m. om_set k v m) (field_pairs flds) []"

definition extractMetadata :: "(string, string) omap \<Rightarrow> (string, string) omap" where
  "extractMetadata fieldMap =
    fold (\<lambda>(k, v) m. if take 5 k = ''meta:'' then om_set (drop 5 k) v m else m) fieldMap []"

definition redis_event :: "(string \<Rightarrow> int option) \<Rightarrow> int \<Rightarrow> string \<Rightarrow> string list \<Rightarrow> int \<Rightarrow> raw_event" where
  "redis_event parseDate now entryId flds attempt =
    (let fieldMap = parseFields flds in
     \<lparr>re_eventId = dflt (om_get fieldMap ''eventId'') entryId, re_eventType = dflt (om_get fieldMap ''eventType'') [],
      re_payload = base64_decode (dflt (om_get fieldMap ''payload'') []),
      re_publishedAt = (case om_get fieldMap ''publishedAt'' of
          Some p \<Rightarrow> if p \<noteq> [] then dflt (parseDate p) now else now | None \<Rightarrow> now),
      re_attempt = attempt, re_metadata = extractMetadata fieldMap\<rparr>)"

type_synonym redis_entry = "string \<times> string list"

record 's redis_ops =
  rx_running :: "'s \<Rightarrow> bool"
  rx_now :: "'s \<Rightarrow> int"
  rx_xack :: "string \<Rightarrow> string \<Rightarrow> ('s, jserr, unit) io"
  rx_xautoclaim :: "string list \<Rightarrow> ('s, jserr, redis_entry list option) io"
  rx_xpending :: "string list \<Rightarrow> ('s, jserr, (string \<times> int option) list option) io"
  rx_xreadgroup :: "string list \<Rightarrow> ('s, jserr, (string \<times> redis_entry list) list option) io"
  rx_sleep :: "int \<Rightarrow> 's \<Rightarrow> 's"

type_synonym 's redis_handler = "raw_event \<Rightarrow> ('s, jserr, unit) io \<Rightarrow> (bool \<Rightarrow> ('s, jserr, unit) io) \<Rightarrow> ('s, jserr, unit) io"

record redis_names =
  rn_group :: string
  rn_consumer :: string
  rn_blockMs :: int
  rn_count :: int
  rn_keys :: "string list"

definition redis_names_of :: "redis_adapter_options \<Rightarrow> redis_subscription \<Rightarrow> redis_names" where
  "redis_names_of opts sub = \<lparr>rn_group = rs_group sub, rn_consumer = rs_consumer sub, rn_blockMs = dflt (ro_blockMs opts) 5000,
    rn_count = dflt (ro_count opts) 10, rn_keys = rs_streamKeys sub\<rparr>"

definition redis_nack :: "'s redis_ops \<Rightarrow> string \<Rightarrow> string \<Rightarrow> bool \<Rightarrow> ('s, jserr, unit) io" where
  "redis_nack ops key entryId requeue = (if requeue = False then rx_xack ops key entryId else io_return ())"

definition processEntry :: "'s redis_ops \<Rightarrow> (string \<Rightarrow> int option) \<Rightarrow> 's redis_handler \<Rightarrow> string \<Rightarrow> redis_entry \<Rightarrow> int \<Rightarrow> ('s, jserr, unit) io" where
  "processEntry ops parseDate handler key entry attempt = (\<lambda>s. case entry of (entryId, flds) \<Rightarrow>
    handler (redis_event parseDate (rx_now ops s) entryId flds attempt) (rx_xack ops key entryId)
      (redis_nack ops key entryId) s)"

definition delivery_counts :: "(string \<times> int option) list option \<Rightarrow> (string, int) omap" where
  "delivery_counts pending = fold (\<lambda>(entryId, n) m. om_set entryId (dflt n 2) m) (dflt pending []) []"

fun reclaim_entries :: "'s redis_ops \<Rightarrow> (string \<Rightarrow> int option) \<Rightarrow> 's redis_handler \<Rightarrow> string \<Rightarrow> (string, int) omap \<Rightarrow>
    redis_entry list \<Rightarrow> ('s, jserr, bool) io" where
  "reclaim_entries ops parseDate handler key counts [] = io_return True"
| "reclaim_entries ops parseDate handler key counts (e # es) = (\<lambda>s.
    if \<not> rx_running ops s then (Inr False, s)
    else io_bind (processEntry ops parseDate handler key e (dflt (om_get counts (fst e)) 2))
      (\<lambda>_. reclaim_entries ops parseDate handler key counts es) s)"

definition reclaim_key :: "'s redis_ops \<Rightarrow> (string \<Rightarrow> int option) \<Rightarrow> 's redis_handler \<Rightarrow> redis_names \<Rightarrow> string \<Rightarrow> ('s, jserr, bool) io" where
  "reclaim_key ops parseDate handler names key = io_catch
    (io_bind (rx_xautoclaim ops [key, rn_group names, rn_consumer names, ''30000'', ''0-0'', ''COUNT'', show_int (rn_count names)]) (\<lambda>result.
      case dflt result [] of
        [] \<Rightarrow> io_return True
      | e # es \<Rightarrow> io_bind (io_catch (rx_xpending ops [key, rn_group names, fst e, fst (last (e # es)), show_nat (length (e # es))])
            (\<lambda>_. io_return None)) (\<lambda>pending.
          reclaim_entries ops parseDate handler key (delivery_counts pending) (e # es))))
    (\<lambda>_. io_return True)"

fun reclaim_keys :: "'s redis_ops \<Rightarrow> (string \<Rightarrow> int option) \<Rightarrow> 's redis_handler \<Rightarrow> redis_names \<Rightarrow> string list \<Rightarrow> ('s, jserr, unit) io" where
  "reclaim_keys ops parseDate handler names [] = io_return ()"
| "reclaim_keys ops parseDate handler names (key # keys) = io_bind (reclaim_key ops parseDate handler names key)
    (\<lambda>goOn. if goOn then reclaim_keys ops parseDate handler names keys else io_return ())"

definition reclaimPending :: "'s redis_ops \<Rightarrow> (string \<Rightarrow> int option) \<Rightarrow> 's redis_handler \<Rightarrow> redis_names \<Rightarrow> ('s, jserr, unit) io" where
  "reclaimPending ops parseDate handler names = reclaim_keys ops parseDate handler names (rn_keys names)"

definition xread_args :: "redis_names \<Rightarrow> string list" where
  "xread_args names = [''GROUP'', rn_group names, rn_consumer names, ''COUNT'', show_int (rn_count names), ''BLOCK'',
    show_int (rn_blockMs names), ''STREAMS''] @ rn_keys names @ map (\<lambda>_. ''>'') (rn_keys names)"

definition process_results :: "'s redis_ops \<Rightarrow> (string \<Rightarrow> int option) \<Rightarrow> 's redis_handler \<Rightarrow> (string \<times> redis_entry list) list \<Rightarrow> ('s, jserr, unit) io" where
  "process_results ops parseDate handler results = io_for (\<lambda>(key, entries).
     io_for (\<lambda>e. io_catch (processEntry ops parseDate handler key e 1) (\<lambda>_. io_return ())) entries) results"

definition loop_iteration :: "'s redis_ops \<Rightarrow> (string \<Rightarrow> int option) \<Rightarrow> 's redis_handler \<Rightarrow> redis_names \<Rightarrow> nat \<Rightarrow> 's \<Rightarrow> bool \<times> 's" where
  "loop_iteration ops parseDate handler names iterationCount s =
    (case io_bind (if iterationCount mod 5 = 0 then reclaimPending ops parseDate handler names else io_return ()) (\<lambda>_.
          io_bind (rx_xreadgroup ops (xread_args names)) (\<lambda>results.
          process_results ops parseDate handler (dflt results []))) s of
       (Inr _, s') \<Rightarrow> (True, s')
     | (Inl err, s') \<Rightarrow> if \<not> rx_running ops s' then (False, s') else (True, rx_sleep ops 1000 s'))"

partial_function (option) redis_consumeLoop :: "'s redis_ops \<Rightarrow> (string \<Rightarrow> int option) \<Rightarrow> 's redis_handler \<Rightarrow> redis_names \<Rightarrow> nat \<Rightarrow> 's \<Rightarrow> 's option" where
  "redis_consumeLoop ops parseDate handler names iterationCount s =
    (if \<not> rx_running ops s then Some s
     else (case loop_iteration ops parseDate handler names (iterationCount + 1) s of (goOn, s') \<Rightarrow>
       if goOn then redis_consumeLoop ops parseDate handler names (iterationCount + 1) s' else Some s'))"

section \<open>What is published is what is received\<close>

lemma fold_om_set:
  assumes "distinct (map fst (m @ es))"
  shows "fold (\<lambda>(k, v) m. om_set k v m) es m = m @ es"
  using assms
proof (induction es arbitrary: m)
  case (Cons e es)
  obtain k v where e: "e = (k, v)" by (cases e)
  have "om_set k v m = m @ [(k, v)]" using Cons.prems by (intro om_set_new) (auto simp: e om_has_keys om_keys_def)
  then show ?case using Cons by (simp add: e)
qed simp

lemma field_pairs_meta [simp]:
  "field_pairs (concat (map (\<lambda>(k, v). [''meta:'' @ k, v]) es)) = map (\<lambda>(k, v). (''meta:'' @ k, v)) es"
  by (induction es) auto

lemma extract_meta:
  assumes "distinct (map fst (m @ es))"
  shows "fold (\<lambda>(k, v) m. if take 5 k = ''meta:'' then om_set (drop 5 k) v m else m)
    (map (\<lambda>(k, v). (''meta:'' @ k, v)) es) m = m @ es"
proof -
  have "fold (\<lambda>(k, v) m. if take 5 k = ''meta:'' then om_set (drop 5 k) v m else m) (map (\<lambda>(k, v). (''meta:'' @ k, v)) es) m =
      fold (\<lambda>(k, v) m. om_set k v m) es m" by (induction es arbitrary: m) auto
  then show ?thesis using fold_om_set [OF assms] by simp
qed

text \<open>C33. A published event comes back as it was: the broker hands the fields of the entry to the consumer in the
  order in which they were written, and from them the consumer reads the event id, the topic, the bytes
  of the payload through base64, the time, and the metadata in their order, whatever keys they have (also
  those of the fields of the adapter itself). The attempt is the one given by the caller.\<close>
theorem redis_event_roundtrip:
  assumes "distinct (map fst metadata)" and "list_all (\<lambda>b. b < 256) payload"
    and "nowISO \<noteq> []" and "parseDate nowISO = Some t"
  shows "redis_event parseDate now entryId (redis_fields eventId eventType payload nowISO (Some metadata)) attempt =
    \<lparr>re_eventId = eventId, re_eventType = eventType, re_payload = payload, re_publishedAt = t, re_attempt = attempt,
     re_metadata = metadata\<rparr>"
proof -
  let ?core = "[(''eventId'', eventId), (''eventType'', eventType), (''payload'', base64_encode payload), (''publishedAt'', nowISO)]"
  let ?meta = "map (\<lambda>(k, v). (''meta:'' @ k, v)) metadata"
  have "inj (\<lambda>k. ''meta:'' @ k)" by (simp add: inj_def)
  then have "distinct (map fst ?meta)"
    using assms(1) by (simp add: comp_def split_def distinct_map inj_on_def)
  then have "distinct (map fst (?core @ ?meta))" by auto
  moreover have f: "field_pairs (redis_fields eventId eventType payload nowISO (Some metadata)) = ?core @ ?meta"
    unfolding redis_fields_def dflt_def option.case by (simp add: field_pairs_meta [simplified])
  ultimately have p: "parseFields (redis_fields eventId eventType payload nowISO (Some metadata)) = ?core @ ?meta"
    using fold_om_set [of "[]" "?core @ ?meta"] unfolding parseFields_def f by simp
  have "extractMetadata (?core @ ?meta) = metadata"
    using extract_meta [of "[]" metadata] assms(1) by (simp add: extractMetadata_def)
  then show ?thesis
    unfolding redis_event_def p Let_def using assms by (simp add: om_get_cons dflt_def)
qed

lemma redis_event_roundtrip_witness:
  "re_payload (redis_event (\<lambda>_. Some 7) 0 ''1-0'' (redis_fields ''e'' ''t'' [0, 255, 16, 200] ''2024'' (Some [(''payload'', ''x'')])) 1) = [0, 255, 16, 200]"
  using redis_event_roundtrip [where metadata = "[(''payload'', ''x'')]" and payload = "[0, 255, 16, 200]" and nowISO = "''2024''"
    and parseDate = "\<lambda>_. Some 7" and t = 7 and now = 0 and entryId = "''1-0''" and eventId = "''e''" and eventType = "''t''" and attempt = 1]
  by simp

section \<open>A bus over Redis\<close>

definition redis_log_ops :: "(string \<Rightarrow> redis_entry list) \<Rightarrow> (string \<Rightarrow> (string \<times> int option) list option) \<Rightarrow> int \<Rightarrow>
    (string \<times> string) list redis_ops" where
  "redis_log_ops claims pending now = \<lparr>rx_running = (\<lambda>_. True), rx_now = (\<lambda>_. now),
    rx_xack = (\<lambda>key entryId l. (Inr (), l @ [(key, entryId)])),
    rx_xautoclaim = (\<lambda>args. io_return (Some (claims (args ! 0)))), rx_xpending = (\<lambda>args. io_return (pending (args ! 0))),
    rx_xreadgroup = (\<lambda>_. io_return None), rx_sleep = (\<lambda>_ s. s)\<rparr>"

definition entry_event :: "(string \<Rightarrow> int option) \<Rightarrow> int \<Rightarrow> int \<Rightarrow> redis_entry \<Rightarrow> raw_event" where
  "entry_event parseDate now attempt e = redis_event parseDate now (fst e) (snd e) attempt"

definition worked_on :: "('e \<Rightarrow> bool) \<Rightarrow> 'e list \<Rightarrow> 'e list" where
  "worked_on ok es = takeWhile ok es @ take 1 (dropWhile ok es)"

lemma worked_on_simps [simp]:
  "worked_on ok [] = []" "worked_on ok (e # es) = e # (if ok e then worked_on ok es else [])"
  by (simp_all add: worked_on_def)

definition acked :: "string \<Rightarrow> (redis_entry \<Rightarrow> bool) \<Rightarrow> redis_entry list \<Rightarrow> (string \<times> string) list" where
  "acked key settled es = map (\<lambda>e. (key, fst e)) (filter settled es)"

lemma acked_simps [simp]:
  "acked key settled [] = []" "acked key settled (e # es) = (if settled e then [(key, fst e)] else []) @ acked key settled es"
  by (simp_all add: acked_def)

definition bus_handler :: "(raw_event \<Rightarrow> settle_call list) \<Rightarrow> (raw_event \<Rightarrow> jserr + unit) \<Rightarrow> 's delivery_world event_handler" where
  "bus_handler cs oc = (\<lambda>ev. scripted (cs ev) (oc ev) ev)"

definition settles :: "(raw_event \<Rightarrow> settle_call list) \<Rightarrow> (raw_event \<Rightarrow> jserr + unit) \<Rightarrow> raw_event \<Rightarrow> bool" where
  "settles cs oc ev \<longleftrightarrow> done_with (first_settlement (cs ev) (oc ev))"

lemma redis_log_sel [simp]:
  "rx_running (redis_log_ops claims pending now) l" "rx_now (redis_log_ops claims pending now) l = now"
  "rx_xack (redis_log_ops claims pending now) key entryId l = (Inr (), l @ [(key, entryId)])"
  "rx_xautoclaim (redis_log_ops claims pending now) args = io_return (Some (claims (args ! 0)))"
  "rx_xpending (redis_log_ops claims pending now) args = io_return (pending (args ! 0))"
  by (simp_all add: redis_log_ops_def)

interpretation redis_settles: settling_adapter "\<lambda>(key, i). rx_xack (redis_log_ops claims pending now) key i"
    "\<lambda>(key, i). redis_nack (redis_log_ops claims pending now) key i" "\<lambda>e c l. if done_with (Some c) then l @ [e] else l"
  for claims pending now
  by unfold_locales (auto simp: redis_nack_def done_with_def)

lemma processEntry_log:
  assumes "find_handler handlers (re_eventType (entry_event parseDate now n e)) = Some (bus_handler cs oc)"
  shows "processEntry (redis_log_ops claims pending now) parseDate (\<lambda>ev ack nack. deliver handlers False ev ack nack aborted) key e n l =
    (oc (entry_event parseDate now n e), l @ acked key (\<lambda>e. settles cs oc (entry_event parseDate now n e)) [e])"
proof (cases e)
  case (Pair i flds)
  let ?ev = "redis_event parseDate now i flds n"
  have f: "find_handler handlers (re_eventType ?ev) = Some (bus_handler cs oc)" "bus_handler cs oc ?ev = scripted (cs ?ev) (oc ?ev) ?ev"
    using assms by (simp_all add: Pair entry_event_def bus_handler_def)
  show ?thesis
    using redis_settles.delivery [OF f, where m = "(key, i)" and claims = claims and pending = pending and now = now and aborted = aborted and s = l]
    by (cases "first_settlement (cs ?ev) (oc ?ev)")
      (simp_all add: Pair processEntry_def entry_event_def settles_def, simp add: done_with_def)
qed

lemma reclaim_entries_log:
  assumes "\<forall>e \<in> set es. find_handler handlers (re_eventType (ev e)) = Some (bus_handler cs oc)"
    and "ev = (\<lambda>e. entry_event parseDate now (dflt (om_get counts (fst e)) 2) e)"
  shows "reclaim_entries (redis_log_ops claims pending now) parseDate (\<lambda>ev ack nack. deliver handlers False ev ack nack aborted)
      key counts es l = (case dropWhile (\<lambda>e. oc (ev e) = Inr ()) es of [] \<Rightarrow> Inr True | e # _ \<Rightarrow> map_sum id (\<lambda>_. True) (oc (ev e)),
      l @ acked key (\<lambda>e. settles cs oc (ev e)) (worked_on (\<lambda>e. oc (ev e) = Inr ()) es))"
  using assms(1)
proof (induction es arbitrary: l)
  case (Cons e es)
  have p: "processEntry (redis_log_ops claims pending now) parseDate (\<lambda>ev ack nack. deliver handlers False ev ack nack aborted) key e
      (dflt (om_get counts (fst e)) 2) l' = (oc (ev e), l' @ acked key (\<lambda>e. settles cs oc (ev e)) [e])" for l'
    using processEntry_log [of handlers parseDate now "dflt (om_get counts (fst e)) 2" e cs oc] Cons.prems
    by (simp add: assms(2))
  show ?case using Cons by (cases "oc (ev e)") (auto simp: io_bind_def p)
qed simp

lemma io_catch_value:
  assumes "m s = (res, s')" "\<And>x. res = Inr x \<Longrightarrow> x = y"
  shows "io_catch m (\<lambda>_. io_return y) s = (Inr y, s')"
  using assms by (cases res) (auto simp: io_catch_def)

lemma reclaim_key_log:
  assumes "\<forall>e \<in> set (claims key). find_handler handlers (re_eventType (ev e)) = Some (bus_handler cs oc)"
    and "ev = (\<lambda>e. entry_event parseDate now (dflt (om_get (delivery_counts (pending key)) (fst e)) 2) e)"
  shows "reclaim_key (redis_log_ops claims pending now) parseDate (\<lambda>ev ack nack. deliver handlers False ev ack nack aborted) names key l =
    (Inr True, l @ acked key (\<lambda>e. settles cs oc (ev e)) (worked_on (\<lambda>e. oc (ev e) = Inr ()) (claims key)))"
proof (cases "claims key")
  case Nil
  then show ?thesis by (simp add: reclaim_key_def dflt_def io_catch_def)
next
  case (Cons e es)
  let ?ops = "redis_log_ops claims pending now" and ?ok = "\<lambda>e. oc (ev e) = Inr ()"
  let ?res = "case dropWhile ?ok (claims key) of [] \<Rightarrow> Inr True | e # _ \<Rightarrow> map_sum id (\<lambda>_. True) (oc (ev e))"
  let ?handler = "\<lambda>ev ack nack. deliver handlers False ev ack nack aborted"
  have r: "reclaim_entries ?ops parseDate ?handler key (delivery_counts (pending key)) (claims key) l =
      (?res, l @ acked key (\<lambda>e. settles cs oc (ev e)) (worked_on ?ok (claims key)))"
    using assms by (intro reclaim_entries_log)
  have t: "x = True" if "?res = Inr x" for x
    using that by (auto split: list.splits simp: map_sum_def split: sum.splits)
  show ?thesis
    unfolding reclaim_key_def
  proof (rule io_catch_value)
    show "io_bind (rx_xautoclaim ?ops [key, rn_group names, rn_consumer names, ''30000'', ''0-0'', ''COUNT'', show_int (rn_count names)])
        (\<lambda>result. case dflt result [] of [] \<Rightarrow> io_return True | e # es \<Rightarrow>
          io_bind (io_catch (rx_xpending ?ops [key, rn_group names, fst e, fst (last (e # es)), show_nat (length (e # es))])
            (\<lambda>_. io_return None)) (\<lambda>pending. reclaim_entries ?ops parseDate ?handler key (delivery_counts pending) (e # es))) l =
        (?res, l @ acked key (\<lambda>e. settles cs oc (ev e)) (worked_on ?ok (claims key)))"
      unfolding r [symmetric] by (simp del: reclaim_entries.simps add: Cons dflt_def)
  qed (use t in blast)
qed

lemma io_for_appends:
  assumes "\<And>x l. x \<in> set xs \<Longrightarrow> f x l = (Inr (), l @ g x)"
  shows "io_for f xs l = (Inr (), l @ concat (map g xs))"
  using assms by (induction xs arbitrary: l) (simp_all add: io_bind_def)

lemma process_results_log:
  assumes "\<forall>(key, es) \<in> set results. \<forall>e \<in> set es. find_handler handlers (re_eventType (entry_event parseDate now 1 e)) = Some (bus_handler cs oc)"
  shows "process_results (redis_log_ops claims pending now) parseDate (\<lambda>ev ack nack. deliver handlers False ev ack nack aborted) results l =
    (Inr (), l @ concat (map (\<lambda>(key, es). acked key (\<lambda>e. settles cs oc (entry_event parseDate now 1 e)) es) results))"
proof -
  let ?ops = "redis_log_ops claims pending now" and ?handler = "\<lambda>ev ack nack. deliver handlers False ev ack nack aborted"
  let ?s = "\<lambda>e. settles cs oc (entry_event parseDate now 1 e)"
  have "io_for (\<lambda>e. io_catch (processEntry ?ops parseDate ?handler key e 1) (\<lambda>_. io_return ())) es l' = (Inr (), l' @ acked key ?s es)"
    if "\<forall>e \<in> set es. find_handler handlers (re_eventType (entry_event parseDate now 1 e)) = Some (bus_handler cs oc)" for key es l'
  proof -
    have "io_for (\<lambda>e. io_catch (processEntry ?ops parseDate ?handler key e 1) (\<lambda>_. io_return ())) es l' =
        (Inr (), l' @ concat (map (\<lambda>e. acked key ?s [e]) es))"
    proof (rule io_for_appends)
      fix e l
      assume "e \<in> set es"
      then have "processEntry ?ops parseDate ?handler key e 1 l = (oc (entry_event parseDate now 1 e), l @ acked key ?s [e])"
        using that by (intro processEntry_log) auto
      then show "io_catch (processEntry ?ops parseDate ?handler key e 1) (\<lambda>_. io_return ()) l = (Inr (), l @ acked key ?s [e])"
        by (rule io_catch_value) simp
    qed
    moreover have "concat (map (\<lambda>e. acked key ?s [e]) es) = acked key ?s es" by (induction es) simp_all
    ultimately show ?thesis by simp
  qed
  then show ?thesis unfolding process_results_def using assms by (intro io_for_appends) auto
qed

text \<open>C34. A subscription to Redis streams settles what it reads, with a bus behind the adapter: of the new
  entries each is handed to the bus, whatever happened to those before it, and is acknowledged exactly
  if the handler acknowledged it, rejected it for good, or returned without settling; any other stays
  pending. Of the entries that are claimed again in each stream the same holds up to the first whose
  handler throws: that one is worked on and those behind it are not, although they have been claimed.\<close>
theorem redis_settles_entries:
  assumes "\<forall>(key, es) \<in> set results. \<forall>e \<in> set es. find_handler handlers (re_eventType (entry_event parseDate now 1 e)) = Some (bus_handler cs oc)"
    and "\<forall>key \<in> set (rn_keys names). \<forall>e \<in> set (claims key). find_handler handlers (re_eventType (again key e)) = Some (bus_handler cs oc)"
    and "again = (\<lambda>key e. entry_event parseDate now (dflt (om_get (delivery_counts (pending key)) (fst e)) 2) e)"
  shows "process_results (redis_log_ops claims pending now) parseDate (\<lambda>ev ack nack. deliver handlers False ev ack nack aborted) results l =
      (Inr (), l @ concat (map (\<lambda>(key, es). acked key (\<lambda>e. settles cs oc (entry_event parseDate now 1 e)) es) results)) \<and>
    reclaimPending (redis_log_ops claims pending now) parseDate (\<lambda>ev ack nack. deliver handlers False ev ack nack aborted) names l =
      (Inr (), l @ concat (map (\<lambda>key. acked key (\<lambda>e. settles cs oc (again key e))
        (worked_on (\<lambda>e. oc (again key e) = Inr ()) (claims key))) (rn_keys names)))"
proof (rule conjI)
  have key: "reclaim_key (redis_log_ops claims pending now) parseDate (\<lambda>ev ack nack. deliver handlers False ev ack nack aborted) names key l =
      (Inr True, l @ acked key (\<lambda>e. settles cs oc (again key e)) (worked_on (\<lambda>e. oc (again key e) = Inr ()) (claims key)))"
    if "key \<in> set (rn_keys names)" for key l
    using assms(2,3) that by (intro reclaim_key_log) auto
  have "reclaim_keys (redis_log_ops claims pending now) parseDate (\<lambda>ev ack nack. deliver handlers False ev ack nack aborted) names keys l =
      (Inr (), l @ concat (map (\<lambda>key. acked key (\<lambda>e. settles cs oc (again key e))
        (worked_on (\<lambda>e. oc (again key e) = Inr ()) (claims key))) keys))" if "set keys \<subseteq> set (rn_keys names)" for keys l
    using that by (induction keys arbitrary: l) (simp_all add: io_bind_def key)
  then show "reclaimPending (redis_log_ops claims pending now) parseDate (\<lambda>ev ack nack. deliver handlers False ev ack nack aborted) names l =
      (Inr (), l @ concat (map (\<lambda>key. acked key (\<lambda>e. settles cs oc (again key e))
        (worked_on (\<lambda>e. oc (again key e) = Inr ()) (claims key))) (rn_keys names)))"
    by (simp add: reclaimPending_def)
qed (rule process_results_log [OF assms(1)])

definition poison :: "nat \<Rightarrow> redis_entry" where
  "poison n = (show_nat n, [''eventType'', ''t'', ''payload'', base64_encode [n]])"

lemma redis_settles_entries_witness:
  "reclaimPending (redis_log_ops (\<lambda>_. [poison 1, poison 2, poison 3]) (\<lambda>_. None) 0) (\<lambda>_. None)
     (\<lambda>ev ack nack. deliver [(''t'', bus_handler (\<lambda>_. []) (\<lambda>ev. if re_payload ev = [2] then Inl (plain_error ''x'') else Inr ()))]
        False ev ack nack (\<lambda>_. None))
     \<lparr>rn_group = ''g'', rn_consumer = ''c'', rn_blockMs = 1, rn_count = 10, rn_keys = [''k'']\<rparr> [] = (Inr (), [(''k'', show_nat 1)])"
proof -
  let ?oc = "\<lambda>ev. if re_payload ev = [2] then Inl (plain_error ''x'') else Inr ()"
  let ?h = "[(''t'', bus_handler (\<lambda>_. []) ?oc)]" and ?claims = "\<lambda>_ :: string. [poison 1, poison 2, poison 3]"
  let ?names = "\<lparr>rn_group = ''g'', rn_consumer = ''c'', rn_blockMs = 1, rn_count = 10, rn_keys = [''k'']\<rparr>"
  let ?again = "\<lambda>(key :: string) e. entry_event (\<lambda>_. None) 0 (dflt (om_get (delivery_counts None) (fst e)) 2) e"
  have p: "re_eventType (entry_event f now k (poison n)) = ''t''" "n < 256 \<Longrightarrow> re_payload (entry_event f now k (poison n)) = [n]" for f now k n
    by (simp_all add: entry_event_def poison_def redis_event_def parseFields_def om_set_def dflt_def Let_def om_get_cons)
  have h: "\<forall>key \<in> set (rn_keys ?names). \<forall>e \<in> set (?claims key). find_handler ?h (re_eventType (?again key e)) = Some (bus_handler (\<lambda>_. []) ?oc)"
    by (simp add: p find_handler_def om_get_cons)
  have r: "\<forall>(key :: string, es) \<in> set []. \<forall>e \<in> set es. find_handler ?h (re_eventType (entry_event (\<lambda>_. None) 0 1 e)) = Some (bus_handler (\<lambda>_. []) ?oc)"
    by simp
  have "reclaimPending (redis_log_ops ?claims (\<lambda>_. None) 0) (\<lambda>_. None) (\<lambda>ev ack nack. deliver ?h False ev ack nack (\<lambda>_. None)) ?names [] =
      (Inr (), [] @ concat (map (\<lambda>key. acked key (\<lambda>e. settles (\<lambda>_. []) ?oc (?again key e))
        (worked_on (\<lambda>e. ?oc (?again key e) = Inr ()) (?claims key))) (rn_keys ?names)))"
    using redis_settles_entries [OF r h refl, where l = "[]"] by blast
  then show ?thesis by (simp add: p settles_def done_with_def first_settlement_def, simp add: poison_def)
qed

text \<open>The loop is left as soon as the subscription has been stopped: at the head of the next iteration, or
  at the error with which the closed connection answers the blocked read.\<close>
lemma stopped_loop_returns:
  assumes "loop_iteration ops parseDate handler names (Suc n) s = (goOn, s')" and "rx_running ops s" and "\<not> rx_running ops s'"
  shows "redis_consumeLoop ops parseDate handler names n s = Some s'"
  using assms by (subst redis_consumeLoop.simps) (simp add: redis_consumeLoop.simps [of _ _ _ _ "Suc n"])

end
