(* ===== verification/Otel.thy ===== *)
theory Otel
  imports Prelude Connect
begin

text \<open>
  packages/otel/src: attributes.ts, shared.ts, metrics.ts, interceptor.ts and client-interceptor.ts. The
  calls of the OpenTelemetry interface are recorded in a log in front of the world; the identity of a
  span is the length of the log when it was started. The body of a streaming message is an iterable,
  and a generator over it that has not been started is the pair of its arguments and the iterable
  (Wrapped). Durations are in milliseconds; the size cache of shared.ts only avoids work, since messages
  are not changed. What belongs to a process (clock, active context, host name) is a record of
  operations on the world. The rpcMetrics variable of an interceptor is a flag in front of the log.
\<close>

section \<open>Attributes\<close>

datatype attr_val = AStr string | AInt int | ABool bool

type_synonym attrs = "(string, attr_val) omap"

definition connect_error_code_name :: "int \<Rightarrow> string option" where
  "connect_error_code_name c = om_get
    [(1, ''CANCELED''), (2, ''UNKNOWN''), (3, ''INVALID_ARGUMENT''), (4, ''DEADLINE_EXCEEDED''), (5, ''NOT_FOUND''),
     (6, ''ALREADY_EXISTS''), (7, ''PERMISSION_DENIED''), (8, ''RESOURCE_EXHAUSTED''), (9, ''FAILED_PRECONDITION''),
     (10, ''ABORTED''), (11, ''OUT_OF_RANGE''), (12, ''UNIMPLEMENTED''), (13, ''INTERNAL''), (14, ''UNAVAILABLE''),
     (15, ''DATA_LOSS''), (16, ''UNAUTHENTICATED'')] c"

definition buildErrorAttributes :: "(jserr \<Rightarrow> string) \<Rightarrow> jserr \<Rightarrow> attrs" where
  "buildErrorAttributes constructorName err =
    (if is_connect_error err then
       (let code = dflt (je_code err) 0 in
        [(''error.type'', AStr (dflt (connect_error_code_name code) ''UNKNOWN'')), (''rpc.connect_rpc.status_code'', AInt code)])
     else if je_class err \<noteq> NonErrorC then [(''error.type'', AStr (constructorName err))]
     else [(''error.type'', AStr ''UNKNOWN'')])"

definition buildBaseAttributes :: "string \<Rightarrow> string \<Rightarrow> string \<Rightarrow> int option \<Rightarrow> attrs" where
  "buildBaseAttributes service methodName serverAddress serverPort =
    [(''rpc.system'', AStr ''connect_rpc''), (''rpc.service'', AStr service), (''rpc.method'', AStr methodName),
     (''server.address'', AStr serverAddress), (''network.protocol.name'', AStr ''connect_rpc''),
     (''network.transport'', AStr ''tcp'')] @ (case serverPort of Some p \<Rightarrow> [(''server.port'', AInt p)] | None \<Rightarrow> [])"

definition transport_kind :: "headers \<Rightarrow> string" where
  "transport_kind h = (if isLocalTransport h then ''in-process'' else ''http'')"

definition applyAttributeFilter :: "attrs \<Rightarrow> (string \<Rightarrow> attr_val \<Rightarrow> bool) option \<Rightarrow> attrs" where
  "applyAttributeFilter as flt = (case flt of None \<Rightarrow> as | Some f \<Rightarrow> filter (\<lambda>(k, v). f k v) as)"

definition spread :: "('k, 'v) omap \<Rightarrow> ('k, 'v) omap \<Rightarrow> ('k, 'v) omap" where
  "spread m m' = fold (\<lambda>(k, v) m. om_set k v m) m' m"

section \<open>Telemetry\<close>

datatype span_kind = ServerSpan | ClientSpan | InternalSpan
datatype span_status = StatusOk | StatusError string

record span_options =
  so_name :: string
  so_kind :: span_kind
  so_attributes :: attrs
  so_parent :: nat
  so_links :: "nat list"

datatype tel =
    SpanStarted nat span_options
  | SpanEvent nat string int int
  | SpanException nat jserr
  | SpanStatus nat span_status
  | SpanAttribute nat string attr_val
  | SpanEnded nat
  | HistogramCreated string string
  | Recorded string int attrs

record wrapping =
  wr_span :: nat
  wr_direction :: string
  wr_record :: bool
  wr_end :: bool

datatype 'm body = Message 'm | Iterable "'m list" "jserr option" | Wrapped wrapping "'m body"

type_synonym 's otel_world = "(bool \<times> tel list) \<times> 's"
type_synonym ('s, 'a) otel_io = "('s otel_world, jserr, 'a) io"

definition emit_tel :: "tel \<Rightarrow> ('s, unit) otel_io" where
  "emit_tel e = (\<lambda>((created, log), s). (Inr (), ((created, log @ [e]), s)))"

section \<open>Messages of streams\<close>

record 'm generator =
  gn_items :: "'m list"
  gn_error :: "jserr option"
  gn_sequence :: int
  gn_started :: bool
  gn_done :: bool

definition gen_new :: "'m list \<Rightarrow> jserr option \<Rightarrow> 'm generator" where
  "gen_new items err = \<lparr>gn_items = items, gn_error = err, gn_sequence = 1, gn_started = False, gn_done = False\<rparr>"

definition gen_finally :: "wrapping \<Rightarrow> jserr option \<Rightarrow> tel list" where
  "gen_finally w streamError =
    (if wr_end w then (case streamError of
        Some e \<Rightarrow> [SpanException (wr_span w) e, SpanStatus (wr_span w) (StatusError (je_message e))]
      | None \<Rightarrow> [SpanStatus (wr_span w) StatusOk]) @ [SpanEnded (wr_span w)]
     else [])"

datatype 'm iteration = Yields 'm | Returns | Throws jserr

definition gen_next :: "('m \<Rightarrow> int) \<Rightarrow> wrapping \<Rightarrow> 'm generator \<Rightarrow> 'm iteration \<times> tel list \<times> 'm generator" where
  "gen_next sz w g =
    (if gn_done g then (Returns, [], g)
     else (case gn_items g of
        m # ms \<Rightarrow> (Yields m, (if wr_record w then [SpanEvent (wr_span w) (wr_direction w) (gn_sequence g) (sz m)] else []),
          g\<lparr>gn_items := ms, gn_sequence := gn_sequence g + 1, gn_started := True\<rparr>)
      | [] \<Rightarrow> ((case gn_error g of Some e \<Rightarrow> Throws e | None \<Rightarrow> Returns), gen_finally w (gn_error g),
          g\<lparr>gn_started := True, gn_done := True\<rparr>)))"

definition gen_return :: "wrapping \<Rightarrow> 'm generator \<Rightarrow> tel list \<times> 'm generator" where
  "gen_return w g = ((if gn_started g \<and> \<not> gn_done g then gen_finally w None else []), g\<lparr>gn_done := True\<rparr>)"

fun drain :: "nat \<Rightarrow> ('m \<Rightarrow> int) \<Rightarrow> wrapping \<Rightarrow> 'm generator \<Rightarrow> ('m list \<times> 'm iteration option) \<times> tel list \<times> 'm generator" where
  "drain 0 sz w g = (([], None), [], g)"
| "drain (Suc n) sz w g = (case gen_next sz w g of
      (Yields m, l, g') \<Rightarrow> (case drain n sz w g' of ((ms, res), l', g'') \<Rightarrow> ((m # ms, res), l @ l', g''))
    | (res, l, g') \<Rightarrow> (([], Some res), l, g'))"

section \<open>The interceptors\<close>

record ('s, 'm) otel_env =
  te_tracer :: "('s, jserr, unit) io"
  te_meter :: "('s, jserr, unit) io"
  te_clock :: "'s \<Rightarrow> int"
  te_active :: "'s \<Rightarrow> nat"
  te_extract :: "nat \<Rightarrow> headers \<Rightarrow> nat"
  te_remote_span :: "nat \<Rightarrow> nat option"
  te_inject :: "nat \<Rightarrow> headers \<Rightarrow> headers"
  te_toBinary :: "'m \<Rightarrow> nat option"
  te_constructorName :: "jserr \<Rightarrow> string"

definition estimateMessageSize :: "('s, 'm) otel_env \<Rightarrow> 'm \<Rightarrow> int" where
  "estimateMessageSize env message = (case te_toBinary env message of Some n \<Rightarrow> int n | None \<Rightarrow> 0)"

definition body_size :: "('s, 'm) otel_env \<Rightarrow> 'm body \<Rightarrow> int" where
  "body_size env b = (case b of Message m \<Rightarrow> estimateMessageSize env m | _ \<Rightarrow> 0)"

record otel_options =
  ot_withoutTracing :: bool
  ot_withoutMetrics :: bool
  ot_filter :: "(string \<Rightarrow> string \<Rightarrow> bool \<Rightarrow> bool) option"
  ot_attributeFilter :: "(string \<Rightarrow> attr_val \<Rightarrow> bool) option"
  ot_recordMessages :: bool
  ot_trustRemote :: bool
  ot_serverAddress :: string
  ot_serverPort :: "int option"

definition rpc_server_metrics :: "(string \<times> string) list" where
  "rpc_server_metrics = [(''rpc.server.call.duration'', ''s''), (''rpc.server.request.sz'', ''By''), (''rpc.server.response.sz'', ''By'')]"

definition rpc_client_metrics :: "(string \<times> string) list" where
  "rpc_client_metrics = [(''rpc.client.call.duration'', ''s''), (''rpc.client.request.sz'', ''By''), (''rpc.client.response.sz'', ''By'')]"

record call_data =
  cd_filtered :: attrs
  cd_transport :: string
  cd_start :: int
  cd_requestSize :: int
  cd_histograms :: "(string \<times> string) list"

definition ensure_metrics :: "('s, 'm) otel_env \<Rightarrow> (string \<times> string) list \<Rightarrow> ('s, unit) otel_io" where
  "ensure_metrics env histograms = (\<lambda>((created, log), s).
    if created then (Inr (), ((created, log), s))
    else io_bind (on_cell (te_meter env)) (\<lambda>_. \<lambda>((created, log), s).
      (Inr (), ((True, log @ map (\<lambda>(name, unit). HistogramCreated name unit) histograms), s))) ((created, log), s))"

definition recordMetrics :: "('s, 'm) otel_env \<Rightarrow> otel_options \<Rightarrow> call_data \<Rightarrow> int \<Rightarrow> int \<Rightarrow> attrs \<Rightarrow> ('s, unit) otel_io" where
  "recordMetrics env opts cd duration responseSize errorAttrs =
    (if ot_withoutMetrics opts then io_return ()
     else io_bind (ensure_metrics env (cd_histograms cd)) (\<lambda>_.
       let metricAttrs = spread (spread (cd_filtered cd) [(''transport'', AStr (cd_transport cd))]) errorAttrs in
       io_for emit_tel (map (\<lambda>(name, v). Recorded name v metricAttrs)
         (zip (map fst (cd_histograms cd)) [duration, cd_requestSize cd, responseSize]))))"

definition elapsed :: "('s, 'm) otel_env \<Rightarrow> call_data \<Rightarrow> ('s, int) otel_io" where
  "elapsed env cd = (\<lambda>((created, log), s). (Inr (te_clock env s - cd_start cd), ((created, log), s)))"

definition metrics_only :: "('s, 'm) otel_env \<Rightarrow> otel_options \<Rightarrow> call_data \<Rightarrow> ('s, 'm body) handler \<Rightarrow> 'm body req \<Rightarrow> ('s, 'm body resp) otel_io" where
  "metrics_only env opts cd next r = io_catch
    (io_bind (on_cell (next r)) (\<lambda>response.
     io_bind (elapsed env cd) (\<lambda>duration.
     io_bind (recordMetrics env opts cd duration (if rs_stream response then 0 else body_size env (rs_message response)) [])
       (\<lambda>_. io_return response))))
    (\<lambda>err. io_bind (elapsed env cd) (\<lambda>duration.
     io_bind (recordMetrics env opts cd duration 0 (buildErrorAttributes (te_constructorName env) err)) (\<lambda>_. io_throw err)))"

definition span_message :: "otel_options \<Rightarrow> nat \<Rightarrow> string \<Rightarrow> int \<Rightarrow> ('s, unit) otel_io" where
  "span_message opts span direction sz =
    (if ot_recordMessages opts then emit_tel (SpanEvent span direction 1 sz) else io_return ())"

definition instrumented :: "otel_options \<Rightarrow> nat \<Rightarrow> string \<Rightarrow> 'm body req \<Rightarrow> 'm body req" where
  "instrumented opts span direction r = (if rq_stream r
    then r\<lparr>rq_message := Wrapped \<lparr>wr_span = span, wr_direction = direction, wr_record = ot_recordMessages opts, wr_end = False\<rparr> (rq_message r)\<rparr>
    else r)"

definition in_span :: "('s, 'm) otel_env \<Rightarrow> otel_options \<Rightarrow> call_data \<Rightarrow> string \<Rightarrow> string \<Rightarrow> nat \<Rightarrow> ('s, 'm body) handler \<Rightarrow>
    'm body req \<Rightarrow> ('s, 'm body resp) otel_io" where
  "in_span env opts cd inbound outbound span next r = io_catch
    (io_bind (if rq_stream r then io_return () else span_message opts span inbound (cd_requestSize cd)) (\<lambda>_.
     io_bind (on_cell (next (instrumented opts span inbound r))) (\<lambda>response.
     io_bind (elapsed env cd) (\<lambda>duration.
       if rs_stream response then
         io_bind (recordMetrics env opts cd duration 0 []) (\<lambda>_. io_return (response\<lparr>rs_message :=
           Wrapped \<lparr>wr_span = span, wr_direction = outbound, wr_record = ot_recordMessages opts, wr_end = True\<rparr> (rs_message response)\<rparr>))
       else
         (let responseSize = body_size env (rs_message response) in
          io_bind (span_message opts span outbound responseSize) (\<lambda>_.
          io_bind (emit_tel (SpanStatus span StatusOk)) (\<lambda>_.
          io_bind (emit_tel (SpanEnded span)) (\<lambda>_.
          io_bind (recordMetrics env opts cd duration responseSize []) (\<lambda>_. io_return response)))))))))
    (\<lambda>err. io_bind (elapsed env cd) (\<lambda>duration.
     let errorAttrs = buildErrorAttributes (te_constructorName env) err in
     io_bind (emit_tel (SpanException span err)) (\<lambda>_.
     io_bind (emit_tel (SpanStatus span (StatusError (je_message err)))) (\<lambda>_.
     io_bind (io_for (\<lambda>(k, v). emit_tel (SpanAttribute span k v)) errorAttrs) (\<lambda>_.
     io_bind (emit_tel (SpanEnded span)) (\<lambda>_.
     io_bind (recordMetrics env opts cd duration 0 errorAttrs) (\<lambda>_. io_throw err)))))))"

definition call_data_of :: "('s, 'm) otel_env \<Rightarrow> otel_options \<Rightarrow> (string \<times> string) list \<Rightarrow> 'm body req \<Rightarrow> 's \<Rightarrow> call_data" where
  "call_data_of env opts histograms r s =
    \<lparr>cd_filtered = applyAttributeFilter (buildBaseAttributes (rq_service r) (rq_method r) (ot_serverAddress opts) (ot_serverPort opts)) (ot_attributeFilter opts),
     cd_transport = transport_kind (rq_header r), cd_start = te_clock env s,
     cd_requestSize = (if rq_stream r then 0 else body_size env (rq_message r)), cd_histograms = histograms\<rparr>"

definition skips :: "otel_options \<Rightarrow> 'm body req \<Rightarrow> bool" where
  "skips opts r \<longleftrightarrow> (case ot_filter opts of Some f \<Rightarrow> \<not> f (rq_service r) (rq_method r) (rq_stream r) | None \<Rightarrow> False) \<or>
    ot_withoutTracing opts \<and> ot_withoutMetrics opts"

definition span_options_of :: "call_data \<Rightarrow> 'm body req \<Rightarrow> span_kind \<Rightarrow> nat \<Rightarrow> nat list \<Rightarrow> span_options" where
  "span_options_of cd r kind parent links = \<lparr>so_name = rq_service r @ ''/'' @ rq_method r, so_kind = kind,
    so_attributes = spread (cd_filtered cd) [(''connectum.transport'', AStr (cd_transport cd))], so_parent = parent, so_links = links\<rparr>"

definition createOtelInterceptor :: "('s, 'm) otel_env \<Rightarrow> otel_options \<Rightarrow> ('s, 'm body) handler \<Rightarrow> 'm body req \<Rightarrow> ('s, 'm body resp) otel_io" where
  "createOtelInterceptor env opts next r = (\<lambda>((created, log), s).
    if skips opts r then on_cell (next r) ((created, log), s)
    else
      (let cd = call_data_of env opts rpc_server_metrics r s;
           extracted = te_extract env (te_active env s) (rq_header r);
           parent = (if ot_trustRemote opts then extracted else te_active env s);
           links = (if ot_trustRemote opts then [] else (case te_remote_span env extracted of Some c \<Rightarrow> [c] | None \<Rightarrow> []));
           span = length log
       in if ot_withoutTracing opts then metrics_only env opts cd next r ((created, log), s)
       else io_bind (on_cell (te_tracer env)) (\<lambda>_.
            io_bind (emit_tel (SpanStarted span (span_options_of cd r ServerSpan parent links))) (\<lambda>_.
            in_span env opts cd ''RECEIVED'' ''SENT'' span next r)) ((created, log), s)))"

definition createOtelClientInterceptor :: "('s, 'm) otel_env \<Rightarrow> otel_options \<Rightarrow> ('s, 'm body) handler \<Rightarrow> 'm body req \<Rightarrow> ('s, 'm body resp) otel_io" where
  "createOtelClientInterceptor env opts next r = (\<lambda>((created, log), s).
    if skips opts r then on_cell (next r) ((created, log), s)
    else
      (let cd = call_data_of env opts rpc_client_metrics r s; span = length log
       in if ot_withoutTracing opts then metrics_only env opts cd next r ((created, log), s)
       else io_bind (on_cell (te_tracer env)) (\<lambda>_. \<lambda>((created, log), s).
            io_bind (emit_tel (SpanStarted span (span_options_of cd r ClientSpan (te_active env s) []))) (\<lambda>_.
            in_span env opts cd ''SENT'' ''RECEIVED'' span next
              (r\<lparr>rq_header := te_inject env span (rq_header r)\<rparr>)) ((created, log), s)) ((created, log), s)))"

section \<open>What the interceptors record\<close>

definition metric_log :: "bool \<Rightarrow> otel_options \<Rightarrow> call_data \<Rightarrow> int \<Rightarrow> int \<Rightarrow> attrs \<Rightarrow> tel list" where
  "metric_log created opts cd duration responseSize errorAttrs =
    (if ot_withoutMetrics opts then []
     else (if created then [] else map (\<lambda>(name, unit). HistogramCreated name unit) (cd_histograms cd)) @
       map (\<lambda>(name, v). Recorded name v (spread (spread (cd_filtered cd) [(''transport'', AStr (cd_transport cd))]) errorAttrs))
         (zip (map fst (cd_histograms cd)) [duration, cd_requestSize cd, responseSize]))"

lemma emit_tel_apply [simp]: "emit_tel e ((created, log), s) = (Inr (), ((created, log @ [e]), s))"
  by (simp add: emit_tel_def)

lemma io_for_emit [simp]: "io_for emit_tel es ((created, log), s) = (Inr (), ((created, log @ es), s))"
  by (induction es arbitrary: log) (simp_all add: io_bind_def)

lemma io_for_emit_map [simp]:
  "io_for (\<lambda>(k, v). emit_tel (f k v)) es ((created, log), s) = (Inr (), ((created, log @ map (\<lambda>(k, v). f k v) es), s))"
  by (induction es arbitrary: log) (auto simp: io_bind_def)

lemma recordMetrics_log:
  assumes "\<And>s. te_meter env s = (Inr (), s)"
  shows "recordMetrics env opts cd d sz ea ((created, log), s) =
    (Inr (), ((created \<or> \<not> ot_withoutMetrics opts, log @ metric_log created opts cd d sz ea), s))"
  by (simp add: recordMetrics_def ensure_metrics_def metric_log_def io_bind_def assms Let_def)

lemma elapsed_apply [simp]: "elapsed env cd ((created, log), s) = (Inr (te_clock env s - cd_start cd), ((created, log), s))"
  by (simp add: elapsed_def)

definition span_ends :: "nat \<Rightarrow> tel list \<Rightarrow> nat" where
  "span_ends n l = length (filter (\<lambda>e. e = SpanEnded n) l)"

definition span_statuses :: "nat \<Rightarrow> tel list \<Rightarrow> span_status list" where
  "span_statuses n l = concat (map (\<lambda>e. case e of SpanStatus k st \<Rightarrow> if k = n then [st] else [] | _ \<Rightarrow> []) l)"

definition recordings :: "tel list \<Rightarrow> (string \<times> attrs) list" where
  "recordings l = concat (map (\<lambda>e. case e of Recorded name v as \<Rightarrow> [(name, as)] | _ \<Rightarrow> []) l)"

lemma span_log_append [simp]:
  "span_ends n (l @ l') = span_ends n l + span_ends n l'" "span_statuses n (l @ l') = span_statuses n l @ span_statuses n l'"
  "recordings (l @ l') = recordings l @ recordings l'"
  by (simp_all add: span_ends_def span_statuses_def recordings_def)

lemma span_log_Cons [simp]:
  "span_ends n (e # l) = (if e = SpanEnded n then 1 else 0) + span_ends n l"
  "span_statuses n (e # l) = (case e of SpanStatus k st \<Rightarrow> if k = n then [st] else [] | _ \<Rightarrow> []) @ span_statuses n l"
  "recordings (e # l) = (case e of Recorded name v as \<Rightarrow> [(name, as)] | _ \<Rightarrow> []) @ recordings l"
  by (simp_all add: span_ends_def span_statuses_def recordings_def)

lemma span_log_Nil [simp]: "span_ends n [] = 0" "span_statuses n [] = []" "recordings [] = []"
  by (simp_all add: span_ends_def span_statuses_def recordings_def)

lemma span_log_attributes [simp]:
  "span_ends n (map (\<lambda>(k, v). SpanAttribute n k v) as) = 0" "span_statuses n (map (\<lambda>(k, v). SpanAttribute n k v) as) = []"
  "recordings (map (\<lambda>(k, v). SpanAttribute n k v) as) = []"
  by (induction as) auto

lemma span_log_created [simp]:
  "span_ends n (map (\<lambda>(k, v). HistogramCreated k v) hs) = 0" "span_statuses n (map (\<lambda>(k, v). HistogramCreated k v) hs) = []"
  "recordings (map (\<lambda>(k, v). HistogramCreated k v) hs) = []"
  by (induction hs) auto

lemma span_log_recorded [simp]:
  "span_ends n (map (\<lambda>(k, v). Recorded k v as) hs) = 0" "span_statuses n (map (\<lambda>(k, v). Recorded k v as) hs) = []"
  "recordings (map (\<lambda>(k, v). Recorded k v as) hs) = map (\<lambda>(k, v). (k, as)) hs"
  by (induction hs) auto

lemma metric_log_spans [simp]:
  "span_ends n (metric_log created opts cd d sz ea) = 0" "span_statuses n (metric_log created opts cd d sz ea) = []"
  by (simp_all add: metric_log_def)

lemma metric_log_recordings:
  assumes "length (cd_histograms cd) = 3"
  shows "recordings (metric_log created opts cd d sz ea) = (if ot_withoutMetrics opts then [] else
    map (\<lambda>name. (name, spread (spread (cd_filtered cd) [(''transport'', AStr (cd_transport cd))]) ea)) (map fst (cd_histograms cd)))"
proof -
  have z: "map (\<lambda>(k, v). (k, as)) (zip ks vs) = map (\<lambda>k. (k, as)) ks" if "length ks = length vs" for ks :: "string list" and vs :: "int list" and as :: attrs
    using that by (induction ks vs rule: list_induct2) auto
  show ?thesis using z [of "map fst (cd_histograms cd)"] assms by (simp add: metric_log_def comp_def)
qed

text \<open>A call is observed and not changed: its outcome is that of the handler, but that the body of a
  streaming response is wrapped; a span is ended once and has one status, which says how the call ended,
  but the span of a streaming response is left to the wrapped body; each histogram gets one recording,
  and all of them the same labels, with the transport and, exactly for a failed call, the type of the error.\<close>

definition labelled :: "bool \<Rightarrow> (string \<times> string) list \<Rightarrow> string \<Rightarrow> bool \<Rightarrow> (string \<times> attrs) list \<Rightarrow> bool" where
  "labelled metrics histograms transport failed recs \<longleftrightarrow>
    (\<exists>labels. recs = (if metrics then map (\<lambda>(name, unit). (name, labels)) histograms else []) \<and>
       om_get labels ''transport'' = Some (AStr transport) \<and> om_has labels ''error.type'' = failed)"

definition call_observed :: "bool \<Rightarrow> bool \<Rightarrow> (string \<times> string) list \<Rightarrow> nat \<Rightarrow> string \<Rightarrow> jserr + 'm body resp \<Rightarrow> jserr + 'm body resp \<Rightarrow> tel list \<Rightarrow> bool" where
  "call_observed tracing metrics histograms n transport inner outer log \<longleftrightarrow>
    (let streams = (case inner of Inr p \<Rightarrow> rs_stream p | Inl _ \<Rightarrow> False);
         failed = (case inner of Inl _ \<Rightarrow> True | Inr _ \<Rightarrow> False) in
     (\<exists>w. wr_span w = n \<and> wr_end w \<and>
       outer = map_sum id (\<lambda>p. if tracing \<and> streams then p\<lparr>rs_message := Wrapped w (rs_message p)\<rparr> else p) inner) \<and>
     span_ends n log = (if tracing \<and> \<not> streams then 1 else 0) \<and>
     span_statuses n log = (if tracing \<and> \<not> streams then [case inner of Inl e \<Rightarrow> StatusError (je_message e) | Inr _ \<Rightarrow> StatusOk] else []) \<and>
     labelled metrics histograms transport failed (recordings log))"

lemma om_get_spread:
  "om_get (spread m m') k = (case map_of (rev m') k of Some v \<Rightarrow> Some v | None \<Rightarrow> om_get m k)"
  by (simp add: spread_def om.fold_put_get split: option.split)

lemma error_labels:
  fixes err :: "jserr option"
  assumes "as = spread (spread (cd_filtered (call_data_of env opts hs r s)) [(''transport'', AStr k)])
      (case err of Some e \<Rightarrow> buildErrorAttributes cn e | None \<Rightarrow> [])"
  shows "om_get as ''transport'' = Some (AStr k) \<and> om_has as ''error.type'' = (err \<noteq> None)"
proof -
  have b: "om_get (applyAttributeFilter (buildBaseAttributes a b c d) f) ''error.type'' = None" for a b c d f
    by (auto simp: om_get_def map_of_eq_None_iff applyAttributeFilter_def buildBaseAttributes_def split: option.splits)
  show ?thesis
    by (auto simp: assms om_get_spread om_has_def call_data_of_def b buildErrorAttributes_def Let_def split: option.splits)
qed

lemma span_message_apply [simp]:
  "span_message opts n dir sz ((c, l), s) = (Inr (), ((c, l @ (if ot_recordMessages opts then [SpanEvent n dir 1 sz] else [])), s))"
  by (simp add: span_message_def)

lemma call_data_sel [simp]:
  "cd_histograms (call_data_of env opts hs r s) = hs" "cd_transport (call_data_of env opts hs r s) = transport_kind (rq_header r)"
  by (simp_all add: call_data_of_def)

lemma labelled_metrics:
  fixes err :: "jserr option"
  assumes "length hs = 3"
  shows "labelled (\<not> ot_withoutMetrics opts) hs (transport_kind (rq_header r)) (err \<noteq> None)
    (recordings (metric_log c opts (call_data_of env opts' hs r s) d sz
      (case err of Some e \<Rightarrow> buildErrorAttributes cn e | None \<Rightarrow> [])))"
proof -
  let ?labels = "spread (spread (cd_filtered (call_data_of env opts' hs r s)) [(''transport'', AStr (transport_kind (rq_header r)))])
      (case err of Some e \<Rightarrow> buildErrorAttributes cn e | None \<Rightarrow> [])"
  have "recordings (metric_log c opts (call_data_of env opts' hs r s) d sz (case err of Some e \<Rightarrow> buildErrorAttributes cn e | None \<Rightarrow> [])) =
      (if \<not> ot_withoutMetrics opts then map (\<lambda>(name, unit). (name, ?labels)) hs else [])"
    by (subst metric_log_recordings) (simp_all add: assms split_def)
  moreover have "om_get ?labels ''transport'' = Some (AStr (transport_kind (rq_header r))) \<and> om_has ?labels ''error.type'' = (err \<noteq> None)"
    by (rule error_labels [OF refl])
  ultimately show ?thesis unfolding labelled_def by (intro exI [of _ ?labels] conjI) simp_all
qed

lemmas labelled_ok = labelled_metrics [where err = None, simplified]
  and labelled_failed = labelled_metrics [where err = "Some e" for e, simplified]

lemma in_span_observed:
  assumes meter: "\<And>s. te_meter env s = (Inr (), s)" and hs: "length hs = 3"
    and cd: "cd = call_data_of env opts hs r0 s0" and run: "nxt (instrumented opts n inbound r) s = (inner, s')"
  shows "\<exists>outer new c'. in_span env opts cd inbound outbound n nxt r ((c, l), s) = (outer, ((c', l @ new), s')) \<and>
    call_observed True (\<not> ot_withoutMetrics opts) hs n (transport_kind (rq_header r0)) inner outer new"
proof -
  define pre where "pre = (if rq_stream r \<or> \<not> ot_recordMessages opts then [] else [SpanEvent n inbound 1 (cd_requestSize cd)])"
  have pre: "(if rq_stream r then io_return () else span_message opts n inbound (cd_requestSize cd)) ((c, l), s) = (Inr (), ((c, l @ pre), s))"
    by (simp add: pre_def)
  have p [simp]: "span_ends n pre = 0" "span_statuses n pre = []" "recordings pre = []" by (simp_all add: pre_def)
  note metrics = recordMetrics_log [OF meter]
  show ?thesis
  proof (cases inner)
    case (Inl e)
    let ?ea = "buildErrorAttributes (te_constructorName env) e" and ?d = "te_clock env s' - cd_start cd"
    let ?new = "pre @ [SpanException n e, SpanStatus n (StatusError (je_message e))] @ map (\<lambda>(k, v). SpanAttribute n k v) ?ea @
      [SpanEnded n] @ metric_log c opts cd ?d 0 ?ea"
    have "in_span env opts cd inbound outbound n nxt r ((c, l), s) = (Inl e, ((c \<or> \<not> ot_withoutMetrics opts, l @ ?new), s'))"
      unfolding in_span_def io_catch_def io_bind_def [of "if rq_stream r then io_return () else span_message opts n inbound (cd_requestSize cd)"] pre
      by (simp add: io_bind_def run Inl metrics Let_def)
    moreover have "call_observed True (\<not> ot_withoutMetrics opts) hs n (transport_kind (rq_header r0)) inner (Inl e) ?new"
      by (auto simp: call_observed_def Inl cd labelled_failed [OF hs] intro: exI [of _ "\<lparr>wr_span = n, wr_direction = [], wr_record = True, wr_end = True\<rparr>"])
    ultimately show ?thesis by blast
  next
    case (Inr response)
    let ?d = "te_clock env s' - cd_start cd"
    show ?thesis
    proof (cases "rs_stream response")
      case True
      let ?w = "\<lparr>wr_span = n, wr_direction = outbound, wr_record = ot_recordMessages opts, wr_end = True\<rparr>"
      let ?new = "pre @ metric_log c opts cd ?d 0 []" and ?outer = "Inr (response\<lparr>rs_message := Wrapped ?w (rs_message response)\<rparr>)"
      have "in_span env opts cd inbound outbound n nxt r ((c, l), s) = (?outer, ((c \<or> \<not> ot_withoutMetrics opts, l @ ?new), s'))"
        unfolding in_span_def io_catch_def io_bind_def [of "if rq_stream r then io_return () else span_message opts n inbound (cd_requestSize cd)"] pre
        by (simp add: io_bind_def run Inr True metrics Let_def)
      moreover have "call_observed True (\<not> ot_withoutMetrics opts) hs n (transport_kind (rq_header r0)) inner ?outer ?new"
        by (auto simp: call_observed_def Inr True cd labelled_ok [OF hs] intro: exI [of _ ?w])
      ultimately show ?thesis by blast
    next
      case False
      let ?sz = "body_size env (rs_message response)"
      let ?post = "(if ot_recordMessages opts then [SpanEvent n outbound 1 ?sz] else []) @ [SpanStatus n StatusOk, SpanEnded n]"
      let ?new = "pre @ ?post @ metric_log c opts cd ?d ?sz []"
      have "in_span env opts cd inbound outbound n nxt r ((c, l), s) = (Inr response, ((c \<or> \<not> ot_withoutMetrics opts, l @ ?new), s'))"
        unfolding in_span_def io_catch_def io_bind_def [of "if rq_stream r then io_return () else span_message opts n inbound (cd_requestSize cd)"] pre
        by (simp add: io_bind_def run Inr False metrics Let_def)
      moreover have "call_observed True (\<not> ot_withoutMetrics opts) hs n (transport_kind (rq_header r0)) inner (Inr response) ?new"
        by (auto simp: call_observed_def Inr False cd labelled_ok [OF hs] intro: exI [of _ "\<lparr>wr_span = n, wr_direction = [], wr_record = True, wr_end = True\<rparr>"])
      ultimately show ?thesis by blast
    qed
  qed
qed

lemma metrics_only_observed:
  assumes meter: "\<And>s. te_meter env s = (Inr (), s)" and hs: "length hs = 3"
    and cd: "cd = call_data_of env opts hs r0 s0" and run: "nxt r s = (inner, s')"
  shows "\<exists>outer new c'. metrics_only env opts cd nxt r ((c, l), s) = (outer, ((c', l @ new), s')) \<and>
    call_observed False (\<not> ot_withoutMetrics opts) hs n (transport_kind (rq_header r0)) inner outer new"
proof (cases inner)
  case (Inl e)
  let ?new = "metric_log c opts cd (te_clock env s' - cd_start cd) 0 (buildErrorAttributes (te_constructorName env) e)"
  have "metrics_only env opts cd nxt r ((c, l), s) = (Inl e, ((c \<or> \<not> ot_withoutMetrics opts, l @ ?new), s'))"
    by (simp add: metrics_only_def io_catch_def io_bind_def run Inl recordMetrics_log [OF meter])
  moreover have "call_observed False (\<not> ot_withoutMetrics opts) hs n (transport_kind (rq_header r0)) inner (Inl e) ?new"
    by (auto simp: call_observed_def Inl cd labelled_failed [OF hs] intro: exI [of _ "\<lparr>wr_span = n, wr_direction = [], wr_record = True, wr_end = True\<rparr>"])
  ultimately show ?thesis by blast
next
  case (Inr p)
  let ?new = "metric_log c opts cd (te_clock env s' - cd_start cd) (if rs_stream p then 0 else body_size env (rs_message p)) []"
  have "metrics_only env opts cd nxt r ((c, l), s) = (Inr p, ((c \<or> \<not> ot_withoutMetrics opts, l @ ?new), s'))"
    by (simp add: metrics_only_def io_catch_def io_bind_def run Inr recordMetrics_log [OF meter])
  moreover have "call_observed False (\<not> ot_withoutMetrics opts) hs n (transport_kind (rq_header r0)) inner (Inr p) ?new"
    by (auto simp: call_observed_def Inr cd labelled_ok [OF hs] intro: exI [of _ "\<lparr>wr_span = n, wr_direction = [], wr_record = True, wr_end = True\<rparr>"])
  ultimately show ?thesis by blast
qed

lemma call_observed_started [simp]:
  "call_observed tracing metrics hs n k inner outer (SpanStarted n so # log) = call_observed tracing metrics hs n k inner outer log"
  by (simp add: call_observed_def)

lemma server_call_observed:
  assumes "\<And>s. te_tracer env s = (Inr (), s)" and "\<And>s. te_meter env s = (Inr (), s)"
    and "r' = (if ot_withoutTracing opts then r else instrumented opts (length l) ''RECEIVED'' r)"
    and "\<not> skips opts r" and "nxt r' s = (inner, s')"
  shows "\<exists>outer new c'. createOtelInterceptor env opts nxt r ((c, l), s) = (outer, ((c', l @ new), s')) \<and>
    call_observed (\<not> ot_withoutTracing opts) (\<not> ot_withoutMetrics opts) rpc_server_metrics (length l) (transport_kind (rq_header r)) inner outer new"
proof (cases "ot_withoutTracing opts")
  case True
  then show ?thesis
    using metrics_only_observed [OF assms(2) _ refl, of rpc_server_metrics nxt r s inner s' opts] assms(3-5)
    by (simp add: createOtelInterceptor_def Let_def rpc_server_metrics_def)
next
  case False
  let ?cd = "call_data_of env opts rpc_server_metrics r s"
  obtain so where so: "createOtelInterceptor env opts nxt r ((c, l), s) =
      in_span env opts ?cd ''RECEIVED'' ''SENT'' (length l) nxt r ((c, l @ [SpanStarted (length l) so]), s)"
    using False assms(1,4) by (simp add: createOtelInterceptor_def io_bind_def Let_def)
  obtain outer new c' where "in_span env opts ?cd ''RECEIVED'' ''SENT'' (length l) nxt r ((c, l @ [SpanStarted (length l) so]), s) =
      (outer, ((c', (l @ [SpanStarted (length l) so]) @ new), s'))"
    "call_observed True (\<not> ot_withoutMetrics opts) rpc_server_metrics (length l) (transport_kind (rq_header r)) inner outer new"
    using in_span_observed [OF assms(2) _ refl, of rpc_server_metrics nxt opts "length l" "''RECEIVED''" r s inner s'] assms(3,5) False
    by (metis rpc_server_metrics_def length_Cons list.size(3) numeral_3_eq_3)
  then show ?thesis using so False by (intro exI [of _ outer] exI [of _ "SpanStarted (length l) so # new"] exI [of _ c']) simp
qed

lemma client_call_observed:
  assumes "\<And>s. te_tracer env s = (Inr (), s)" and "\<And>s. te_meter env s = (Inr (), s)"
    and "r' = (if ot_withoutTracing opts then r else instrumented opts (length l) ''SENT'' (r\<lparr>rq_header := te_inject env (length l) (rq_header r)\<rparr>))"
    and "\<not> skips opts r" and "nxt r' s = (inner, s')"
  shows "\<exists>outer new c'. createOtelClientInterceptor env opts nxt r ((c, l), s) = (outer, ((c', l @ new), s')) \<and>
    call_observed (\<not> ot_withoutTracing opts) (\<not> ot_withoutMetrics opts) rpc_client_metrics (length l) (transport_kind (rq_header r)) inner outer new"
proof (cases "ot_withoutTracing opts")
  case True
  then show ?thesis
    using metrics_only_observed [OF assms(2) _ refl, of rpc_client_metrics nxt r s inner s' opts] assms(3-5)
    by (simp add: createOtelClientInterceptor_def Let_def rpc_client_metrics_def)
next
  case False
  let ?cd = "call_data_of env opts rpc_client_metrics r s" and ?r = "r\<lparr>rq_header := te_inject env (length l) (rq_header r)\<rparr>"
  obtain so where so: "createOtelClientInterceptor env opts nxt r ((c, l), s) =
      in_span env opts ?cd ''SENT'' ''RECEIVED'' (length l) nxt ?r ((c, l @ [SpanStarted (length l) so]), s)"
    using False assms(1,4) by (simp add: createOtelClientInterceptor_def io_bind_def Let_def)
  obtain outer new c' where "in_span env opts ?cd ''SENT'' ''RECEIVED'' (length l) nxt ?r ((c, l @ [SpanStarted (length l) so]), s) =
      (outer, ((c', (l @ [SpanStarted (length l) so]) @ new), s'))"
    "call_observed True (\<not> ot_withoutMetrics opts) rpc_client_metrics (length l) (transport_kind (rq_header r)) inner outer new"
    using in_span_observed [OF assms(2) _ refl, of rpc_client_metrics nxt opts "length l" "''SENT''" ?r s inner s'] assms(3,5) False
    by (metis rpc_client_metrics_def length_Cons list.size(3) numeral_3_eq_3)
  then show ?thesis using so False by (intro exI [of _ outer] exI [of _ "SpanStarted (length l) so # new"] exI [of _ c']) simp
qed


definition plain_env :: "(unit, nat) otel_env" where
  "plain_env = \<lparr>te_tracer = io_return (), te_meter = io_return (), te_clock = (\<lambda>_. 0), te_active = (\<lambda>_. 0), te_extract = (\<lambda>c _. c),
    te_remote_span = (\<lambda>_. None), te_inject = (\<lambda>_ h. h), te_toBinary = (\<lambda>_. None), te_constructorName = (\<lambda>_. ''Error'')\<rparr>"

definition plain_options :: otel_options where
  "plain_options = \<lparr>ot_withoutTracing = False, ot_withoutMetrics = False, ot_filter = None, ot_attributeFilter = None,
    ot_recordMessages = True, ot_trustRemote = False, ot_serverAddress = ''h'', ot_serverPort = None\<rparr>"

definition plain_req :: "nat body req" where
  "plain_req = \<lparr>rq_stream = False, rq_url = [], rq_service = ''a.B'', rq_method = ''C'', rq_header = [], rq_context = None, rq_message = Message 1\<rparr>"


section \<open>Wrapped streams\<close>

fun numbered :: "('m \<Rightarrow> int) \<Rightarrow> wrapping \<Rightarrow> int \<Rightarrow> 'm list \<Rightarrow> tel list" where
  "numbered sz w i [] = []"
| "numbered sz w i (m # ms) = (if wr_record w then [SpanEvent (wr_span w) (wr_direction w) i (sz m)] else []) @ numbered sz w (i + 1) ms"

lemma numbered_log [simp]: "span_ends n (numbered sz w i ms) = 0" "span_statuses n (numbered sz w i ms) = []"
  by (induction ms arbitrary: i) auto

lemma drain_result:
  assumes "\<not> gn_done g"
  shows "drain n sz w g =
    ((take n (gn_items g), if n \<le> length (gn_items g) then None else Some (case gn_error g of Some e \<Rightarrow> Throws e | None \<Rightarrow> Returns)),
     numbered sz w (gn_sequence g) (take n (gn_items g)) @ (if n \<le> length (gn_items g) then [] else gen_finally w (gn_error g)),
     g\<lparr>gn_items := drop n (gn_items g), gn_sequence := gn_sequence g + int (min n (length (gn_items g))),
       gn_started := (gn_started g \<or> n > 0), gn_done := (n > length (gn_items g))\<rparr>)"
  using assms
proof (induction n arbitrary: g)
  case (Suc n)
  show ?case
  proof (cases "gn_items g")
    case Nil
    then show ?thesis using Suc.prems by (simp add: gen_next_def split: option.split)
  next
    case (Cons m ms)
    then show ?thesis using Suc by (simp add: gen_next_def)
  qed
qed simp

text \<open>C36. A wrapped stream gives what the stream gives: the consumer that asks for n messages and then leaves
  gets the first n, in order, and if it asks for more than there are it sees the end or the error of the
  stream. The messages it has read are recorded with the numbers 1, 2, 3 and so on; the span of a response is ended
  once and its status says whether the consumer saw an error, but only if the consumer asked for at least one message:
  a response whose stream is never read leaves its span open.\<close>
theorem otel_stream_transparent:
  "case drain n sz w (gen_new items err) of ((ms, res), log, g) \<Rightarrow> (let whole = log @ fst (gen_return w g) in
     ms = take n items \<and>
     res = (if n \<le> length items then None else Some (case err of Some e \<Rightarrow> Throws e | None \<Rightarrow> Returns)) \<and>
     takeWhile (\<lambda>e. \<exists>i k. e = SpanEvent (wr_span w) (wr_direction w) i k) whole = numbered sz w 1 ms \<and>
     span_ends (wr_span w) whole = (if wr_end w \<and> n > 0 then 1 else 0) \<and>
     span_statuses (wr_span w) whole = (if wr_end w \<and> n > 0
       then [case res of Some (Throws e) \<Rightarrow> StatusError (je_message e) | _ \<Rightarrow> StatusOk] else []))"
proof -
  have tw: "takeWhile (\<lambda>e. \<exists>i k. e = SpanEvent (wr_span w) (wr_direction w) i k) (numbered sz w j ms @ l) =
      numbered sz w j ms @ takeWhile (\<lambda>e. \<exists>i k. e = SpanEvent (wr_span w) (wr_direction w) i k) l" for j ms l
    by (induction ms arbitrary: j) auto
  show ?thesis
    by (subst drain_result)
      (auto simp: gen_new_def gen_return_def gen_finally_def tw Let_def split: option.splits)
qed

end
