(* ===== verification/OtelProvider.thy ===== *)
theory OtelProvider
  imports Prelude Connect Otel
begin

text \<open>
  packages/otel/src: config.ts, provider.ts, logger.ts, traced.ts and traceAll.ts. The environment is a
  map of strings; the exporters, processors and providers of the OpenTelemetry packages are what the code asks
  for, as data. The one provider of a process is an optional value. A function that is traced is a
  computation that gives a value or a promise, which is a computation that has yet to run.
\<close>

section \<open>config.ts\<close>

type_synonym env = "(string, string) omap"

definition otlp_exporters :: "string list" where
  "otlp_exporters = [''console'', ''otlp/http'', ''otlp/grpc'', ''none'']"

definition env_enum :: "env \<Rightarrow> string \<Rightarrow> jserr + string option" where
  "env_enum e name = (case om_get e name of
      None \<Rightarrow> Inr None
    | Some v \<Rightarrow> if v \<in> set otlp_exporters then Inr (Some v) else Inl (plain_error ''env-var: value is not in the list of allowed values''))"

record otlp_settings =
  ol_traces :: "string option"
  ol_metrics :: "string option"
  ol_logs :: "string option"

definition getOTLPSettings :: "env \<Rightarrow> jserr + otlp_settings" where
  "getOTLPSettings e = res_bind (env_enum e ''OTEL_TRACES_EXPORTER'') (\<lambda>t.
    res_bind (env_enum e ''OTEL_METRICS_EXPORTER'') (\<lambda>m.
    res_bind (env_enum e ''OTEL_LOGS_EXPORTER'') (\<lambda>l. Inr \<lparr>ol_traces = t, ol_metrics = m, ol_logs = l\<rparr>)))"

record collector_options =
  cl_concurrencyLimit :: int
  cl_url :: "string option"

definition strip_slash :: "string \<Rightarrow> string" where
  "strip_slash u = (if u \<noteq> [] \<and> last u = CHR ''/'' then butlast u else u)"

definition getCollectorOptions :: "env \<Rightarrow> collector_options" where
  "getCollectorOptions e = \<lparr>cl_concurrencyLimit = 10, cl_url = map_option strip_slash (om_get e ''OTEL_EXPORTER_OTLP_ENDPOINT'')\<rparr>"

record batch_options =
  bo_maxExportBatchSize :: int
  bo_maxQueueSize :: int
  bo_scheduledDelayMillis :: int
  bo_exportTimeoutMillis :: int

definition env_positive :: "(string \<Rightarrow> jserr + int) \<Rightarrow> env \<Rightarrow> string \<Rightarrow> int \<Rightarrow> jserr + int" where
  "env_positive asIntPositive e name d = (case om_get e name of None \<Rightarrow> Inr d | Some v \<Rightarrow> asIntPositive v)"

definition getBatchSpanProcessorOptions :: "(string \<Rightarrow> jserr + int) \<Rightarrow> env \<Rightarrow> jserr + batch_options" where
  "getBatchSpanProcessorOptions asIntPositive e =
    res_bind (env_positive asIntPositive e ''OTEL_BSP_MAX_EXPORT_BATCH_SIZE'' 100) (\<lambda>b.
    res_bind (env_positive asIntPositive e ''OTEL_BSP_MAX_QUEUE_SIZE'' 1000) (\<lambda>q.
    res_bind (env_positive asIntPositive e ''OTEL_BSP_SCHEDULE_DELAY'' 1000) (\<lambda>d.
    res_bind (env_positive asIntPositive e ''OTEL_BSP_EXPORT_TIMEOUT'' 10000) (\<lambda>x.
      Inr \<lparr>bo_maxExportBatchSize = b, bo_maxQueueSize = q, bo_scheduledDelayMillis = d, bo_exportTimeoutMillis = x\<rparr>))))"

definition truthy :: "string option \<Rightarrow> string option" where
  "truthy v = (case v of Some s \<Rightarrow> if s \<noteq> [] then Some s else None | None \<Rightarrow> None)"

definition first_of :: "'a option \<Rightarrow> 'a option \<Rightarrow> 'a option" where
  "first_of a b = (case a of Some x \<Rightarrow> Some x | None \<Rightarrow> b)"

definition getServiceMetadata :: "env \<Rightarrow> string \<times> string" where
  "getServiceMetadata e =
    (dflt (first_of (truthy (om_get e ''OTEL_SERVICE_NAME'')) (truthy (om_get e ''npm_package_name''))) ''unknown-service'',
     dflt (truthy (om_get e ''npm_package_version'')) ''0.0.0'')"

section \<open>provider.ts\<close>

fun split_at_eq :: "string \<Rightarrow> (string \<times> string) option" where
  "split_at_eq [] = None"
| "split_at_eq (c # cs) = (if c = CHR ''='' then Some ([], cs) else map_option (\<lambda>(k, v). (c # k, v)) (split_at_eq cs))"

definition read_pair :: "string \<Rightarrow> (string, string) omap \<Rightarrow> (string, string) omap" where
  "read_pair pair result = (case split_at_eq pair of
      None \<Rightarrow> result
    | Some (k, v) \<Rightarrow> if k = [] then result
        else if js_trim k \<noteq> [] then om_set (js_trim k) (js_trim v) result else result)"

definition parseOtelResourceAttributesEnv :: "string option \<Rightarrow> (string, string) omap" where
  "parseOtelResourceAttributesEnv raw = (case raw of
      None \<Rightarrow> []
    | Some s \<Rightarrow> if s = [] then [] else fold read_pair (js_split CHR '','' s) [])"

definition buildResourceAttributes :: "string \<Rightarrow> string \<Rightarrow> string option \<Rightarrow> attrs option \<Rightarrow> env \<Rightarrow> attrs" where
  "buildResourceAttributes serviceName serviceVersion instanceId resourceAttributes e =
    (let base = spread [(''service.name'', AStr serviceName), (''service.version'', AStr serviceVersion)]
           (map (\<lambda>(k, v). (k, AStr v)) (parseOtelResourceAttributesEnv (om_get e ''OTEL_RESOURCE_ATTRIBUTES'')));
         withEnvId = (case truthy (om_get e ''OTEL_SERVICE_INSTANCE_ID'') of Some i \<Rightarrow> om_set ''service.instance.id'' (AStr i) base | None \<Rightarrow> base);
         withOptions = spread withEnvId (dflt resourceAttributes [])
     in (case truthy instanceId of Some i \<Rightarrow> om_set ''service.instance.id'' (AStr i) withOptions | None \<Rightarrow> withOptions))"

datatype exporter = NoExporter | HttpExporter string | GrpcExporter "string option" | ConsoleExporter

definition choose_exporter :: "string \<Rightarrow> collector_options \<Rightarrow> string option \<Rightarrow> exporter" where
  "choose_exporter path collector setting =
    (if setting = Some ''none'' then NoExporter
     else if setting = Some ''otlp/http'' then HttpExporter (dflt (cl_url collector) ''undefined'' @ path)
     else if setting = Some ''otlp/grpc'' then GrpcExporter (truthy (cl_url collector))
     else ConsoleExporter)"

record provider_options =
  po_serviceName :: "string option"
  po_serviceVersion :: "string option"
  po_instanceId :: "string option"
  po_resourceAttributes :: "attrs option"
  po_traces :: "string option"
  po_metrics :: "string option"
  po_logs :: "string option"

record otel_provider =
  pv_name :: string
  pv_version :: string
  pv_resource :: attrs
  pv_tracer :: "exporter \<times> batch_options option"
  pv_meter :: "exporter \<times> int"
  pv_logger :: exporter

definition createTracer :: "(string \<Rightarrow> jserr + int) \<Rightarrow> env \<Rightarrow> string option \<Rightarrow> jserr + exporter \<times> batch_options option" where
  "createTracer asIntPositive e setting =
    (case choose_exporter ''/v1/traces'' (getCollectorOptions e) setting of
       NoExporter \<Rightarrow> Inr (NoExporter, None)
     | x \<Rightarrow> res_bind (getBatchSpanProcessorOptions asIntPositive e) (\<lambda>b. Inr (x, Some b)))"

definition createMeter :: "env \<Rightarrow> string option \<Rightarrow> exporter \<times> int" where
  "createMeter e setting = (choose_exporter ''/v1/metrics'' (getCollectorOptions e) setting, 10000)"

definition createLogger :: "env \<Rightarrow> string option \<Rightarrow> exporter" where
  "createLogger e setting = choose_exporter ''/v1/logs'' (getCollectorOptions e) setting"

definition new_provider :: "(string \<Rightarrow> jserr + int) \<Rightarrow> env \<Rightarrow> provider_options \<Rightarrow> jserr + otel_provider" where
  "new_provider asIntPositive e opts = res_bind (getOTLPSettings e) (\<lambda>settings.
    let (metaName, metaVersion) = getServiceMetadata e;
        name = dflt (po_serviceName opts) metaName; version = dflt (po_serviceVersion opts) metaVersion in
    res_bind (createTracer asIntPositive e (first_of (po_traces opts) (ol_traces settings))) (\<lambda>tracer.
      Inr \<lparr>pv_name = name, pv_version = version,
        pv_resource = buildResourceAttributes name version (po_instanceId opts) (po_resourceAttributes opts) e,
        pv_tracer = tracer, pv_meter = createMeter e (first_of (po_metrics opts) (ol_metrics settings)),
        pv_logger = createLogger e (first_of (po_logs opts) (ol_logs settings))\<rparr>))"

type_synonym 's provider_io = "(otel_provider option \<times> 's, jserr, unit) io"

definition no_options :: provider_options where
  "no_options = \<lparr>po_serviceName = None, po_serviceVersion = None, po_instanceId = None, po_resourceAttributes = None,
    po_traces = None, po_metrics = None, po_logs = None\<rparr>"

definition initProvider :: "(string \<Rightarrow> jserr + int) \<Rightarrow> ('s \<Rightarrow> env) \<Rightarrow> provider_options \<Rightarrow> 's provider_io" where
  "initProvider asIntPositive process_env opts = (\<lambda>(provider, s). case provider of
      Some p \<Rightarrow> (Inr (), (Some p, s))
    | None \<Rightarrow> (case new_provider asIntPositive (process_env s) opts of
        Inl err \<Rightarrow> (Inl err, (None, s)) | Inr p \<Rightarrow> (Inr (), (Some p, s))))"

definition getProvider :: "(string \<Rightarrow> jserr + int) \<Rightarrow> ('s \<Rightarrow> env) \<Rightarrow> (otel_provider option \<times> 's, jserr, otel_provider) io" where
  "getProvider asIntPositive process_env = (\<lambda>(provider, s). case provider of
      Some p \<Rightarrow> (Inr p, (Some p, s))
    | None \<Rightarrow> (case new_provider asIntPositive (process_env s) no_options of
        Inl err \<Rightarrow> (Inl err, (None, s)) | Inr p \<Rightarrow> (Inr p, (Some p, s))))"

record 's provider_shutdown =
  ps_traces :: "('s, jserr, unit) io"
  ps_metrics :: "('s, jserr, unit) io"
  ps_logs :: "('s, jserr, unit) io"

definition provider_stop :: "'s provider_shutdown \<Rightarrow> otel_provider \<Rightarrow> ('s, jserr, unit) io" where
  "provider_stop ps p =
    io_bind (if fst (pv_tracer p) \<noteq> NoExporter then ps_traces ps else io_return ()) (\<lambda>_.
    io_bind (if fst (pv_meter p) \<noteq> NoExporter then ps_metrics ps else io_return ()) (\<lambda>_.
      if pv_logger p \<noteq> NoExporter then ps_logs ps else io_return ()))"

definition shutdownProvider :: "'s provider_shutdown \<Rightarrow> 's provider_io" where
  "shutdownProvider ps = (\<lambda>(provider, s). case provider of
      None \<Rightarrow> (Inr (), (None, s))
    | Some p \<Rightarrow> io_bind (on_cell (provider_stop ps p)) (\<lambda>_. \<lambda>(_, s). (Inr (), (None, s))) (provider, s))"

section \<open>logger.ts\<close>

record log_record =
  lr_severity :: string
  lr_body :: string
  lr_attributes :: attrs

definition log_attributes :: "string option \<Rightarrow> string option \<Rightarrow> attrs option \<Rightarrow> attrs option \<Rightarrow> attrs" where
  "log_attributes name activeService defaultAttrs callAttributes =
    (let base = spread [(''logger.name'', AStr (dflt (first_of name activeService) ''unknown''))] (dflt defaultAttrs []) in
     case callAttributes of Some a \<Rightarrow> spread base a | None \<Rightarrow> base)"

definition emitLog :: "string option \<Rightarrow> string option \<Rightarrow> attrs option \<Rightarrow> string \<Rightarrow> string \<Rightarrow> attrs option \<Rightarrow> log_record" where
  "emitLog name activeService defaultAttrs severityText msg callAttributes =
    \<lparr>lr_severity = severityText, lr_body = msg, lr_attributes = log_attributes name activeService defaultAttrs callAttributes\<rparr>"

section \<open>traced.ts\<close>

datatype ('s, 'r) fn_result = Value 'r | Promise "('s, jserr, 'r) io"

datatype record_args = NoArgs | AllArgs | OnlyArgs "string list"

record 'v traced_options =
  tr_recordArgs :: record_args
  tr_argsFilter :: "('v list \<Rightarrow> jserr + 'v list) option"
  tr_attributes :: "attrs option"

type_synonym ('s, 'a) span_io = "(tel list \<times> 's, jserr, 'a) io"

definition emit_span :: "tel \<Rightarrow> ('s, unit) span_io" where
  "emit_span e = (\<lambda>(log, s). (Inr (), (log @ [e], s)))"

definition args_to_record :: "record_args \<Rightarrow> 'v list \<Rightarrow> 'v list" where
  "args_to_record rec args = (case rec of
      OnlyArgs names \<Rightarrow> map snd (filter (\<lambda>(i, v). show_nat i \<in> set names) (enumerate 0 args))
    | _ \<Rightarrow> args)"

definition record_arguments :: "('v list \<Rightarrow> jserr + string) \<Rightarrow> 'v traced_options \<Rightarrow> nat \<Rightarrow> 'v list \<Rightarrow> ('s, unit) span_io" where
  "record_arguments stringify opts span args =
    (if tr_recordArgs opts = NoArgs then io_return ()
     else io_bind (io_lift (case tr_argsFilter opts of
            Some f \<Rightarrow> f (args_to_record (tr_recordArgs opts) args) | None \<Rightarrow> Inr (args_to_record (tr_recordArgs opts) args))) (\<lambda>recorded.
          io_bind (io_lift (stringify recorded)) (\<lambda>text. emit_span (SpanAttribute span ''function.args'' (AStr text)))))"

definition span_ok :: "nat \<Rightarrow> ('s, unit) span_io" where
  "span_ok span = io_bind (emit_span (SpanStatus span StatusOk)) (\<lambda>_. emit_span (SpanEnded span))"

definition span_failed :: "nat \<Rightarrow> jserr \<Rightarrow> ('s, unit) span_io" where
  "span_failed span err = io_bind (emit_span (SpanException span err)) (\<lambda>_.
    io_bind (emit_span (SpanStatus span (StatusError (je_message err)))) (\<lambda>_. emit_span (SpanEnded span)))"

definition settled_promise :: "nat \<Rightarrow> ('s, jserr, 'r) io \<Rightarrow> ('s, 'r) span_io" where
  "settled_promise span p = (\<lambda>(log, s). case p s of
      (Inr v, s') \<Rightarrow> io_bind (span_ok span) (\<lambda>_. io_return v) (log, s')
    | (Inl err, s') \<Rightarrow> io_bind (span_failed span err) (\<lambda>_. io_throw err) (log, s'))"

definition traced_call :: "('v list \<Rightarrow> jserr + string) \<Rightarrow> string \<Rightarrow> 'v traced_options \<Rightarrow> nat \<Rightarrow>
    ('v list \<Rightarrow> ('s, jserr, ('s, 'r) fn_result) io) \<Rightarrow> 'v list \<Rightarrow> ('s, (tel list \<times> 's, 'r) fn_result) span_io" where
  "traced_call stringify name opts active fn args = (\<lambda>(log, s).
    let span = length log in
    io_bind (emit_span (SpanStarted span \<lparr>so_name = name, so_kind = InternalSpan, so_attributes = [], so_parent = active, so_links = []\<rparr>)) (\<lambda>_.
    io_catch
      (io_bind (io_for emit_span (map (\<lambda>(k, v). SpanAttribute span k v) (dflt (tr_attributes opts) []))) (\<lambda>_.
       io_bind (record_arguments stringify opts span args) (\<lambda>_.
       io_bind (on_cell (fn args)) (\<lambda>result. case result of
           Value v \<Rightarrow> io_bind (span_ok span) (\<lambda>_. io_return (Value v))
         | Promise p \<Rightarrow> io_return (Promise (settled_promise span p))))))
      (\<lambda>err. io_bind (span_failed span err) (\<lambda>_. io_throw err))) (log, s))"

definition traced_name :: "string option \<Rightarrow> string \<Rightarrow> string" where
  "traced_name name fnName = dflt name (if fnName \<noteq> [] then fnName else ''anonymous'')"

section \<open>traceAll.ts\<close>

datatype key = StrKey string | SymKey nat

datatype ('s, 'v, 'r) property = Function "'v list \<Rightarrow> ('s, jserr, ('s, 'r) fn_result) io" | Datum 'v

record trace_all_options =
  ta_prefix :: "string option"
  ta_include :: "string list option"
  ta_exclude :: "string list option"

definition trace_prefix :: "string option \<Rightarrow> string option \<Rightarrow> string" where
  "trace_prefix given constructorName =
    dflt given (dflt (if constructorName \<noteq> Some ''Object'' then constructorName else None) ''Object'')"

definition wraps :: "trace_all_options \<Rightarrow> key \<Rightarrow> bool" where
  "wraps opts k = (case k of
      SymKey _ \<Rightarrow> False
    | StrKey prop \<Rightarrow> prop \<noteq> ''constructor'' \<and>
        (case ta_exclude opts of Some ex \<Rightarrow> prop \<notin> set ex | None \<Rightarrow> True) \<and>
        (case ta_include opts of Some inc \<Rightarrow> prop \<in> set inc | None \<Rightarrow> True))"

datatype ('s, 'v, 'r) proxied =
    Wrapper "'v list \<Rightarrow> ('s, (tel list \<times> 's, 'r) fn_result) span_io"
  | Plain "('s, 'v, 'r) property"

definition proxy_get :: "('v list \<Rightarrow> jserr + string) \<Rightarrow> trace_all_options \<Rightarrow> string option \<Rightarrow> (string \<Rightarrow> 'v traced_options) \<Rightarrow> nat \<Rightarrow>
    (key \<Rightarrow> ('s, 'v, 'r) property) \<Rightarrow> key \<Rightarrow> ('s, 'v, 'r) proxied" where
  "proxy_get stringify opts constructorName topts active target k = (case target k of
      Datum v \<Rightarrow> Plain (Datum v)
    | Function f \<Rightarrow> if \<not> wraps opts k then Plain (Function f)
        else (case k of
            StrKey prop \<Rightarrow> Wrapper (traced_call stringify (trace_prefix (ta_prefix opts) constructorName @ ''.'' @ prop)
              ((topts prop)\<lparr>tr_attributes := None\<rparr>) active f)
          | SymKey _ \<Rightarrow> Plain (Function f)))"

definition traceAll_proxy :: "nat list \<Rightarrow> nat \<Rightarrow> nat \<Rightarrow> nat \<times> nat list" where
  "traceAll_proxy wrapped target proxy = (if target \<in> set wrapped then (target, wrapped) else (proxy, proxy # wrapped))"

lemma traceAll_idempotent:
  "traceAll_proxy wrapped target proxy = (p, wrapped') \<Longrightarrow> traceAll_proxy wrapped' p proxy' = (p, wrapped')"
  by (auto simp: traceAll_proxy_def split: if_splits)

section \<open>Precedence of the resource attributes\<close>

theorem resource_attribute_precedence:
  "om_get (buildResourceAttributes name version instanceId attributes e) k =
    (if k = ''service.instance.id'' \<and> truthy instanceId \<noteq> None then map_option AStr (truthy instanceId)
     else case map_of (rev (dflt attributes [])) k of
       Some v \<Rightarrow> Some v
     | None \<Rightarrow> if k = ''service.instance.id'' \<and> truthy (om_get e ''OTEL_SERVICE_INSTANCE_ID'') \<noteq> None
         then map_option AStr (truthy (om_get e ''OTEL_SERVICE_INSTANCE_ID''))
         else case map_of (rev (parseOtelResourceAttributesEnv (om_get e ''OTEL_RESOURCE_ATTRIBUTES''))) k of
           Some v \<Rightarrow> Some (AStr v)
         | None \<Rightarrow> if k = ''service.name'' then Some (AStr name) else if k = ''service.version'' then Some (AStr version) else None)"
proof -
  have m: "map_of (rev (map (\<lambda>(k, v). (k, AStr v)) l)) k = map_option AStr (map_of (rev l) k)" for l :: "(string \<times> string) list" and k
    by (simp add: rev_map map_of_map)
  show ?thesis
    by (auto simp: buildResourceAttributes_def Let_def om_get_spread m om_get_cons split: option.split)
qed

section \<open>A traced function is the function\<close>

lemma emit_span_apply [simp]: "emit_span e (log, s) = (Inr (), (log @ [e], s))"
  by (simp add: emit_span_def)

lemma io_for_emit_span [simp]: "io_for emit_span es (log, s) = (Inr (), (log @ es, s))"
  by (induction es arbitrary: log) (simp_all add: io_bind_def)

lemma span_ok_apply [simp]: "span_ok n (log, s) = (Inr (), (log @ [SpanStatus n StatusOk, SpanEnded n], s))"
  by (simp add: span_ok_def io_bind_def)

lemma span_failed_apply [simp]:
  "span_failed n err (log, s) = (Inr (), (log @ [SpanException n err, SpanStatus n (StatusError (je_message err)), SpanEnded n], s))"
  by (simp add: span_failed_def io_bind_def)

theorem traced_call_observed:
  assumes "tr_recordArgs opts = NoArgs" and "n = length log"
  shows "case fn args s of (res, s') \<Rightarrow> case traced_call stringify name opts active fn args (log, s) of (res', (log', s'')) \<Rightarrow>
    s'' = s' \<and> (case res of
      Inl err \<Rightarrow> res' = Inl err \<and> span_ends n (drop n log') = 1 \<and> span_statuses n (drop n log') = [StatusError (je_message err)]
    | Inr (Value v) \<Rightarrow> res' = Inr (Value v) \<and> span_ends n (drop n log') = 1 \<and> span_statuses n (drop n log') = [StatusOk]
    | Inr (Promise p) \<Rightarrow> span_ends n (drop n log') = 0 \<and> (\<exists>p'. res' = Inr (Promise p') \<and>
        (case p s' of (out, t) \<Rightarrow> case p' (log', s') of (out', (log'', t')) \<Rightarrow>
          out' = out \<and> t' = t \<and> span_ends n (drop n log'') = 1 \<and>
          span_statuses n (drop n log'') = [case out of Inl err \<Rightarrow> StatusError (je_message err) | Inr _ \<Rightarrow> StatusOk])))"
proof -
  obtain res s' where f: "fn args s = (res, s')" by (metis prod.collapse)
  have r: "record_arguments stringify opts k args = io_return ()" for k
    using assms(1) by (simp add: record_arguments_def)
  show ?thesis
  proof (cases res)
    case (Inl err)
    then show ?thesis by (simp add: traced_call_def f r io_bind_def io_catch_def assms(2) Let_def)
  next
    case (Inr x)
    then show ?thesis
      by (cases x) (auto simp: traced_call_def f r io_bind_def io_catch_def assms(2) settled_promise_def Let_def split: prod.split sum.split)
  qed
qed

end
