(* ===== verification/Health.thy ===== *)
theory Health
  imports Prelude Connect
begin

text \<open>
  The health package: packages/healthcheck/src/HealthcheckManager.ts (the registry of services and
  components), Healthcheck.ts (the gRPC handlers list, check and watch) and httpHandler.ts (the HTTP
  endpoint over the same registry). The registry is the Map of the class; an operation is a
  computation over it. The watch generator is a function of what its waits yield: each wait is
  preceded by the look at the abort flag, and ends with the interval elapsed (the registry is then
  the one of that moment), the abort, or another failure. The URL class of the platform is the
  argument url_query of parseServiceFromUrl: the service parameter of a parsed URL, or None when the
  constructor throws.
\<close>

section \<open>HealthcheckManager.ts\<close>

datatype ServingStatus = UNKNOWN | SERVING | NOT_SERVING | SERVICE_UNKNOWN

datatype EntryKind = SERVICE | COMPONENT

record HealthEntry =
  he_status :: ServingStatus
  he_kind :: EntryKind

type_synonym health_registry = "(string, HealthEntry) omap"

type_synonym 'a health_io = "(health_registry, jserr, 'a) io"

abbreviation (input) health_entry :: "ServingStatus \<Rightarrow> EntryKind \<Rightarrow> HealthEntry" where
  "health_entry s k \<equiv> \<lparr>he_status = s, he_kind = k\<rparr>"

definition assertValidComponentName :: "string \<Rightarrow> jserr + unit" where
  "assertValidComponentName component =
    (if component = [] then Inl (plain_error ''Component name must not be empty'')
     else if CHR ''.'' \<in> set component
       then Inl (plain_error (''Component name '' @ component @ '' must not contain dots''))
     else Inr ())"

definition hm_is_service :: "string \<Rightarrow> jserr" where
  "hm_is_service component = plain_error (''Name '' @ component @ '' is a registered RPC service, not a component'')"

definition hm_update :: "ServingStatus \<Rightarrow> string option \<Rightarrow> unit health_io" where
  "hm_update status service entries = (case service of
      None \<Rightarrow> (Inr (), map (\<lambda>(key, entry). (key, health_entry status (he_kind entry))) entries)
    | Some name \<Rightarrow> (case om_get entries name of
        None \<Rightarrow> (Inl (plain_error (''Unknown service '' @ name @ ''. Registered services: ''
          @ js_join '', '' (om_keys entries))), entries)
      | Some existing \<Rightarrow> (Inr (), om_set name (health_entry status (he_kind existing)) entries)))"

definition hm_register :: "string \<Rightarrow> ServingStatus option \<Rightarrow> unit health_io" where
  "hm_register component initialStatus entries = (case assertValidComponentName component of
      Inl e \<Rightarrow> (Inl e, entries)
    | Inr _ \<Rightarrow> (case om_get entries component of
        Some existing \<Rightarrow> if he_kind existing = SERVICE then (Inl (hm_is_service component), entries)
          else (Inr (), entries)
      | None \<Rightarrow> (Inr (), om_set component (health_entry (dflt initialStatus UNKNOWN) COMPONENT) entries)))"

definition hm_set :: "string \<Rightarrow> ServingStatus \<Rightarrow> unit health_io" where
  "hm_set component status entries = (case assertValidComponentName component of
      Inl e \<Rightarrow> (Inl e, entries)
    | Inr _ \<Rightarrow> (case om_get entries component of
        Some existing \<Rightarrow> if he_kind existing = SERVICE then (Inl (hm_is_service component), entries)
          else (Inr (), om_set component (health_entry status COMPONENT) entries)
      | None \<Rightarrow> (Inr (), om_set component (health_entry status COMPONENT) entries)))"

definition hm_unregister :: "string \<Rightarrow> unit health_io" where
  "hm_unregister component entries = (case om_get entries component of
      None \<Rightarrow> (Inr (), entries)
    | Some existing \<Rightarrow> if he_kind existing = SERVICE then (Inl (hm_is_service component), entries)
        else (Inr (), om_del component entries))"

definition hm_getStatus :: "string \<Rightarrow> health_registry \<Rightarrow> ServingStatus option" where
  "hm_getStatus service entries = map_option he_status (om_get entries service)"

definition hm_getAllStatuses :: "health_registry \<Rightarrow> (string, ServingStatus) omap" where
  "hm_getAllStatuses entries = map (\<lambda>(key, entry). (key, he_status entry)) entries"

definition hm_areAllHealthy :: "health_registry \<Rightarrow> bool" where
  "hm_areAllHealthy entries =
    (if length entries = 0 then False else list_all (\<lambda>(key, e). he_status e = SERVING) entries)"

definition hm_initialize :: "string list \<Rightarrow> unit health_io" where
  "hm_initialize serviceNames entries =
    (Inr (), fold (\<lambda>name es. case om_get es name of
        None \<Rightarrow> om_set name (health_entry UNKNOWN SERVICE) es
      | Some _ \<Rightarrow> es) serviceNames
     (filter (\<lambda>(key, entry). \<not> (he_kind entry = SERVICE \<and> key \<notin> set serviceNames)) entries))"

definition hm_clear :: "unit health_io" where
  "hm_clear entries = (Inr (), [])"

datatype health_op =
    OpUpdate ServingStatus "string option"
  | OpRegister string "ServingStatus option"
  | OpSet string ServingStatus
  | OpUnregister string
  | OpInitialize "string list"
  | OpClear

primrec health_run :: "health_op \<Rightarrow> unit health_io" where
  "health_run (OpUpdate s n) = hm_update s n"
| "health_run (OpRegister n s) = hm_register n s"
| "health_run (OpSet n s) = hm_set n s"
| "health_run (OpUnregister n) = hm_unregister n"
| "health_run (OpInitialize ns) = hm_initialize ns"
| "health_run OpClear = hm_clear"

definition health_runs :: "health_op list \<Rightarrow> health_registry \<Rightarrow> health_registry" where
  "health_runs ops entries = fold (\<lambda>op es. snd (health_run op es)) ops entries"

section \<open>Healthcheck.ts\<close>

definition resolveServiceStatus :: "health_registry \<Rightarrow> string \<Rightarrow> ServingStatus" where
  "resolveServiceStatus manager service =
    (if service = [] then (if hm_areAllHealthy manager then SERVING else NOT_SERVING)
     else dflt (hm_getStatus service manager) SERVICE_UNKNOWN)"

definition health_list :: "health_registry \<Rightarrow> (string, ServingStatus) omap" where
  "health_list manager = hm_getAllStatuses manager"

definition health_check :: "health_registry \<Rightarrow> string \<Rightarrow> jserr + ServingStatus" where
  "health_check manager service =
    (let status = resolveServiceStatus manager service in
     if status = SERVICE_UNKNOWN then Inl (connect_error (''Service '' @ service @ '' not found'') code_NotFound)
     else Inr status)"

datatype wait_end = Elapsed health_registry | AbortError | WaitFailed jserr

datatype watch_end = WatchPending | WatchDone | WatchThrew jserr

fun watch_loop :: "string \<Rightarrow> ServingStatus \<Rightarrow> (bool \<times> wait_end) list \<Rightarrow> ServingStatus list \<times> watch_end" where
  "watch_loop service currentStatus [] = ([], WatchPending)"
| "watch_loop service currentStatus ((aborted, w) # ws) =
    (if aborted then ([], WatchDone)
     else case w of
       AbortError \<Rightarrow> ([], WatchDone)
     | WaitFailed err \<Rightarrow> ([], WatchThrew err)
     | Elapsed manager \<Rightarrow>
         (let newStatus = resolveServiceStatus manager service in
          if newStatus \<noteq> currentStatus
            then (case watch_loop service newStatus ws of (ys, r) \<Rightarrow> (newStatus # ys, r))
          else watch_loop service currentStatus ws))"

definition health_watch :: "health_registry \<Rightarrow> string \<Rightarrow> (bool \<times> wait_end) list \<Rightarrow> ServingStatus list \<times> watch_end" where
  "health_watch manager service waits =
    (let currentStatus = resolveServiceStatus manager service in
     case watch_loop service currentStatus waits of (ys, r) \<Rightarrow> (currentStatus # ys, r))"

definition healthcheck_register :: "(string list) list \<Rightarrow> unit health_io" where
  "healthcheck_register registry = hm_initialize (concat registry)"

section \<open>httpHandler.ts\<close>

definition STATUS_TO_HTTP :: "ServingStatus \<Rightarrow> nat option" where
  "STATUS_TO_HTTP s = map_of [(SERVING, 200), (NOT_SERVING, 503), (SERVICE_UNKNOWN, 404), (UNKNOWN, 503)] s"

definition STATUS_NAMES :: "ServingStatus \<Rightarrow> string option" where
  "STATUS_NAMES s = map_of [(UNKNOWN, ''UNKNOWN''), (SERVING, ''SERVING''), (NOT_SERVING, ''NOT_SERVING''),
    (SERVICE_UNKNOWN, ''SERVICE_UNKNOWN'')] s"

definition DEFAULT_HTTP_PATHS :: "string list" where
  "DEFAULT_HTTP_PATHS = [''/healthz'', ''/health'', ''/readyz'']"

record http_health_response =
  hr_statusCode :: nat
  hr_contentType :: string
  hr_status :: string
  hr_service :: string
  hr_timestamp :: string

definition parseServiceFromUrl ::
  "(string \<Rightarrow> string \<Rightarrow> string option option) \<Rightarrow> string option \<Rightarrow> string option \<Rightarrow> string option" where
  "parseServiceFromUrl url_query url host = (case url of
      None \<Rightarrow> None
    | Some u \<Rightarrow> if u = [] then None
        else (case url_query u (''http://'' @ dflt host ''localhost'') of
            Some service \<Rightarrow> service
          | None \<Rightarrow> None))"

definition createHttpHealthHandler ::
  "(string \<Rightarrow> string \<Rightarrow> string option option) \<Rightarrow> string \<Rightarrow> health_registry \<Rightarrow> string list option \<Rightarrow>
    string option \<Rightarrow> string option \<Rightarrow> http_health_response option" where
  "createHttpHealthHandler url_query now manager healthPaths req_url host =
    (let url = dflt req_url [];
         pathname = takeWhile (\<lambda>c. c \<noteq> CHR ''?'') url in
     if pathname \<notin> set (dflt healthPaths DEFAULT_HTTP_PATHS) then None
     else (let service = parseServiceFromUrl url_query (Some url) host;
               named = (case service of None \<Rightarrow> False | Some s \<Rightarrow> s \<noteq> []);
               serviceStatus = (if named then hm_getStatus (the service) manager else None);
               status = (if named \<and> serviceStatus = None then SERVICE_UNKNOWN
                 else case serviceStatus of Some s \<Rightarrow> s
                   | None \<Rightarrow> if hm_areAllHealthy manager then SERVING else NOT_SERVING)
           in Some \<lparr>hr_statusCode = dflt (STATUS_TO_HTTP status) 503, hr_contentType = ''application/json'',
                hr_status = dflt (STATUS_NAMES status) ''UNKNOWN'', hr_service = dflt service ''overall'',
                hr_timestamp = now\<rparr>))"

section \<open>The registry's invariant\<close>

definition health_entry_ok :: "string \<times> HealthEntry \<Rightarrow> bool" where
  "health_entry_ok ke = (he_kind (snd ke) = SERVICE \<or> (fst ke \<noteq> [] \<and> CHR ''.'' \<notin> set (fst ke)))"

definition health_ok :: "health_registry \<Rightarrow> bool" where
  "health_ok entries \<longleftrightarrow> om_ok entries \<and> list_all health_entry_ok entries"

lemma health_okI: "om_ok es \<Longrightarrow> (\<And>k e. (k, e) \<in> set es \<Longrightarrow> health_entry_ok (k, e)) \<Longrightarrow> health_ok es"
  by (auto simp: health_ok_def list_all_iff)

lemma health_ok_nil [simp]: "health_ok []"
  by (simp add: health_ok_def)

lemma set_om_set: "x \<in> set (om_set k v m) \<Longrightarrow> x = (k, v) \<or> x \<in> set m"
  unfolding om_set_def by (induction m) (auto split: if_splits)

lemma health_ok_om_set: "health_ok es \<Longrightarrow> health_entry_ok (k, e) \<Longrightarrow> health_ok (om_set k e es)"
  by (auto simp: health_ok_def list_all_iff dest: set_om_set)

lemma health_ok_om_del: "health_ok es \<Longrightarrow> health_ok (om_del k es)"
  by (auto simp: health_ok_def list_all_iff om_del_def AList.delete_eq intro: om_ok_del [unfolded om_del_def AList.delete_eq])

lemma health_ok_filter: "health_ok es \<Longrightarrow> health_ok (filter P es)"
  by (auto simp: health_ok_def list_all_iff om_ok_def distinct_map inj_on_def)

lemma health_ok_entry: "health_ok es \<Longrightarrow> om_get es k = Some e \<Longrightarrow> health_entry_ok (k, e)"
  by (auto simp: health_ok_def list_all_iff om_get_def dest: map_of_SomeD)

lemma valid_component_ok:
  "assertValidComponentName c = Inr u \<Longrightarrow> health_entry_ok (c, health_entry s COMPONENT)"
  by (auto simp: assertValidComponentName_def health_entry_ok_def split: if_splits)

lemma hm_update_ok: "health_ok es \<Longrightarrow> health_ok (snd (hm_update s n es))"
proof (cases n)
  case None
  assume "health_ok es"
  thus ?thesis using None
    by (auto simp: hm_update_def health_ok_def list_all_iff om_ok_def health_entry_ok_def comp_def case_prod_beta)
next
  case (Some a)
  assume ok: "health_ok es"
  show ?thesis
  proof (cases "om_get es a")
    case (Some e)
    have "health_entry_ok (a, health_entry s (he_kind e))"
      using health_ok_entry [OF ok Some] by (simp add: health_entry_ok_def)
    thus ?thesis using \<open>n = Some a\<close> Some ok by (simp add: hm_update_def health_ok_om_set)
  qed (use \<open>n = Some a\<close> ok in \<open>simp add: hm_update_def\<close>)
qed

lemma hm_register_ok: "health_ok es \<Longrightarrow> health_ok (snd (hm_register n s es))"
  by (auto simp: hm_register_def intro!: health_ok_om_set valid_component_ok split: sum.split option.split)

lemma hm_set_ok: "health_ok es \<Longrightarrow> health_ok (snd (hm_set n s es))"
  by (auto simp: hm_set_def intro!: health_ok_om_set valid_component_ok split: sum.split option.split)

lemma hm_unregister_ok: "health_ok es \<Longrightarrow> health_ok (snd (hm_unregister n es))"
  by (auto simp: hm_unregister_def intro!: health_ok_om_del split: option.split)

lemma init_fold_ok:
  "health_ok es \<Longrightarrow> health_ok (fold (\<lambda>name es. case om_get es name of
      None \<Rightarrow> om_set name (health_entry UNKNOWN SERVICE) es | Some _ \<Rightarrow> es) ns es)"
proof (induction ns arbitrary: es)
  case (Cons n ns)
  have "health_ok (case om_get es n of None \<Rightarrow> om_set n (health_entry UNKNOWN SERVICE) es | Some _ \<Rightarrow> es)"
    using Cons.prems by (auto intro!: health_ok_om_set simp: health_entry_ok_def split: option.split)
  from Cons.IH [OF this] show ?case by simp
qed simp

lemma hm_initialize_ok: "health_ok es \<Longrightarrow> health_ok (snd (hm_initialize ns es))"
  by (simp add: hm_initialize_def init_fold_ok health_ok_filter)

lemma health_run_ok: "health_ok es \<Longrightarrow> health_ok (snd (health_run op es))"
  by (cases op) (simp_all add: hm_update_ok hm_register_ok hm_set_ok hm_unregister_ok hm_initialize_ok hm_clear_def)

lemma health_runs_ok: "health_ok es \<Longrightarrow> health_ok (health_runs ops es)"
  unfolding health_runs_def by (induction ops arbitrary: es) (auto intro: health_run_ok)

section \<open>Initialization\<close>

lemma om_get_filter:
  "om_ok es \<Longrightarrow> om_get (filter P es) k =
    (case om_get es k of None \<Rightarrow> None | Some e \<Rightarrow> if P (k, e) then Some e else None)"
proof (induction es)
  case (Cons x es)
  obtain a b where x: "x = (a, b)" by (cases x)
  have "a \<notin> fst ` set es" using Cons.prems x by (simp add: om_ok_def)
  hence "om_get es a = None" by (simp add: om_get_def map_of_eq_None_iff)
  moreover have "om_get (filter P es) k =
    (case om_get es k of None \<Rightarrow> None | Some e \<Rightarrow> if P (k, e) then Some e else None)"
    using Cons by (simp add: om_ok_def)
  ultimately show ?case by (auto simp: x om_get_cons split: option.splits)
qed simp

lemma init_fold_get:
  "om_get (fold (\<lambda>name es. case om_get es name of
      None \<Rightarrow> om_set name (health_entry UNKNOWN SERVICE) es | Some _ \<Rightarrow> es) ns es) k =
    (case om_get es k of Some e \<Rightarrow> Some e
      | None \<Rightarrow> if k \<in> set ns then Some (health_entry UNKNOWN SERVICE) else None)"
  by (induction ns arbitrary: es) (auto split: option.split)

lemma hm_initialize_get:
  assumes "om_ok es"
  shows "om_get (snd (hm_initialize ns es)) k = (case om_get es k of
      Some e \<Rightarrow> if he_kind e = COMPONENT \<or> k \<in> set ns then Some e else None
    | None \<Rightarrow> if k \<in> set ns then Some (health_entry UNKNOWN SERVICE) else None)"
proof -
  have "he_kind e = COMPONENT \<longleftrightarrow> he_kind e \<noteq> SERVICE" for e :: HealthEntry
    by (cases "he_kind e") auto
  thus ?thesis using assms
    by (auto simp: hm_initialize_def init_fold_get om_get_filter split: option.split)
qed

text \<open>C37. Whatever operations a health manager runs from the empty registry, its names stay distinct
  and a component's name is non-empty and free of dots; when the protocol then initializes it with the
  server's services, every component keeps its entry, every listed service keeps its status or appears
  as UNKNOWN, and a service that is no longer listed is gone, so it cannot stay SERVING.\<close>
theorem health_registry_contract:
  "health_ok (health_runs ops []) \<and>
   om_get (health_runs (ops @ [OpInitialize names]) []) k = (case om_get (health_runs ops []) k of
      Some e \<Rightarrow> if he_kind e = COMPONENT \<or> k \<in> set names then Some e else None
    | None \<Rightarrow> if k \<in> set names then Some (health_entry UNKNOWN SERVICE) else None)"
proof -
  have ok: "health_ok (health_runs ops [])" by (rule health_runs_ok) simp
  have "health_runs (ops @ [OpInitialize names]) [] = snd (hm_initialize names (health_runs ops []))"
    by (simp add: health_runs_def)
  thus ?thesis using ok hm_initialize_get [of "health_runs ops []" names k] by (simp add: health_ok_def)
qed

section \<open>The endpoints\<close>

lemma watch_loop_elapsed:
  "watch_loop service cur (map (\<lambda>m. (False, Elapsed m)) ms @ [(b, AbortError)]) =
    (tl (remdups_adj (cur # map (\<lambda>m. resolveServiceStatus m service) ms)), WatchDone)"
  by (induction ms arbitrary: cur) (auto simp: Let_def remdups_adj_Cons split: list.splits)

lemma remdups_adj_hd_tl: "x # tl (remdups_adj (x # xs)) = remdups_adj (x # xs)"
  by (induction xs arbitrary: x) (auto simp: remdups_adj_Cons split: list.splits)

lemma http_status_resolved:
  assumes "takeWhile (\<lambda>c. c \<noteq> CHR ''?'') url \<in> set (dflt paths DEFAULT_HTTP_PATHS)"
    "parseServiceFromUrl q (Some url) host = service"
  shows "createHttpHealthHandler q now m paths (Some url) host =
    (let status = resolveServiceStatus m (dflt service []) in
     Some \<lparr>hr_statusCode = dflt (STATUS_TO_HTTP status) 503, hr_contentType = ''application/json'',
       hr_status = dflt (STATUS_NAMES status) ''UNKNOWN'', hr_service = dflt service ''overall'', hr_timestamp = now\<rparr>)"
  using assms
  by (auto simp: createHttpHealthHandler_def Let_def resolveServiceStatus_def dflt_def hm_getStatus_def
      split: option.split)

lemma http_code_check:
  "dflt (STATUS_TO_HTTP (resolveServiceStatus m s)) 503 =
    (case health_check m s of Inl e \<Rightarrow> 404 | Inr st \<Rightarrow> if st = SERVING then 200 else 503)"
  by (cases "resolveServiceStatus m s") (simp_all add: health_check_def STATUS_TO_HTTP_def dflt_def)

text \<open>The three views of one service's health agree: the HTTP endpoint answers 404 exactly when
  Check throws NotFound, 200 exactly when Check answers SERVING and 503 otherwise; and Watch, polled
  over any sequence of registries until its client goes away, sends the initial status and then
  exactly the changes, and ends.\<close>
theorem health_endpoints_agree:
  assumes "takeWhile (\<lambda>c. c \<noteq> CHR ''?'') url \<in> set (dflt paths DEFAULT_HTTP_PATHS)"
    and "service = dflt (parseServiceFromUrl url_query (Some url) host) []"
  shows "map_option hr_statusCode (createHttpHealthHandler url_query now m paths (Some url) host) =
      Some (case health_check m service of Inl e \<Rightarrow> 404 | Inr st \<Rightarrow> if st = SERVING then 200 else 503) \<and>
    health_watch m service (map (\<lambda>m'. (False, Elapsed m')) ms @ [(b, AbortError)]) =
      (remdups_adj (map (\<lambda>m'. resolveServiceStatus m' service) (m # ms)), WatchDone)"
  by (simp_all add: http_status_resolved [OF assms(1) refl] assms(2) Let_def http_code_check
      health_watch_def watch_loop_elapsed remdups_adj_hd_tl)

lemma health_endpoints_agree_witness:
  "map_option hr_statusCode (createHttpHealthHandler (\<lambda>u h. Some (Some ''db'')) ''now''
      [(''db'', health_entry SERVING COMPONENT)] None (Some ''/healthz?service=db'') None) = Some 200 \<and>
   health_watch [(''db'', health_entry SERVING COMPONENT)] ''db''
      (map (\<lambda>m. (False, Elapsed m)) [[(''db'', health_entry SERVING COMPONENT)], []] @ [(False, AbortError)]) =
      ([SERVING, SERVICE_UNKNOWN], WatchDone)"
proof -
  let ?m = "[(''db'', health_entry SERVING COMPONENT)]"
  have p: "takeWhile (\<lambda>c. c \<noteq> CHR ''?'') ''/healthz?service=db'' \<in> set (dflt None DEFAULT_HTTP_PATHS)"
    by (simp add: dflt_def DEFAULT_HTTP_PATHS_def)
  have s: "''db'' = dflt (parseServiceFromUrl (\<lambda>u h. Some (Some ''db'')) (Some ''/healthz?service=db'') None) []"
    by (simp add: parseServiceFromUrl_def dflt_def)
  show ?thesis
    using health_endpoints_agree [OF p s, where now = "''now''" and m = "?m" and ms = "[?m, []]" and b = False]
    by (simp add: health_check_def resolveServiceStatus_def hm_getStatus_def dflt_def om_get_cons)
qed

end
