(* ===== verification/Config.thy ===== *)
theory Config
  imports Complex_Main Prelude Connect
begin

text \<open>
  packages/core/src/config/envSchema.ts and TLSConfig.ts. A schema of the validator zod is the tree of its
  combinators, as the source writes it; the validator and env-var are parameters, and zod_field_laws is what
  is documented of the combinators. File system and path resolution are parameters.
\<close>

section \<open>The environment schema (core/src/config/envSchema.ts)\<close>

type_synonym env_vars = "(string, string) omap"

datatype zvalue = ZUndefined | ZString string | ZNumber rat | ZBoolean bool

datatype zschema = Z_string | Z_enum "string list" | Z_coerce_number | Z_min zschema rat | Z_max zschema rat
  | Z_url zschema | Z_default zschema zvalue | Z_optional zschema | Z_transform zschema "zvalue \<Rightarrow> zvalue"

definition LogLevelSchema :: zschema where
  "LogLevelSchema = Z_default (Z_enum [''debug'', ''info'', ''warn'', ''error'']) (ZString ''info'')"

definition LogFormatSchema :: zschema where
  "LogFormatSchema = Z_default (Z_enum [''json'', ''pretty'']) (ZString ''json'')"

definition LoggerBackendSchema :: zschema where
  "LoggerBackendSchema = Z_default (Z_enum [''otel'', ''pino'', ''console'']) (ZString ''otel'')"

definition NodeEnvSchema :: zschema where
  "NodeEnvSchema = Z_default (Z_enum [''development'', ''production'', ''test'']) (ZString ''development'')"

definition boolean_of :: "zvalue \<Rightarrow> zvalue" where
  "boolean_of v = ZBoolean (v = ZString ''true'' \<or> v = ZString ''1'' \<or> v = ZString ''yes'')"

definition BooleanFromStringSchema :: zschema where
  "BooleanFromStringSchema = Z_transform (Z_default
     (Z_enum [''true'', ''false'', ''1'', ''0'', ''yes'', ''no'']) (ZString ''false'')) boolean_of"

definition ConnectumEnvSchema :: "(string \<times> zschema) list" where
  "ConnectumEnvSchema = [
     (''PORT'', Z_default (Z_max (Z_min Z_coerce_number 1) 65535) (ZNumber 5000)),
     (''LISTEN'', Z_default Z_string (ZString ''0.0.0.0'')),
     (''LOG_LEVEL'', LogLevelSchema),
     (''LOG_FORMAT'', LogFormatSchema),
     (''LOG_BACKEND'', LoggerBackendSchema),
     (''NODE_ENV'', NodeEnvSchema),
     (''HTTP_HEALTH_ENABLED'', BooleanFromStringSchema),
     (''HTTP_HEALTH_PATH'', Z_default Z_string (ZString ''/healthz'')),
     (''OTEL_SERVICE_NAME'', Z_optional Z_string),
     (''OTEL_EXPORTER_OTLP_ENDPOINT'', Z_optional (Z_url Z_string)),
     (''GRACEFUL_SHUTDOWN_ENABLED'', Z_transform (Z_default
        (Z_enum [''true'', ''false'', ''1'', ''0'', ''yes'', ''no'']) (ZString ''true'')) boolean_of),
     (''GRACEFUL_SHUTDOWN_TIMEOUT_MS'', Z_default (Z_max (Z_min Z_coerce_number 0) 300000) (ZNumber 30000))]"

type_synonym zod_parser = "(string \<times> zschema) list \<Rightarrow> env_vars \<Rightarrow> jserr + (string, zvalue) omap"

definition safeParseEnvConfig :: "zod_parser \<Rightarrow> env_vars option \<Rightarrow> env_vars \<Rightarrow> jserr + (string, zvalue) omap" where
  "safeParseEnvConfig zod env processEnv = zod ConnectumEnvSchema (dflt env processEnv)"

definition parseEnvConfig :: "zod_parser \<Rightarrow> env_vars option \<Rightarrow> env_vars \<Rightarrow> ('s, jserr, (string, zvalue) omap) io" where
  "parseEnvConfig zod env processEnv = io_lift (zod ConnectumEnvSchema (dflt env processEnv))"

text \<open>
  What is documented of zod: an object is parsed field by field, and each combinator refines the one below.
\<close>

definition zod_field_laws :: "(zschema \<Rightarrow> zvalue \<Rightarrow> zvalue option) \<Rightarrow> bool" where
  "zod_field_laws field \<longleftrightarrow>
    (\<forall>ws v x. field (Z_enum ws) v = Some x \<longrightarrow> x = v \<and> (\<exists>w. v = ZString w \<and> w \<in> set ws)) \<and>
    (\<forall>v x. field Z_coerce_number v = Some x \<longrightarrow> (\<exists>n. x = ZNumber n)) \<and>
    (\<forall>sc m v x. field (Z_min sc m) v = Some x \<longrightarrow> field sc v = Some x \<and> (\<forall>n. x = ZNumber n \<longrightarrow> m \<le> n)) \<and>
    (\<forall>sc m v x. field (Z_max sc m) v = Some x \<longrightarrow> field sc v = Some x \<and> (\<forall>n. x = ZNumber n \<longrightarrow> n \<le> m)) \<and>
    (\<forall>sc d v x. field (Z_default sc d) v = Some x \<longrightarrow> (v = ZUndefined \<longrightarrow> x = d) \<and> (v \<noteq> ZUndefined \<longrightarrow> field sc v = Some x)) \<and>
    (\<forall>sc f v x. field (Z_transform sc f) v = Some x \<longrightarrow> (\<exists>y. field sc v = Some y \<and> x = f y))"

definition env_value :: "env_vars \<Rightarrow> string \<Rightarrow> zvalue" where
  "env_value env name = (case om_get env name of None \<Rightarrow> ZUndefined | Some v \<Rightarrow> ZString v)"

definition zod_object_law :: "(zschema \<Rightarrow> zvalue \<Rightarrow> zvalue option) \<Rightarrow> zod_parser \<Rightarrow> bool" where
  "zod_object_law field zod \<longleftrightarrow> (\<forall>obj env cfg. zod obj env = Inr cfg \<longrightarrow>
    (\<forall>(name, sc) \<in> set obj. \<exists>x. field sc (env_value env name) = Some x \<and> om_get cfg name = Some x))"

lemma zod_combinators:
  assumes "zod_field_laws field"
  shows zod_enum: "field (Z_enum ws) v = Some x \<Longrightarrow> x = v \<and> (\<exists>w. v = ZString w \<and> w \<in> set ws)"
    and zod_coerce: "field Z_coerce_number v = Some x \<Longrightarrow> \<exists>n. x = ZNumber n"
    and zod_min: "field (Z_min sc m) v = Some x \<Longrightarrow> field sc v = Some x \<and> (\<forall>n. x = ZNumber n \<longrightarrow> m \<le> n)"
    and zod_max: "field (Z_max sc m) v = Some x \<Longrightarrow> field sc v = Some x \<and> (\<forall>n. x = ZNumber n \<longrightarrow> n \<le> m)"
    and zod_default: "field (Z_default sc d) v = Some x \<Longrightarrow> (v = ZUndefined \<longrightarrow> x = d) \<and> (v \<noteq> ZUndefined \<longrightarrow> field sc v = Some x)"
    and zod_transform: "field (Z_transform sc f) v = Some x \<Longrightarrow> \<exists>y. field sc v = Some y \<and> x = f y"
  using assms unfolding zod_field_laws_def by (elim conjE; metis)+

lemma zod_bounded:
  assumes "zod_field_laws field" and "field (Z_default (Z_max (Z_min Z_coerce_number lo) hi) (ZNumber d)) v = Some x"
    and "lo \<le> d" and "d \<le> hi"
  shows "\<exists>n. x = ZNumber n \<and> lo \<le> n \<and> n \<le> hi"
proof (cases "v = ZUndefined")
  case True
  then show ?thesis using zod_default[OF assms(1,2)] assms(3,4) by simp
next
  case False
  then have mx: "field (Z_max (Z_min Z_coerce_number lo) hi) v = Some x" using zod_default[OF assms(1,2)] by simp
  have mn: "field (Z_min Z_coerce_number lo) v = Some x" using zod_max[OF assms(1) mx] by simp
  obtain n where n: "x = ZNumber n" using zod_coerce[OF assms(1)] zod_min[OF assms(1) mn] by blast
  show ?thesis using n zod_max[OF assms(1) mx] zod_min[OF assms(1) mn] by simp
qed

lemma zod_boolean:
  assumes "zod_field_laws field" and "field (Z_transform sc boolean_of) v = Some x"
  shows "\<exists>b. x = ZBoolean b"
  using zod_transform[OF assms] by (auto simp: boolean_of_def)

lemma zod_choice:
  assumes "zod_field_laws field" and "field (Z_default (Z_enum ws) (ZString d)) v = Some x" and "d \<in> set ws"
  shows "\<exists>w. x = ZString w \<and> w \<in> set ws"
  using zod_default[OF assms(1,2)] zod_enum[OF assms(1)] assms(3) by (cases "v = ZUndefined") fastforce+

lemma schema_fields:
  "(''PORT'', Z_default (Z_max (Z_min Z_coerce_number 1) 65535) (ZNumber 5000)) \<in> set ConnectumEnvSchema"
  "(''LOG_LEVEL'', LogLevelSchema) \<in> set ConnectumEnvSchema"
  "(''HTTP_HEALTH_ENABLED'', BooleanFromStringSchema) \<in> set ConnectumEnvSchema"
  "(''GRACEFUL_SHUTDOWN_TIMEOUT_MS'', Z_default (Z_max (Z_min Z_coerce_number 0) 300000) (ZNumber 30000)) \<in> set ConnectumEnvSchema"
  unfolding ConnectumEnvSchema_def list.set by (intro insertI1 insertI2)+

lemma zod_parsed_field:
  assumes "zod_object_law field zod" and "safeParseEnvConfig zod env processEnv = Inr cfg" and "(name, sc) \<in> set ConnectumEnvSchema"
  obtains x where "field sc (env_value (dflt env processEnv) name) = Some x" and "om_get cfg name = Some x"
  using assms unfolding safeParseEnvConfig_def zod_object_law_def by fast

lemma parsed_port_in_range:
  assumes "zod_field_laws field" and "zod_object_law field zod" and "safeParseEnvConfig zod env processEnv = Inr cfg"
  shows "\<exists>n. om_get cfg ''PORT'' = Some (ZNumber n) \<and> 1 \<le> n \<and> n \<le> 65535"
proof -
  obtain x where x: "field (Z_default (Z_max (Z_min Z_coerce_number 1) 65535) (ZNumber 5000))
      (env_value (dflt env processEnv) ''PORT'') = Some x" "om_get cfg ''PORT'' = Some x"
    using zod_parsed_field[OF assms(2,3) schema_fields(1)] .
  show ?thesis using zod_bounded[OF assms(1) x(1)] x(2) by simp
qed

lemma parsed_timeout_in_range:
  assumes "zod_field_laws field" and "zod_object_law field zod" and "safeParseEnvConfig zod env processEnv = Inr cfg"
  shows "\<exists>n. om_get cfg ''GRACEFUL_SHUTDOWN_TIMEOUT_MS'' = Some (ZNumber n) \<and> 0 \<le> n \<and> n \<le> 300000"
proof -
  obtain x where x: "field (Z_default (Z_max (Z_min Z_coerce_number 0) 300000) (ZNumber 30000))
      (env_value (dflt env processEnv) ''GRACEFUL_SHUTDOWN_TIMEOUT_MS'') = Some x"
      "om_get cfg ''GRACEFUL_SHUTDOWN_TIMEOUT_MS'' = Some x"
    using zod_parsed_field[OF assms(2,3) schema_fields(4)] .
  show ?thesis using zod_bounded[OF assms(1) x(1)] x(2) by simp
qed

lemma parsed_log_level:
  assumes "zod_field_laws field" and "zod_object_law field zod" and "safeParseEnvConfig zod env processEnv = Inr cfg"
  shows "\<exists>l. om_get cfg ''LOG_LEVEL'' = Some (ZString l) \<and> l \<in> set [''debug'', ''info'', ''warn'', ''error'']"
proof -
  obtain x where x: "field LogLevelSchema (env_value (dflt env processEnv) ''LOG_LEVEL'') = Some x" "om_get cfg ''LOG_LEVEL'' = Some x"
    using zod_parsed_field[OF assms(2,3) schema_fields(2)] .
  show ?thesis using zod_choice[OF assms(1) x(1)[unfolded LogLevelSchema_def]] x(2) by force
qed

lemma parsed_health_flag:
  assumes "zod_field_laws field" and "zod_object_law field zod" and "safeParseEnvConfig zod env processEnv = Inr cfg"
  shows "\<exists>b. om_get cfg ''HTTP_HEALTH_ENABLED'' = Some (ZBoolean b)"
proof -
  obtain x where x: "field BooleanFromStringSchema (env_value (dflt env processEnv) ''HTTP_HEALTH_ENABLED'') = Some x"
      "om_get cfg ''HTTP_HEALTH_ENABLED'' = Some x"
    using zod_parsed_field[OF assms(2,3) schema_fields(3)] .
  show ?thesis using zod_boolean[OF assms(1) x(1)[unfolded BooleanFromStringSchema_def]] x(2) by auto
qed

section \<open>Certificates (core/src/TLSConfig.ts)\<close>

record tls_options =
  to_keyPath :: "string option"
  to_certPath :: "string option"
  to_dirPath :: "string option"

definition nonempty :: "string option \<Rightarrow> bool" where
  "nonempty v \<longleftrightarrow> (case v of Some s \<Rightarrow> s \<noteq> [] | None \<Rightarrow> False)"

definition getTLSPath :: "(string \<Rightarrow> string \<Rightarrow> env_vars \<Rightarrow> string) \<Rightarrow> (string list \<Rightarrow> string) \<Rightarrow> string \<Rightarrow> env_vars \<Rightarrow> string" where
  "getTLSPath envGet resolvePath rootPath e =
    (let defaultPath = (if om_get e ''NODE_ENV'' = Some ''production'' then rootPath else resolvePath [rootPath, ''../../../keys''])
     in envGet ''TLS_DIR_PATH'' defaultPath e)"

definition readTLSCertificates :: "(string \<Rightarrow> string \<Rightarrow> env_vars \<Rightarrow> string) \<Rightarrow> (string list \<Rightarrow> string) \<Rightarrow> (string \<Rightarrow> ('s, jserr, 'b) io) \<Rightarrow> ('s \<Rightarrow> string) \<Rightarrow> ('s \<Rightarrow> env_vars) \<Rightarrow>
    tls_options \<Rightarrow> ('s, jserr, 'b \<times> 'b) io" where
  "readTLSCertificates envGet resolvePath readFile cwd e opts = (\<lambda>s.
    if nonempty (to_keyPath opts) \<and> nonempty (to_certPath opts)
    then io_bind (readFile (resolvePath [dflt (to_keyPath opts) []])) (\<lambda>key.
         io_bind (readFile (resolvePath [dflt (to_certPath opts) []])) (\<lambda>cert. io_return (key, cert))) s
    else (let dir = resolvePath [dflt (to_dirPath opts) (getTLSPath envGet resolvePath (cwd s) (e s))] in
         io_bind (readFile (dir @ ''/server.key'')) (\<lambda>key.
         io_bind (readFile (dir @ ''/server.crt'')) (\<lambda>cert. io_return (key, cert))) s))"

lemma certificates_by_explicit_paths:
  assumes "nonempty (to_keyPath opts)" and "nonempty (to_certPath opts)"
  shows "readTLSCertificates envGet resolvePath readFile cwd e opts =
    readTLSCertificates envGet' resolvePath readFile cwd' e' (opts\<lparr>to_dirPath := d\<rparr>)"
  using assms by (simp add: readTLSCertificates_def fun_eq_iff)

end
