(* ===== verification/LocalTransport.thy ===== *)
theory LocalTransport
  imports Prelude Connect
begin

text \<open>
  packages/core/src/localTransport.ts and the two transports of core/src/Server.ts that it makes. The router transport
  of the Connect library is a parameter: it is given the routes, the interceptors of the client side and those
  of the server side.
\<close>

section \<open>In-process transport (core/src/localTransport.ts)\<close>

record ('s, 'm, 'r) server_internals =
  si_getRoutesCallback :: 'r
  si_getServerInterceptors :: "('s, 'm) interceptor list"

type_synonym ('s, 'm, 'r, 't) router_transport = "'r \<Rightarrow> ('s, 'm) interceptor list \<Rightarrow> ('s, 'm) interceptor list \<Rightarrow> 't"

definition asInternals :: "('s, 'm, 'r) server_internals option \<Rightarrow> jserr + ('s, 'm, 'r) server_internals" where
  "asInternals server = (case server of
      None \<Rightarrow> Inl (type_error ''createLocalTransport: argument is not a Connectum Server instance (missing internal accessors).'')
    | Some candidate \<Rightarrow> Inr candidate)"

definition createLocalTransport :: "('s, 'm, 'r, 't) router_transport \<Rightarrow> ('s, 'm, 'r) server_internals option \<Rightarrow>
    ('s, 'm) interceptor list option \<Rightarrow> jserr + 't" where
  "createLocalTransport createRouterTransport server interceptors = res_bind (asInternals server) (\<lambda>internals.
    Inr (createRouterTransport (si_getRoutesCallback internals)
      (localTransportMarkerInterceptor # dflt interceptors []) (si_getServerInterceptors internals)))"

lemma local_calls_reach_server_chain_marked:
  assumes "createLocalTransport createRouterTransport (Some si) None = Inr transport"
    and "\<And>cs ss. call (createRouterTransport (si_getRoutesCallback si) cs ss) = run_chain cs (run_chain ss (handler si))"
  shows "\<exists>h. call transport r = run_chain (si_getServerInterceptors si) (handler si) (r\<lparr>rq_header := h\<rparr>) \<and>
    isLocalTransport h"
proof -
  have v: "hd_normalize LOCAL_TRANSPORT_VALUE = LOCAL_TRANSPORT_VALUE"
    by (simp add: LOCAL_TRANSPORT_VALUE_def hd_normalize_def http_ws_def)
  obtain h where h: "hd_set LOCAL_TRANSPORT_HEADER LOCAL_TRANSPORT_VALUE (rq_header r) = Inr h"
    using hd_set_Inr_iff [of LOCAL_TRANSPORT_HEADER LOCAL_TRANSPORT_VALUE "rq_header r"] v
    by (auto simp: hd_value_ok_def LOCAL_TRANSPORT_VALUE_def)
  then have "hd_get h LOCAL_TRANSPORT_HEADER = Some LOCAL_TRANSPORT_VALUE"
    using hd_set_get v by metis
  moreover have "call transport r = run_chain (si_getServerInterceptors si) (handler si) (r\<lparr>rq_header := h\<rparr>)"
    using assms h by (auto simp: createLocalTransport_def asInternals_def dflt_def localTransportMarkerInterceptor_def)
  ultimately show ?thesis by (auto simp: isLocalTransport_def)
qed

section \<open>The transports of a server (core/src/Server.ts)\<close>

record 't server_transports =
  tr_localTransport :: "'t option"
  tr_catalogLocalTransport :: "'t option"

definition localClient :: "('i list option \<Rightarrow> ('s, jserr, 't) io) \<Rightarrow> ('d \<Rightarrow> 't \<Rightarrow> 'c) \<Rightarrow> 'd \<Rightarrow>
    ('t server_transports \<times> 's, jserr, 'c) io" where
  "localClient makeTransport createClient service = (\<lambda>(st, s). case tr_localTransport st of
      Some transport \<Rightarrow> (Inr (createClient service transport), (st, s))
    | None \<Rightarrow> (case makeTransport None s of
        (Inl e, s') \<Rightarrow> (Inl e, (st, s'))
      | (Inr transport, s') \<Rightarrow> (Inr (createClient service transport), (st\<lparr>tr_localTransport := Some transport\<rparr>, s'))))"

definition getCatalogLocalTransport :: "('i list option \<Rightarrow> ('s, jserr, 't) io) \<Rightarrow> 'i list \<Rightarrow> ('t server_transports \<times> 's, jserr, 't) io" where
  "getCatalogLocalTransport makeTransport outgoingInterceptors = (\<lambda>(st, s). case tr_catalogLocalTransport st of
      Some transport \<Rightarrow> (Inr transport, (st, s))
    | None \<Rightarrow> (case makeTransport (Some outgoingInterceptors) s of
        (Inl e, s') \<Rightarrow> (Inl e, (st, s'))
      | (Inr transport, s') \<Rightarrow> (Inr transport, (st\<lparr>tr_catalogLocalTransport := Some transport\<rparr>, s'))))"

lemma local_transports_are_built_once:
  assumes "localClient makeTransport createClient d (st, s) = (Inr c, (st', s'))"
    and "getCatalogLocalTransport makeTransport out (st', s') = (Inr t, (st'', s''))"
  shows "localClient makeTransport createClient d' (st'', w) = (Inr (createClient d' (the (tr_localTransport st'))), (st'', w)) \<and>
    getCatalogLocalTransport makeTransport out (st'', w) = (Inr t, (st'', w)) \<and>
    c = createClient d (the (tr_localTransport st'))"
  using assms by (auto simp: localClient_def getCatalogLocalTransport_def split: option.splits prod.splits sum.splits)

end
