(* ===== verification/CatalogContext.thy ===== *)
theory CatalogContext
  imports Prelude Connect Descriptors Dispatcher
begin

text \<open>
  What the users of catalog dispatch see: the context that a handler gets (wrapHandlers and makeContext of
  core/src/catalogDispatcher.ts, core/src/context.ts), and the client outside a server (core/src/catalogClient.ts).
  Both are built from the operations of Dispatcher.
\<close>

section \<open>The context of a handler\<close>

definition defaultPropagateHeaders :: "string list" where
  "defaultPropagateHeaders = [''traceparent'', ''tracestate'']"

record ('w, 't, 'sg, 'm) catalog_context =
  cx_hctx :: "'sg handler_context"
  cx_call :: "string \<Rightarrow> 'm \<Rightarrow> 'sg call_options \<Rightarrow> (('w, 't) cached, jserr, 'm) io"
  cx_stream :: "string \<Rightarrow> jserr + stream_handle"

definition makeContext :: "('w, 't) dispatch_host \<Rightarrow> ('w, 't, 'sg, 'm) unary_call \<Rightarrow> 'sg handler_context \<Rightarrow> ('w, 't, 'sg, 'm) catalog_context" where
  "makeContext host unary hctx = \<lparr>cx_hctx = hctx,
    cx_call = (\<lambda>key request options. dispatchUnary host unary key request options hctx),
    cx_stream = makeStreamHandle (dh_catalog host) ''ctx''\<rparr>"

type_synonym ('w, 't, 'sg, 'm) user_impl = "'m \<Rightarrow> ('w, 't, 'sg, 'm) catalog_context \<Rightarrow> (('w, 't) cached, jserr, 'm) io"

definition wrapHandlers :: "('w, 't) dispatch_host \<Rightarrow> ('w, 't, 'sg, 'm) unary_call \<Rightarrow> (string \<times> ('w, 't, 'sg, 'm) user_impl option) list \<Rightarrow>
    (string, 'm \<Rightarrow> 'sg handler_context \<Rightarrow> (('w, 't) cached, jserr, 'm) io) omap" where
  "wrapHandlers host unary handlers = fold (\<lambda>(key, userImpl). case userImpl of
      None \<Rightarrow> id | Some impl \<Rightarrow> om_set key (\<lambda>request hctx. impl request (makeContext host unary hctx))) handlers []"

definition serverStream :: "('w, 't) dispatch_host \<Rightarrow> (('w, 't) cached, 't, 'sg, 'm) stream_call \<Rightarrow> string \<Rightarrow> desc_method \<Rightarrow> 'm \<Rightarrow>
    'sg call_options \<Rightarrow> 'sg handler_context \<Rightarrow> (('w, 't) cached, jserr, 'm list) io" where
  "serverStream host stream typeName m request options hctx = openServerStream (streamResolver host typeName options hctx) stream m request"

definition clientStream :: "('w, 't) dispatch_host \<Rightarrow> string \<Rightarrow> 'sg call_options \<Rightarrow> 'sg handler_context \<Rightarrow>
    (('w, 't) cached, jserr, jserr + ('t target \<times> 'sg call_frame)) io" where
  "clientStream host typeName options hctx = openClientStream (streamResolver host typeName options hctx)"

definition bidiStream :: "('w, 't) dispatch_host \<Rightarrow> (('w, 't) cached, 't, 'sg, 'm) stream_call \<Rightarrow> string \<Rightarrow> desc_method \<Rightarrow> 'm list \<Rightarrow>
    'sg call_options \<Rightarrow> 'sg handler_context \<Rightarrow> (('w, 't) cached, jserr, 'm list) io" where
  "bidiStream host stream typeName m inputs options hctx = openBidiStream (streamResolver host typeName options hctx) stream m inputs"

section \<open>The client outside a server\<close>

record ('w, 't, 'sg, 'm) catalog_client =
  cc_call :: "string \<Rightarrow> 'm \<Rightarrow> 'sg call_options \<Rightarrow> (('w, 't) cached, jserr, 'm) io"
  cc_stream :: "string \<Rightarrow> jserr + stream_handle"

definition client_streamResolver :: "('w, 't) resolver \<Rightarrow> string \<Rightarrow> 'sg call_options \<Rightarrow> (('w, 't) cached, jserr, 't target \<times> 'sg call_frame) io" where
  "client_streamResolver resolver typeName options =
    io_bind (client_resolveTransport resolver typeName (co_endpoint options) ''catalogClient.stream'') (\<lambda>t.
      io_return (t, clientFrame options))"

definition createCatalogClient :: "catalog \<Rightarrow> ('w, 't) resolver \<Rightarrow> ('w, 't, 'sg, 'm) unary_call \<Rightarrow> ('w, 't, 'sg, 'm) catalog_client" where
  "createCatalogClient catalog resolver unary = \<lparr>cc_call = clientCall catalog resolver unary,
    cc_stream = makeStreamHandle (Some catalog) ''catalogClient.stream''\<rparr>"

section \<open>The two agree\<close>

lemma wrapped_handler:
  fixes handlers :: "(string \<times> ('w, 't, 'sg, 'm) user_impl option) list"
  assumes "distinct (map fst handlers)" and "(key, Some impl) \<in> set handlers"
  shows "om_get (wrapHandlers host unary handlers) key = Some (\<lambda>request hctx. impl request (makeContext host unary hctx))"
proof -
  have "om_get (fold (\<lambda>(key, userImpl). case userImpl of None \<Rightarrow> id
          | Some impl \<Rightarrow> om_set key (\<lambda>request hctx. impl request (makeContext host unary hctx))) hs m) key =
      (case find (\<lambda>(k, i). k = key \<and> i \<noteq> None) hs of Some (_, Some impl) \<Rightarrow> Some (\<lambda>request hctx. impl request (makeContext host unary hctx))
        | _ \<Rightarrow> om_get m key)" if "distinct (map fst hs)" for hs :: "(string \<times> ('w, 't, 'sg, 'm) user_impl option) list" and m
    using that
  proof (induction hs arbitrary: m)
    case (Cons h hs)
    obtain k i where h: "h = (k, i)" by (cases h)
    have "k = key \<Longrightarrow> find (\<lambda>(k, i). k = key \<and> i \<noteq> None) hs = None"
      using Cons.prems h by (auto simp: find_None_iff image_iff)
    then show ?case using Cons h by (cases i) (auto split: option.split)
  qed simp
  moreover have "find (\<lambda>(k, i). k = key \<and> i \<noteq> None) handlers = Some (key, Some impl)"
    using assms by (induction handlers) force+
  ultimately show ?thesis using assms(1) by (simp add: wrapHandlers_def)
qed

definition outside_host :: "catalog \<Rightarrow> ('w, 't) resolver \<Rightarrow> ('w, 't) dispatch_host" where
  "outside_host catalog resolver = \<lparr>dh_catalog = Some catalog, dh_propagateHeaders = [], dh_isLocal = (\<lambda>_. False), dh_resolver = Some resolver\<rparr>"

definition same_outcome :: "jserr + 'a \<Rightarrow> jserr + 'a \<Rightarrow> bool" where
  "same_outcome r r' = (case (r, r') of
      (Inr a, Inr b) \<Rightarrow> a = b | (Inl e, Inl e') \<Rightarrow> je_class e = je_class e' \<and> je_code e = je_code e' | _ \<Rightarrow> False)"

lemma same_outcome_refl [simp]: "same_outcome r r"
  by (simp add: same_outcome_def split: sum.split)

lemma lookup_same_outcome: "same_outcome (lookupCatalogMethod c key caller) (lookupCatalogMethod c key caller')"
  by (simp add: lookupCatalogMethod_def same_outcome_def connect_error_def type_error_def split: option.split prod.split)

lemma resolve_same_outcome:
  "same_outcome (fst (client_resolveTransport f t e caller s)) (fst (resolveTransport (\<lambda>_. False) (Some f) t e s)) \<and>
   snd (client_resolveTransport f t e caller s) = snd (resolveTransport (\<lambda>_. False) (Some f) t e s)"
  by (auto simp: client_resolveTransport_def resolveTransport_def resolveRemoteTransport_def resolveRemoteTransportOrThrow_def
      same_outcome_def Let_def no_route_def resolver_threw_def connect_error_def split: option.splits sum.splits prod.splits)

text \<open>A call of the client outside a server has the outcome of the same ctx.call in a server that mounts nothing,
  propagates nothing and has the same resolver: the same response or an error of the same class and code, the same
  transport asked for and the same transports remembered. The transport is one that does not look at the frame, since the
  frame of a handler also carries its signal and values.\<close>
theorem catalog_client_agrees_with_context:
  assumes "\<And>tr m fr fr' x. unary tr m fr x = unary tr m fr' x"
  shows "same_outcome (fst (cc_call (createCatalogClient catalog f unary) key request options s))
      (fst (cx_call (makeContext (outside_host catalog f) unary hctx) key request options s)) \<and>
    snd (cc_call (createCatalogClient catalog f unary) key request options s) =
      snd (cx_call (makeContext (outside_host catalog f) unary hctx) key request options s)"
proof -
  note lk = lookup_same_outcome[of "Some catalog" key "''catalogClient.call''" "''ctx''"]
  have fr: "unary tr m (clientFrame options) request = unary tr m (buildFrame [] hctx options) request" for tr m
    by (rule assms)
  have defs: "cc_call (createCatalogClient catalog f unary) key request options s = clientCall catalog f unary key request options s"
    "cx_call (makeContext (outside_host catalog f) unary hctx) key request options s =
      dispatchUnary (outside_host catalog f) unary key request options hctx s"
    by (simp_all add: createCatalogClient_def makeContext_def)
  show ?thesis
  proof (cases "lookupCatalogMethod (Some catalog) key ''catalogClient.call''")
    case (Inl e)
    then show ?thesis using lk unfolding defs
      by (auto simp: clientCall_def dispatchUnary_def outside_host_def same_outcome_def io_bind_def split: sum.splits)
  next
    case (Inr tm)
    then have lk': "lookupCatalogMethod (Some catalog) key ''ctx'' = Inr tm" using lk by (auto simp: same_outcome_def split: sum.splits)
    obtain t m where tm: "tm = (t, m)" by (cases tm)
    show ?thesis
    proof (cases "dm_kind m = Unary")
      case False
      then show ?thesis using Inr lk' tm unfolding defs
        by (simp add: clientCall_def dispatchUnary_def outside_host_def same_outcome_def connect_error_def)
    next
      case True
      note rs = resolve_same_outcome[of f t "co_endpoint options" "''catalogClient.call''" s]
      show ?thesis using rs True Inr lk' tm fr unfolding defs
        by (auto simp: clientCall_def dispatchUnary_def outside_host_def dispatchUnaryCall_def io_bind_def same_outcome_def
            split: sum.splits prod.splits)
    qed
  qed
qed

end
