(* ===== verification/LogSerialize.thy ===== *)
theory LogSerialize
  imports Prelude Connect
begin

text \<open>
  packages/interceptors/src/logger.ts and serializer.ts. The message of a streaming call is an asynchronous
  iterable: the computation of its next item, which is None at its end. A generator over it is the
  computation that asks for an item and works on it. toJson and fromJson of the protobuf library, the URL
  parser and the clock are parameters; schemas are looked up by service and method.
\<close>

type_synonym ('s, 'v) pull = "('s, jserr, 'v option) io"

datatype ('s, 'v) body = Value 'v | Stream "('s, 'v) pull"

definition body_stream :: "('s, 'v) body \<Rightarrow> ('s, 'v) pull" where
  "body_stream b = (case b of Stream p \<Rightarrow> p | Value _ \<Rightarrow> io_throw (type_error ''stream is not async iterable''))"

definition body_value :: "('s, 'v) body \<Rightarrow> 'v list" where
  "body_value b = (case b of Value v \<Rightarrow> [v] | Stream _ \<Rightarrow> [])"

definition for_await :: "('s, 'v) pull \<Rightarrow> ('v \<Rightarrow> ('s, jserr, 'v) io) \<Rightarrow> ('s, 'v) pull" where
  "for_await stream step = io_bind stream (\<lambda>item. case item of
      None \<Rightarrow> io_return None | Some m \<Rightarrow> io_bind (step m) (\<lambda>y. io_return (Some y)))"

fun starts_with :: "'a list \<Rightarrow> 'a list \<Rightarrow> bool" where
  "starts_with [] s = True"
| "starts_with (c # p) [] = False"
| "starts_with (c # p) (d # s) = (c = d \<and> starts_with p s)"

fun contains_str :: "'a list \<Rightarrow> 'a list \<Rightarrow> bool" where
  "contains_str p [] = (p = [])"
| "contains_str p (d # s) = (starts_with p (d # s) \<or> contains_str p s)"

section \<open>The logger\<close>

type_synonym ('s, 'v) log_fn = "string \<Rightarrow> 'v list \<Rightarrow> ('s, jserr, unit) io"

record ('s, 'v, 'd) message_env =
  me_console :: "string \<Rightarrow> ('s, 'v) log_fn"
  me_pathname :: "string \<Rightarrow> jserr + string"
  me_now :: "'s \<Rightarrow> int"
  me_toFixed :: "int \<Rightarrow> string"
  me_input :: "string \<Rightarrow> string \<Rightarrow> 'd"
  me_output :: "string \<Rightarrow> string \<Rightarrow> 'd"
  me_toJson :: "'d \<Rightarrow> bool \<Rightarrow> 'v \<Rightarrow> jserr + 'v"
  me_fromJson :: "'d \<Rightarrow> bool \<Rightarrow> 'v \<Rightarrow> jserr + 'v"

record ('s, 'v) logger_options =
  lo_level :: "string option"
  lo_skipHealthCheck :: "bool option"
  lo_logger :: "('s, 'v) log_fn option"

definition logReqStream :: "('s, 'v) pull \<Rightarrow> string \<Rightarrow> ('s, 'v) log_fn \<Rightarrow> ('s, 'v) pull" where
  "logReqStream stream msg logger = for_await stream (\<lambda>m. io_bind (logger (msg @ '' request'') [m]) (\<lambda>_. io_return m))"

definition logResStream :: "('s, 'v, 'd) message_env \<Rightarrow> 'd \<Rightarrow> ('s, 'v) pull \<Rightarrow> string \<Rightarrow> ('s, 'v) log_fn \<Rightarrow> ('s, 'v) pull" where
  "logResStream env schema stream msg logger = for_await stream (\<lambda>m.
    io_bind (io_lift (me_toJson env schema False m)) (\<lambda>j.
    io_bind (logger (msg @ '' response'') [j]) (\<lambda>_. io_return m)))"

definition createLoggerInterceptor :: "('s, 'v, 'd) message_env \<Rightarrow> ('s, 'v) logger_options \<Rightarrow> ('s, ('s, 'v) body) interceptor" where
  "createLoggerInterceptor env options nxt r =
    (let level = dflt (lo_level options) ''debug''; skipHealthCheck = dflt (lo_skipHealthCheck options) True;
         logger = dflt (lo_logger options) (me_console env level)
     in io_bind (io_lift (me_pathname env (rq_url r))) (\<lambda>path.
      if skipHealthCheck \<and> contains_str ''grpc.health'' (rq_service r) then nxt r
      else (\<lambda>s. let startTime = me_now env s in io_finally
       (if rq_stream r then
          io_bind (nxt (r\<lparr>rq_message := Stream (logReqStream (body_stream (rq_message r)) (''STREAM '' @ path) logger)\<rparr>)) (\<lambda>res.
          io_return (res\<lparr>rs_message := Stream (logResStream env (me_output env (rs_service res) (rs_method res))
            (body_stream (rs_message res)) (''STREAM '' @ path) logger)\<rparr>))
        else io_bind (logger (''RPC '' @ path @ '' request'') (body_value (rq_message r))) (\<lambda>_.
          io_bind (nxt r) (\<lambda>res.
          io_bind (logger (''RPC '' @ path @ '' response'') (body_value (rs_message res))) (\<lambda>_. io_return res))))
       (\<lambda>s'. logger (''RPC '' @ path @ '' completed in '' @ me_toFixed env (me_now env s' - startTime) @ ''ms'') [] s') s)))"

section \<open>The serializer\<close>

record serializer_options =
  zo_skipGrpcServices :: "bool option"
  zo_alwaysEmitImplicit :: "bool option"
  zo_ignoreUnknownFields :: "bool option"

definition fromJsonStream :: "('s, 'v, 'd) message_env \<Rightarrow> 'd \<Rightarrow> ('s, 'v) pull \<Rightarrow> bool \<Rightarrow> ('s, 'v) pull" where
  "fromJsonStream env schema stream ignoreUnknownFields =
    for_await stream (\<lambda>m. io_lift (me_fromJson env schema ignoreUnknownFields m))"

definition toJsonStream :: "('s, 'v, 'd) message_env \<Rightarrow> 'd \<Rightarrow> ('s, 'v) pull \<Rightarrow> bool \<Rightarrow> ('s, 'v) pull" where
  "toJsonStream env schema stream alwaysEmitImplicit =
    for_await stream (\<lambda>m. io_lift (me_toJson env schema alwaysEmitImplicit m))"

definition on_value :: "('v \<Rightarrow> jserr + 'v) \<Rightarrow> ('s, 'v) body \<Rightarrow> jserr + ('s, 'v) body" where
  "on_value f b = (case b of Value v \<Rightarrow> map_sum id Value (f v) | Stream _ \<Rightarrow> Inl (plain_error ''cannot convert a stream''))"

definition createSerializerInterceptor :: "('s, 'v, 'd) message_env \<Rightarrow> serializer_options \<Rightarrow> ('s, ('s, 'v) body) interceptor" where
  "createSerializerInterceptor env options nxt r =
    (let skipGrpcServices = dflt (zo_skipGrpcServices options) True;
         alwaysEmitImplicit = dflt (zo_alwaysEmitImplicit options) True;
         ignoreUnknownFields = dflt (zo_ignoreUnknownFields options) True;
         input = me_input env (rq_service r) (rq_method r)
     in if skipGrpcServices \<and> starts_with ''grpc.'' (rq_service r) then nxt r
        else io_bind (io_lift (if rq_stream r
            then Inr (Stream (toJsonStream env input (body_stream (rq_message r)) alwaysEmitImplicit))
            else on_value (me_toJson env input alwaysEmitImplicit) (rq_message r))) (\<lambda>message.
         io_bind (nxt (r\<lparr>rq_message := message\<rparr>)) (\<lambda>res.
          if skipGrpcServices \<and> starts_with ''grpc.'' (rs_service res) then io_return res
          else (let output = me_output env (rs_service res) (rs_method res) in
            if rs_stream res then io_return (res\<lparr>rs_message := Stream (fromJsonStream env output (body_stream (rs_message res)) ignoreUnknownFields)\<rparr>)
            else io_bind (io_lift (on_value (me_fromJson env output ignoreUnknownFields) (rs_message res))) (\<lambda>m.
              io_return (res\<lparr>rs_message := m\<rparr>))))))"

section \<open>Logging changes nothing\<close>

type_synonym 'v log_lines = "(string \<times> 'v list) list"

definition log_line :: "('v log_lines \<times> 's, 'v) log_fn" where
  "log_line m args = (\<lambda>(l, s). (Inr (), (l @ [(m, args)], s)))"

lemma log_line_apply [simp]: "log_line m args (l, s) = (Inr (), (l @ [(m, args)], s))"
  by (simp add: log_line_def)

definition unary_log :: "string \<Rightarrow> 'v list \<Rightarrow> jserr + ('w, 'v) body resp \<Rightarrow> string \<Rightarrow> 'v log_lines" where
  "unary_log path msg res duration =
    [(''RPC '' @ path @ '' request'', msg)] @
    (case res of Inr p \<Rightarrow> [(''RPC '' @ path @ '' response'', body_value (rs_message p))] | Inl _ \<Rightarrow> []) @
    [(''RPC '' @ path @ '' completed in '' @ duration @ ''ms'', [])]"

theorem logger_observes_unary_calls:
  assumes "me_pathname env (rq_url r) = Inr path" and "\<not> rq_stream r" and "lo_logger opts = Some log_line"
    and "me_now env = clock \<circ> snd"
  shows "createLoggerInterceptor env opts (\<lambda>r. on_cell (inner r)) r (l, s) =
    (case inner r s of (res, s') \<Rightarrow> (res, (l @ (if dflt (lo_skipHealthCheck opts) True \<and> contains_str ''grpc.health'' (rq_service r) then []
      else unary_log path (body_value (rq_message r)) res (me_toFixed env (clock s' - clock s))), s')))"
  using assms
  by (cases "inner r s"; cases "fst (inner r s)")
    (simp_all add: createLoggerInterceptor_def io_finally_def io_bind_def dflt_def unary_log_def Let_def)

fun read_items :: "nat \<Rightarrow> ('s, 'v) pull \<Rightarrow> 's \<Rightarrow> ('v list \<times> jserr option) \<times> 's" where
  "read_items 0 p s = (([], None), s)"
| "read_items (Suc n) p s = (case p s of
      (Inl e, s') \<Rightarrow> (([], Some e), s')
    | (Inr None, s') \<Rightarrow> (([], None), s')
    | (Inr (Some v), s') \<Rightarrow> (case read_items n p s' of ((vs, err), t) \<Rightarrow> ((v # vs, err), t)))"

theorem logged_stream_is_transparent:
  "read_items n (logReqStream (on_cell p) msg log_line) (l, s) =
    (case read_items n p s of ((vs, err), t) \<Rightarrow> ((vs, err), (l @ map (\<lambda>v. (msg @ '' request'', [v])) vs, t)))"
proof (induction n arbitrary: l s)
  case (Suc n)
  obtain res s' where p: "p s = (res, s')" by (cases "p s")
  show ?case
  proof (cases res)
    case (Inr item)
    then show ?thesis using p Suc
      by (cases item) (auto simp: logReqStream_def for_await_def io_bind_def split: prod.splits)
  qed (simp add: p logReqStream_def for_await_def io_bind_def)
qed simp

section \<open>A peer that speaks JSON\<close>

definition json_peer :: "('s, 'v, 'd) message_env \<Rightarrow> serializer_options \<Rightarrow> ('v \<Rightarrow> ('s, jserr, 'v) io) \<Rightarrow> ('s, ('s, 'v) body) handler" where
  "json_peer env options f r =
    io_bind (io_lift (on_value (me_fromJson env (me_input env (rq_service r) (rq_method r)) True) (rq_message r))) (\<lambda>m.
    io_bind (f (hd (body_value m))) (\<lambda>v.
    io_bind (io_lift (on_value (me_toJson env (me_output env (rq_service r) (rq_method r)) True) (Value v))) (\<lambda>j.
    io_return \<lparr>rs_stream = False, rs_service = rq_service r, rs_method = rq_method r, rs_header = [], rs_trailer = [], rs_message = j\<rparr>)))"

definition json_roundtrip :: "('s, 'v, 'd) message_env \<Rightarrow> bool" where
  "json_roundtrip env \<longleftrightarrow> (\<forall>d emit ign m. \<exists>j. me_toJson env d emit m = Inr j \<and> me_fromJson env d ign j = Inr m)"

theorem serializer_roundtrip:
  assumes "json_roundtrip env" and "\<not> rq_stream r" and "rq_message r = Value m" and "\<not> starts_with ''grpc.'' (rq_service r)"
  shows "createSerializerInterceptor env options (json_peer env options f) r =
    io_bind (f m) (\<lambda>v. io_return \<lparr>rs_stream = False, rs_service = rq_service r, rs_method = rq_method r, rs_header = [],
      rs_trailer = [], rs_message = Value v\<rparr>)"
proof -
  have rt: "\<exists>j. me_toJson env d emit x = Inr j \<and> me_fromJson env d ign j = Inr x" for d emit ign x
    using assms(1) by (simp add: json_roundtrip_def)
  obtain j where j: "me_toJson env (me_input env (rq_service r) (rq_method r)) (dflt (zo_alwaysEmitImplicit options) True) m = Inr j"
      "me_fromJson env (me_input env (rq_service r) (rq_method r)) True j = Inr m"
    using rt by blast
  have out: "io_bind (io_lift (on_value (me_toJson env d True) (Value v))) (\<lambda>j. io_bind (io_lift (on_value (me_fromJson env d ign) j)) k) = k (Value v)"
    for d v ign and k :: "('a, 'b) body \<Rightarrow> ('a, jserr, 'e) io"
    using rt[of d True v ign] by (auto simp: on_value_def)
  show ?thesis
    using assms(2,3,4) j
    by (simp add: createSerializerInterceptor_def json_peer_def on_value_def body_value_def io_bind_assoc Let_def
        out[unfolded on_value_def, simplified]) (simp add: io_return_def)
qed

end
