(* ===== verification/AuthContext.thy ===== *)
theory AuthContext
  imports Prelude Connect
begin

text \<open>
  packages/auth/src/context.ts. Every evaluation of the module (one for each way it is loaded) looks at the global
  object; auth_globals is what the module reads and writes there, and a storage is named by the evaluation
  that made it.
\<close>

section \<open>The storage of the auth context (auth/src/context.ts)\<close>

datatype global_value = Storage nat | OtherValue

record storage_meta =
  sm_initUrl :: string
  sm_warned :: bool

record auth_globals =
  ag_storage :: "global_value option"
  ag_meta :: "storage_meta option"
  ag_frozen :: bool
  ag_warnings :: "(string \<times> string) list"

definition corrupted_storage :: jserr where
  "corrupted_storage = plain_error ''@connectum/auth: globalThis[Symbol.for(@connectum/auth/context-storage)] is not an AsyncLocalStorage instance. This indicates corruption.''"

definition frozen_global :: jserr where
  "frozen_global = plain_error ''@connectum/auth: Cannot register context storage on globalThis. The global object may be frozen or non-extensible.''"

definition resolveStorage :: "string \<Rightarrow> nat \<Rightarrow> (auth_globals, jserr, nat) io" where
  "resolveStorage url fresh g = (case ag_storage g of
      Some OtherValue \<Rightarrow> (Inl corrupted_storage, g)
    | Some (Storage i) \<Rightarrow>
       (let meta = dflt (ag_meta g) \<lparr>sm_initUrl = ''unknown (pre-meta version)'', sm_warned = False\<rparr>;
            warn = \<not> sm_warned meta \<and> sm_initUrl meta \<noteq> url;
            meta' = (if warn then meta\<lparr>sm_warned := True\<rparr> else meta);
            stored = (if ag_meta g = None \<and> ag_frozen g then None else Some meta')
        in (Inr i, g\<lparr>ag_meta := stored, ag_warnings := ag_warnings g @ (if warn then [(sm_initUrl meta, url)] else [])\<rparr>))
    | None \<Rightarrow>
       if ag_frozen g then (Inl frozen_global, g)
       else (Inr fresh, g\<lparr>ag_storage := Some (Storage fresh), ag_meta := Some \<lparr>sm_initUrl = url, sm_warned = False\<rparr>\<rparr>))"

fun load_modules :: "(string \<times> nat) list \<Rightarrow> (auth_globals, jserr, nat list) io" where
  "load_modules [] = io_return []"
| "load_modules ((url, fresh) # ms) = io_bind (resolveStorage url fresh) (\<lambda>i.
    io_bind (load_modules ms) (\<lambda>rest. io_return (i # rest)))"

lemma later_modules_share_storage:
  assumes "ag_storage g = Some (Storage i)" and "ag_meta g = Some m"
  shows "\<exists>g'. load_modules ms g = (Inr (replicate (length ms) i), g') \<and>
    ag_warnings g' = ag_warnings g @ (if sm_warned m then [] else
      (case filter (\<lambda>u. u \<noteq> sm_initUrl m) (map fst ms) of [] \<Rightarrow> [] | u # us \<Rightarrow> [(sm_initUrl m, u)]))"
  using assms
proof (induction ms arbitrary: g m)
  case Nil
  then show ?case by (cases "sm_warned m") simp_all
next
  case (Cons a ms)
  obtain url fresh where a: "a = (url, fresh)" by (cases a)
  define w where "w = (\<not> sm_warned m \<and> sm_initUrl m \<noteq> url)"
  define m' where "m' = (if w then m\<lparr>sm_warned := True\<rparr> else m)"
  define h where "h = g\<lparr>ag_meta := Some m', ag_warnings := ag_warnings g @ (if w then [(sm_initUrl m, url)] else [])\<rparr>"
  have r: "resolveStorage url fresh g = (Inr i, h)"
    using Cons.prems by (simp add: resolveStorage_def h_def m'_def w_def dflt_def Let_def)
  obtain g' where g': "load_modules ms h = (Inr (replicate (length ms) i), g')"
      "ag_warnings g' = ag_warnings h @ (if sm_warned m' then [] else
        (case filter (\<lambda>u. u \<noteq> sm_initUrl m') (map fst ms) of [] \<Rightarrow> [] | u # us \<Rightarrow> [(sm_initUrl m', u)]))"
    using Cons.IH[of h m'] Cons.prems by (auto simp: h_def)
  show ?case
    using g' by (cases w) (auto simp: a r io_bind_def h_def m'_def w_def cong: list.case_cong)
qed

theorem auth_storage_is_shared:
  assumes "ag_storage g = None" and "\<not> ag_frozen g"
  shows "\<exists>g'. load_modules ((url, i) # ms) g = (Inr (replicate (Suc (length ms)) i), g') \<and>
    ag_warnings g' = ag_warnings g @ (case filter (\<lambda>u. u \<noteq> url) (map fst ms) of [] \<Rightarrow> [] | u # us \<Rightarrow> [(url, u)])"
proof -
  define h where "h = g\<lparr>ag_storage := Some (Storage i), ag_meta := Some \<lparr>sm_initUrl = url, sm_warned = False\<rparr>\<rparr>"
  have r: "resolveStorage url i g = (Inr i, h)" using assms by (simp add: resolveStorage_def h_def)
  show ?thesis
    using later_modules_share_storage[of h i "\<lparr>sm_initUrl = url, sm_warned = False\<rparr>" ms]
    by (auto simp: r io_bind_def h_def cong: list.case_cong)
qed

section \<open>Reading and setting the context\<close>

text \<open>
  An AsyncLocalStorage keeps one value for each chain of asynchronous calls: run sets it for the
  function it is given and for nothing else. The value stands in front of the world.
\<close>

type_synonym ('s, 'a) in_context = "(auth_context option \<times> 's, jserr, 'a) io"

definition als_run :: "auth_context \<Rightarrow> ('s, 'a) in_context \<Rightarrow> ('s, 'a) in_context" where
  "als_run context fn = (\<lambda>(store, s). case fn (Some context, s) of (res, (_, s')) \<Rightarrow> (res, (store, s')))"

definition getAuthContext :: "('s, auth_context option) in_context" where
  "getAuthContext = (\<lambda>(store, s). (Inr store, (store, s)))"

definition requireAuthContext :: "('s, auth_context) in_context" where
  "requireAuthContext = io_bind getAuthContext (\<lambda>context. case context of
      None \<Rightarrow> io_throw (connect_error ''Authentication required'' code_Unauthenticated)
    | Some c \<Rightarrow> io_return c)"

section \<open>Testing helpers (auth/src/testing)\<close>

definition withAuthContext :: "auth_context \<Rightarrow> ('s, 'a) in_context \<Rightarrow> ('s, 'a) in_context" where
  "withAuthContext context fn = als_run context fn"

definition DEFAULT_MOCK_CONTEXT :: auth_context where
  "DEFAULT_MOCK_CONTEXT = \<lparr>ac_subject = ''test-user'', ac_name = Some ''Test User'', ac_roles = [''user''], ac_scopes = [''read''],
    ac_claims = [], ac_type = ''test'', ac_expiresAt = None\<rparr>"

record context_overrides =
  ov_subject :: "string option"
  ov_name :: "string option option"
  ov_roles :: "string list option"
  ov_scopes :: "string list option"
  ov_claims :: "(string \<times> json) list option"
  ov_type :: "string option"
  ov_expiresAt :: "int option option"

definition createMockAuthContext :: "context_overrides \<Rightarrow> auth_context" where
  "createMockAuthContext overrides = (let d = DEFAULT_MOCK_CONTEXT in
    \<lparr>ac_subject = dflt (ov_subject overrides) (ac_subject d), ac_name = dflt (ov_name overrides) (ac_name d),
     ac_roles = dflt (ov_roles overrides) (ac_roles d), ac_scopes = dflt (ov_scopes overrides) (ac_scopes d),
     ac_claims = dflt (ov_claims overrides) (ac_claims d), ac_type = dflt (ov_type overrides) (ac_type d),
     ac_expiresAt = dflt (ov_expiresAt overrides) (ac_expiresAt d)\<rparr>)"

datatype jwt_step = ProtectedHeader "(string \<times> string) list" | IssuedAt | ExpirationTime string | Issuer string | Audience string

definition set_nonempty :: "(string \<Rightarrow> jwt_step) \<Rightarrow> string option \<Rightarrow> jwt_step list" where
  "set_nonempty step v = (case v of Some x \<Rightarrow> if x \<noteq> [] then [step x] else [] | None \<Rightarrow> [])"

definition TEST_JWT_SECRET :: string where
  "TEST_JWT_SECRET = ''connectum-test-secret-do-not-use-in-production''"

definition TEST_JWT_KID :: string where
  "TEST_JWT_KID = ''connectum-test-key''"

definition createTestJwt :: "((string \<times> json) list \<Rightarrow> jwt_step list \<Rightarrow> string \<Rightarrow> ('s, jserr, string) io) \<Rightarrow> (string \<times> json) list \<Rightarrow>
    string option \<Rightarrow> string option \<Rightarrow> string option \<Rightarrow> ('s, jserr, string) io" where
  "createTestJwt sign payload expiresIn issuer audience = sign payload
    ([ProtectedHeader [(''alg'', ''HS256'')], IssuedAt] @
     (case expiresIn of Some e \<Rightarrow> if e \<noteq> [] then [ExpirationTime e] else [ExpirationTime ''1h''] | None \<Rightarrow> [ExpirationTime ''1h'']) @
     set_nonempty Issuer issuer @ set_nonempty Audience audience) TEST_JWT_SECRET"

definition createTestJwtRS256 :: "((string \<times> json) list \<Rightarrow> jwt_step list \<Rightarrow> 'k \<Rightarrow> ('s, jserr, string) io) \<Rightarrow> 'k \<Rightarrow> (string \<times> json) list \<Rightarrow>
    string \<Rightarrow> string option \<Rightarrow> string option \<Rightarrow> string option \<Rightarrow> ('s, jserr, string) io" where
  "createTestJwtRS256 sign privateKey payload kid issuer audience expiresIn = sign payload
    ([ProtectedHeader [(''alg'', ''RS256''), (''kid'', kid)], IssuedAt, ExpirationTime (dflt expiresIn ''1h'')] @
     set_nonempty Issuer issuer @ set_nonempty Audience audience) privateKey"

definition jwks_response :: "string \<Rightarrow> string \<Rightarrow> nat \<times> string option" where
  "jwks_response body url = (if url = ''/.well-known/jwks.json'' then (200, Some body) else (404, None))"

section \<open>Contexts do not leak\<close>

lemma context_is_scoped:
  "withAuthContext c requireAuthContext (store, s) = (Inr c, (store, s))"
  "withAuthContext c (withAuthContext d fn) = withAuthContext d fn"
  "fst (snd (withAuthContext c fn (store, s))) = store"
  "requireAuthContext (None, s) = (Inl (connect_error ''Authentication required'' code_Unauthenticated), (None, s))"
  by (auto simp: withAuthContext_def als_run_def requireAuthContext_def getAuthContext_def io_bind_def split: prod.split)

end
