(* ===== verification/Reflection.thy ===== *)
theory Reflection
  imports Prelude Connect
begin

text \<open>
  packages/reflection/src: the files that the reflection service hands out. A file descriptor holds
  its dependencies themselves, so a descriptor is a tree in which the same file may stand in many places; the
  set of visited names and the result are passed along. The protobuf compiler refuses import cycles, so the
  trees are finite.
\<close>

datatype 'p desc_file = DescFile (df_name: string) (df_dependencies: "'p desc_file list") (df_proto: 'p)

type_synonym 'p collected = "string list \<times> 'p list"

fun visit :: "'p desc_file \<Rightarrow> 'p collected \<Rightarrow> 'p collected" where
  "visit (DescFile name deps proto) (visited, result) =
    (if name \<in> set visited then (visited, result)
     else (case fold visit deps (name # visited, result) of (visited', result') \<Rightarrow> (visited', result' @ [proto])))"

definition collectFileProtos :: "'p desc_file list \<Rightarrow> 'p list" where
  "collectFileProtos files = snd (fold visit files ([], []))"

definition register_reflection :: "('p list \<Rightarrow> 'router \<Rightarrow> jserr + 'router) \<Rightarrow> 'p desc_file list \<Rightarrow> 'router \<Rightarrow> jserr + 'router" where
  "register_reflection register_from_set registry router = register_from_set (collectFileProtos registry) router"

section \<open>Every file once, after its imports\<close>

fun files_of :: "'p desc_file \<Rightarrow> 'p desc_file list" where
  "files_of (DescFile name deps proto) = DescFile name deps proto # concat (map files_of deps)"

definition all_files :: "'p desc_file list \<Rightarrow> 'p desc_file set" where
  "all_files fs = (\<Union>f \<in> set fs. set (files_of f))"

definition consistent_files :: "('p \<Rightarrow> string) \<Rightarrow> 'p desc_file list \<Rightarrow> bool" where
  "consistent_files pname fs \<longleftrightarrow>
    (\<forall>f \<in> all_files fs. pname (df_proto f) = df_name f \<and> (\<forall>g \<in> all_files fs. df_name f = df_name g \<longrightarrow> f = g))"

definition imports_first :: "('p \<Rightarrow> string) \<Rightarrow> 'p desc_file set \<Rightarrow> 'p list \<Rightarrow> bool" where
  "imports_first pname U ps \<longleftrightarrow> (\<forall>xs p ys. ps = xs @ p # ys \<longrightarrow>
    (\<forall>f \<in> U. df_proto f = p \<longrightarrow> df_name ` set (df_dependencies f) \<subseteq> pname ` set xs))"

lemma self_in_files [simp]: "f \<in> set (files_of f)"
  by (cases f) simp

lemma files_of_dep: "d \<in> set (df_dependencies f) \<Longrightarrow> set (files_of d) \<subseteq> set (files_of f)"
  by (cases f) auto

lemma size_files_of: "g \<in> set (files_of f) \<Longrightarrow> size g \<le> size f"
proof (induction f rule: files_of.induct)
  case (1 name deps proto)
  then consider "g = DescFile name deps proto" | d where "d \<in> set deps" "g \<in> set (files_of d)" by auto
  then show ?case
  proof cases
    case 2
    then have "size g \<le> size_list size deps" using 1 by (auto intro: size_list_estimation')
    then show ?thesis by simp
  qed simp
qed

lemma size_dep: "d \<in> set (df_dependencies f) \<Longrightarrow> size d < size f"
  by (cases f) (auto simp: less_Suc_eq_le dest: size_list_estimation' [of _ _ _ size])

lemma files_of_trans: "g \<in> set (files_of f) \<Longrightarrow> set (files_of g) \<subseteq> set (files_of f)"
  by (induction f rule: files_of.induct) auto

definition names_of :: "('p \<Rightarrow> string) \<Rightarrow> 'p collected \<Rightarrow> string set" where
  "names_of pname st = pname ` set (snd st)"

definition collected_ok :: "('p \<Rightarrow> string) \<Rightarrow> 'p desc_file set \<Rightarrow> string set \<Rightarrow> 'p collected \<Rightarrow> bool" where
  "collected_ok pname U active st \<longleftrightarrow> set (fst st) = active \<union> names_of pname st \<and> active \<inter> names_of pname st = {} \<and>
    distinct (map pname (snd st)) \<and> imports_first pname U (snd st) \<and>
    (\<forall>g \<in> U. df_name g \<in> names_of pname st \<longrightarrow> df_name ` set (files_of g) \<subseteq> names_of pname st)"

definition visits_ok :: "('p \<Rightarrow> string) \<Rightarrow> 'p desc_file set \<Rightarrow> string set \<Rightarrow> ('p collected \<Rightarrow> 'p collected) \<Rightarrow> string set \<Rightarrow> bool" where
  "visits_ok pname U active v new \<longleftrightarrow> (\<forall>st. collected_ok pname U active st \<longrightarrow>
    collected_ok pname U active (v st) \<and> names_of pname (v st) = names_of pname st \<union> new)"

lemma visits_ok_comp:
  assumes "visits_ok pname U active v m" and "visits_ok pname U active w n"
  shows "visits_ok pname U active (\<lambda>st. w (v st)) (m \<union> n)"
  unfolding visits_ok_def
proof (intro allI impI)
  fix st
  assume "collected_ok pname U active st"
  then have v: "collected_ok pname U active (v st)" "names_of pname (v st) = names_of pname st \<union> m"
    using assms(1) unfolding visits_ok_def by blast+
  have "collected_ok pname U active (w (v st)) \<and> names_of pname (w (v st)) = names_of pname (v st) \<union> n"
    using assms(2) v(1) unfolding visits_ok_def by blast
  then show "collected_ok pname U active (w (v st)) \<and> names_of pname (w (v st)) = names_of pname st \<union> (m \<union> n)"
    by (simp only: v(2) Un_assoc)
qed

lemma fold_visit_ok:
  assumes "\<And>d. d \<in> set ds \<Longrightarrow> visits_ok pname U active (visit d) (df_name ` set (files_of d))"
  shows "visits_ok pname U active (fold visit ds) (\<Union>d \<in> set ds. df_name ` set (files_of d))"
  using assms
proof (induction ds)
  case Nil
  then show ?case by (simp add: visits_ok_def)
next
  case (Cons d ds)
  then have "visits_ok pname U active (\<lambda>st. fold visit ds (visit d st)) (df_name ` set (files_of d) \<union> (\<Union>d \<in> set ds. df_name ` set (files_of d)))"
    by (intro visits_ok_comp) simp_all
  then show ?case by (simp add: comp_def)
qed

lemma imports_first_snoc:
  assumes "imports_first pname U ps" and "\<And>f. f \<in> U \<Longrightarrow> df_proto f = p \<Longrightarrow> df_name ` set (df_dependencies f) \<subseteq> pname ` set ps"
  shows "imports_first pname U (ps @ [p])"
  unfolding imports_first_def
proof (intro allI impI ballI)
  fix xs q ys f
  assume s: "ps @ [p] = xs @ q # ys" "f \<in> U" "df_proto f = q"
  show "df_name ` set (df_dependencies f) \<subseteq> pname ` set xs"
  proof (cases ys rule: rev_cases)
    case Nil
    then show ?thesis using s assms(2) by auto
  next
    case (snoc zs z)
    then have "ps = xs @ q # zs" using s(1) by simp
    then show ?thesis using assms(1) s(2,3) unfolding imports_first_def by blast
  qed
qed

lemma dep_names_avoid:
  assumes U: "\<forall>f \<in> U. pname (df_proto f) = df_name f \<and> (\<forall>g \<in> U. df_name f = df_name g \<longrightarrow> f = g)"
    and f: "set (files_of f) \<subseteq> U" "df_name ` set (files_of f) \<inter> active = {}" and d: "d \<in> set (df_dependencies f)"
  shows "set (files_of d) \<subseteq> U" "df_name ` set (files_of d) \<inter> insert (df_name f) active = {}"
proof -
  have sub: "set (files_of d) \<subseteq> set (files_of f)" using d by (rule files_of_dep)
  then show "set (files_of d) \<subseteq> U" using f(1) by blast
  have "df_name g \<noteq> df_name f" if g: "g \<in> set (files_of d)" for g
  proof
    assume "df_name g = df_name f"
    moreover have "g \<in> U" "f \<in> U" using g sub f(1) self_in_files by blast+
    ultimately have "g = f" using U by blast
    then show False using size_files_of [OF g] size_dep [OF d] by simp
  qed
  moreover have "df_name ` set (files_of d) \<inter> active = {}" using sub f(2) by blast
  ultimately show "df_name ` set (files_of d) \<inter> insert (df_name f) active = {}" by blast
qed

lemma visited_is_listed:
  assumes "collected_ok pname U active (v, r)" "f \<in> U" "df_name f \<in> set v" "df_name f \<notin> active"
  shows "df_name ` set (files_of f) \<subseteq> names_of pname (v, r)"
  using assms by (force simp: collected_ok_def)

lemma append_file_ok:
  assumes U: "\<forall>f \<in> U. pname (df_proto f) = df_name f \<and> (\<forall>g \<in> U. df_name f = df_name g \<longrightarrow> f = g)"
    and f: "f \<in> U" "df_name f \<notin> active" "f = DescFile name deps proto"
    and ok: "collected_ok pname U (insert name active) (v, r)"
    and deps: "\<And>d. d \<in> set deps \<Longrightarrow> df_name ` set (files_of d) \<subseteq> pname ` set r"
  shows "collected_ok pname U active (v, r @ [proto])"
proof -
  have proto: "pname proto = name" using U f by force
  have same: "g = f" if "g \<in> U" "df_name g = name" for g using U f that by (metis desc_file.sel(1))
  have "df_name ` set deps \<subseteq> pname ` set r" using deps self_in_files by blast
  then have first: "imports_first pname U (r @ [proto])"
  proof (intro imports_first_snoc)
    show "imports_first pname U r" using ok by (simp add: collected_ok_def)
    fix g
    assume "df_name ` set deps \<subseteq> pname ` set r" "g \<in> U" "df_proto g = proto"
    then have "g = f" using U proto by (intro same) auto
    then show "df_name ` set (df_dependencies g) \<subseteq> pname ` set r"
      using \<open>df_name ` set deps \<subseteq> pname ` set r\<close> by (simp add: f(3))
  qed
  have closed: "df_name ` set (files_of g) \<subseteq> insert name (names_of pname (v, r))"
    if "g \<in> U" "df_name g \<in> insert name (names_of pname (v, r))" for g
  proof (cases "df_name g = name")
    case True
    then have "g = f" using that(1) by (intro same)
    then show ?thesis using deps by (auto simp: f(3) names_of_def)
  next
    case False
    then show ?thesis using that ok unfolding collected_ok_def by blast
  qed
  have N: "names_of pname (v, r @ [proto]) = insert name (names_of pname (v, r))"
    by (simp add: names_of_def proto)
  have parts: "set v = insert name active \<union> names_of pname (v, r)" "insert name active \<inter> names_of pname (v, r) = {}"
    "distinct (map pname r)" using ok by (simp_all add: collected_ok_def)
  moreover have "name \<notin> pname ` set r" using parts(2) by (auto simp: names_of_def)
  ultimately show ?thesis unfolding collected_ok_def N using first closed f(2,3) by (auto simp: proto)
qed

lemma visit_ok:
  assumes U: "\<forall>f \<in> U. pname (df_proto f) = df_name f \<and> (\<forall>g \<in> U. df_name f = df_name g \<longrightarrow> f = g)"
  shows "set (files_of f) \<subseteq> U \<Longrightarrow> df_name ` set (files_of f) \<inter> active = {} \<Longrightarrow>
    visits_ok pname U active (visit f) (df_name ` set (files_of f))"
proof (induction f arbitrary: active)
  case (DescFile name deps proto)
  let ?f = "DescFile name deps proto" and ?A = "insert name active"
    and ?N = "\<Union>d \<in> set deps. df_name ` set (files_of d)"
  have fU: "?f \<in> U" and nA: "name \<notin> active" using DescFile.prems by auto
  have N: "df_name ` set (files_of ?f) = insert name ?N" by auto
  have "visits_ok pname U ?A (visit d) (df_name ` set (files_of d))" if d: "d \<in> set deps" for d
    using dep_names_avoid [OF U DescFile.prems, of d] d by (intro DescFile.IH) simp_all
  then have deps: "visits_ok pname U ?A (fold visit deps) ?N" by (rule fold_visit_ok)
  show ?case
    unfolding visits_ok_def
  proof (intro allI impI)
    fix st
    assume ok: "collected_ok pname U active st"
    obtain v r where st: "st = (v, r)" by (cases st)
    show "collected_ok pname U active (visit ?f st) \<and>
      names_of pname (visit ?f st) = names_of pname st \<union> df_name ` set (files_of ?f)"
    proof (cases "name \<in> set v")
      case True
      then have "df_name ` set (files_of ?f) \<subseteq> names_of pname st"
        using visited_is_listed [of pname U active v r ?f] ok fU nA by (simp add: st)
      then have "names_of pname st \<union> df_name ` set (files_of ?f) = names_of pname st" by blast
      moreover have "visit ?f st = st" using True by (simp add: st)
      ultimately show ?thesis using ok by metis
    next
      case False
      obtain v' r' where run: "fold visit deps (name # v, r) = (v', r')" by (cases "fold visit deps (name # v, r)")
      have "collected_ok pname U ?A (name # v, r)" using ok False by (auto simp: collected_ok_def st names_of_def)
      then have ok2: "collected_ok pname U ?A (v', r')" and names: "pname ` set r' = pname ` set r \<union> ?N"
        using deps unfolding visits_ok_def by (metis run, metis run names_of_def snd_conv)
      have "collected_ok pname U active (v', r' @ [proto])"
        using nA names by (intro append_file_ok [OF U fU _ refl ok2]) auto
      moreover have "pname proto = name" using U fU by force
      ultimately show ?thesis unfolding N using False names by (auto simp: st run names_of_def)
    qed
  qed
qed

text \<open>C38. The reflection service hands out every file that is reachable from the registry exactly once, and each
  after all the files it imports, so a reader can add them one by one. This rests on what
  the protobuf runtime promises of descriptors: the file's proto bears its name, and one name is one file.\<close>
theorem collectFileProtos_is_import_order:
  assumes "consistent_files pname files"
  shows "distinct (map pname (collectFileProtos files)) \<and>
    set (map pname (collectFileProtos files)) = df_name ` all_files files \<and>
    imports_first pname (all_files files) (collectFileProtos files)"
proof -
  let ?U = "all_files files" and ?st = "fold visit files ([], [])"
  have U: "\<forall>f \<in> ?U. pname (df_proto f) = df_name f \<and> (\<forall>g \<in> ?U. df_name f = df_name g \<longrightarrow> f = g)"
    using assms by (simp add: consistent_files_def)
  have "visits_ok pname ?U {} (fold visit files) (\<Union>f \<in> set files. df_name ` set (files_of f))"
    by (rule fold_visit_ok, rule visit_ok [OF U]) (auto simp: all_files_def)
  moreover have "collected_ok pname ?U {} ([], [])"
    by (simp add: collected_ok_def names_of_def imports_first_def)
  ultimately have "collected_ok pname ?U {} ?st \<and> names_of pname ?st = names_of pname ([], []) \<union> (\<Union>f \<in> set files. df_name ` set (files_of f))"
    unfolding visits_ok_def by blast
  then show ?thesis by (auto simp: collected_ok_def names_of_def collectFileProtos_def all_files_def)
qed

lemma collectFileProtos_is_import_order_witness:
  "map fst (collectFileProtos [DescFile ''b'' [DescFile ''a'' [] (''a'', 1 :: nat)] (''b'', 2), DescFile ''a'' [] (''a'', 1)]) = [''a'', ''b''] \<and>
   distinct (map fst (collectFileProtos [DescFile ''b'' [DescFile ''a'' [] (''a'', 1)] (''b'', 2), DescFile ''a'' [] (''a'', 1 :: nat)]))"
proof -
  let ?a = "DescFile ''a'' [] (''a'', 1 :: nat)"
  have "consistent_files fst [DescFile ''b'' [?a] (''b'', 2), ?a]" by (auto simp: consistent_files_def all_files_def)
  from collectFileProtos_is_import_order [OF this] show ?thesis by (simp add: collectFileProtos_def all_files_def)
qed

end
