(* ===== verification/CatalogGen.thy ===== *)
theory CatalogGen
  imports Prelude Connect Descriptors Dispatcher
begin

text \<open>
  packages/protoc-gen-catalog/src/plugin.ts: the options of the generator and the file it prints, which the
  dispatcher of ctx.call and ctx.stream works from. The names under which schemas and message shapes are
  imported come from the plugin library and are parameters. What is printed is a list of lines; the
  keys of the two type maps are kept beside them.
\<close>

section \<open>Options\<close>

definition windows_absolute :: "string \<Rightarrow> bool" where
  "windows_absolute v \<longleftrightarrow>
    (case v of
       c # CHR '':'' # d # _ \<Rightarrow> (let n = (of_char c :: nat) in 65 \<le> n \<and> n \<le> 90 \<or> 97 \<le> n \<and> n \<le> 122) \<and> (d = CHR 0x5C \<or> d = CHR ''/'')
     | _ \<Rightarrow> False) \<or> take 2 v = [CHR 0x5C, CHR 0x5C]"

definition path_segments :: "string \<Rightarrow> string list" where
  "path_segments v = js_split CHR ''/'' (map (\<lambda>c. if c = CHR 0x5C then CHR ''/'' else c) v)"

definition plugin_error :: "string \<Rightarrow> jserr" where
  "plugin_error msg = plain_error (''protoc-gen-connectum-catalog: '' @ msg)"

fun parse_options :: "(string \<times> string) list \<Rightarrow> string \<Rightarrow> jserr + string" where
  "parse_options [] outputFile = Inr outputFile"
| "parse_options ((key, v) # rest) outputFile =
    (if key \<noteq> ''output_file'' then Inl (plugin_error (''unknown option '' @ key))
     else if v = [] then Inl (plugin_error ''output_file must not be empty.'')
     else if take 1 v = ''/'' \<or> windows_absolute v \<or> ''..'' \<in> set (path_segments v)
     then Inl (plugin_error ''output_file must be a relative path inside the output root'')
     else parse_options rest v)"

definition parseCatalogOptions :: "(string \<times> string) list \<Rightarrow> jserr + string" where
  "parseCatalogOptions rawOptions = parse_options rawOptions ''catalog.gen.ts''"

section \<open>The generated file\<close>

definition servicesToGenerate :: "desc_service list list \<Rightarrow> desc_service list" where
  "servicesToGenerate files = concat files"

record plugin_imports =
  pi_schema :: "desc_service \<Rightarrow> string"
  pi_input :: "desc_service \<Rightarrow> desc_method \<Rightarrow> string"
  pi_output :: "desc_service \<Rightarrow> desc_method \<Rightarrow> string"

definition STREAM_KIND :: "method_kind \<Rightarrow> string" where
  "STREAM_KIND k = (case k of ServerStreaming \<Rightarrow> ''server-stream'' | ClientStreaming \<Rightarrow> ''client-stream''
    | BidiStreaming \<Rightarrow> ''bidi'' | Unary \<Rightarrow> ''undefined'')"

definition method_key :: "desc_service \<Rightarrow> desc_method \<Rightarrow> string" where
  "method_key s m = ds_typeName s @ ''/'' @ dm_name m"

definition call_methods :: "desc_service list \<Rightarrow> (desc_service \<times> desc_method) list" where
  "call_methods services = concat (map (\<lambda>s. map (Pair s) (filter (\<lambda>m. dm_kind m = Unary) (ds_methods s))) services)"

definition stream_methods :: "desc_service list \<Rightarrow> (desc_service \<times> desc_method) list" where
  "stream_methods services = concat (map (\<lambda>s. map (Pair s) (filter (\<lambda>m. dm_kind m \<noteq> Unary) (ds_methods s))) services)"

definition quoted :: "string \<Rightarrow> string" where
  "quoted s = [CHR 0x22] @ s @ [CHR 0x22]"

definition call_line :: "plugin_imports \<Rightarrow> desc_service \<times> desc_method \<Rightarrow> string" where
  "call_line imp = (\<lambda>(s, m). ''        '' @ quoted (method_key s m) @ '': { request: '' @ pi_input imp s m @
    ''; response: '' @ pi_output imp s m @ '' };'')"

definition stream_line :: "plugin_imports \<Rightarrow> desc_service \<times> desc_method \<Rightarrow> string" where
  "stream_line imp = (\<lambda>(s, m). ''        '' @ quoted (method_key s m) @ '': { request: '' @ pi_input imp s m @
    ''; response: '' @ pi_output imp s m @ ''; kind: '' @ quoted (STREAM_KIND (dm_kind m)) @ '' };'')"

definition generateCatalog :: "plugin_imports \<Rightarrow> desc_service list list \<Rightarrow> string list" where
  "generateCatalog imp files =
    (let services = servicesToGenerate files;
         preamble = [''// @generated by protoc-gen-connectum-catalog v1.0.0-rc.11. DO NOT EDIT.'',
           ''import type {} from '' @ quoted ''@connectum/core'' @ '';'', []] in
     if services = [] then preamble @ [''export const serviceCatalog = Object.freeze({});'']
     else preamble @ [''export const serviceCatalog = {''] @
       map (\<lambda>s. ''    '' @ quoted (ds_typeName s) @ '': '' @ pi_schema imp s @ '','') services @
       [''} as const;'', [], ''declare module '' @ quoted ''@connectum/core'' @ '' {'', ''    interface ConnectumCallMap {''] @
       map (call_line imp) (call_methods services) @
       [''    }'', ''    interface ConnectumStreamMap {''] @
       map (stream_line imp) (stream_methods services) @
       [''    }'', ''}''])"

section \<open>The generated types agree with the dispatcher\<close>

definition generated_catalog :: "desc_service list \<Rightarrow> catalog" where
  "generated_catalog services = fold (\<lambda>s c. om_set (ds_typeName s) s c) services []"

definition proto_names_ok :: "desc_service list \<Rightarrow> bool" where
  "proto_names_ok services \<longleftrightarrow> distinct (map ds_typeName services) \<and>
    list_all (\<lambda>s. ds_typeName s \<noteq> [] \<and> distinct (map dm_name (ds_methods s)) \<and>
      list_all (\<lambda>m. dm_name m \<noteq> [] \<and> CHR ''/'' \<notin> set (dm_name m)) (ds_methods s)) services"

lemma generated_catalog_get:
  assumes "distinct (map ds_typeName services)"
  shows "om_get (generated_catalog services) t = Some s \<longleftrightarrow> s \<in> set services \<and> ds_typeName s = t"
proof -
  let ?ps = "map (\<lambda>s. (ds_typeName s, s)) services"
  have "generated_catalog services = fold (\<lambda>(k, v). om_set k v) ?ps []"
    by (simp add: generated_catalog_def fold_map comp_def)
  then have "om_get (generated_catalog services) t = map_of (rev ?ps) t"
    by (simp only: om.fold_put_get om_get_nil) (simp split: option.split)
  moreover have "distinct (map fst (rev ?ps))" using assms by (simp add: rev_map [symmetric] comp_def)
  ultimately show ?thesis by (auto simp: map_of_eq_Some_iff)
qed

lemma find_method:
  assumes "distinct (map dm_name ms)"
  shows "find (\<lambda>x. dm_name x = n) ms = Some m \<longleftrightarrow> m \<in> set ms \<and> dm_name m = n"
  using assms by (induction ms) auto

lemma generated_lookup:
  assumes "proto_names_ok services"
  shows "lookupCatalogMethod (Some (generated_catalog services)) key caller = Inr (t, m) \<longleftrightarrow>
    (\<exists>s \<in> set services. m \<in> set (ds_methods s) \<and> t = ds_typeName s \<and> key = method_key s m)"
proof -
  have d: "distinct (map ds_typeName services)" using assms by (simp add: proto_names_ok_def)
  have "lookupCatalogMethod (Some (generated_catalog services)) key caller = Inr (t, m) \<longleftrightarrow>
     key = t @ CHR ''/'' # dm_name m \<and> t \<noteq> [] \<and> dm_name m \<noteq> [] \<and> CHR ''/'' \<notin> set (dm_name m) \<and>
     (\<exists>s. om_get (generated_catalog services) t = Some s \<and> find (\<lambda>x. dm_name x = dm_name m) (ds_methods s) = Some m)"
    using lookup_finds_exactly_catalog_methods by blast
  then show ?thesis
    using assms find_method unfolding generated_catalog_get [OF d]
    by (auto simp: proto_names_ok_def list_all_iff method_key_def)
qed


definition user_service :: desc_service where
  "user_service = \<lparr>ds_typeName = ''u.User'', ds_methods = [\<lparr>dm_name = ''Get'', dm_kind = Unary\<rparr>, \<lparr>dm_name = ''Watch'', dm_kind = ServerStreaming\<rparr>], ds_file = 1\<rparr>"


end
