(* ===== verification/Cli.thy ===== *)
theory Cli
  imports Prelude Connect
begin

text \<open>
  packages/cli: the command proto sync (commands/proto-sync.ts) and its reflection client
  (utils/reflection.ts). The client, the console, the file system and the child process are parameters.
\<close>

section \<open>proto sync (cli/src/commands/proto-sync.ts, cli/src/utils/reflection.ts)\<close>

record ('s, 'reg) cli_env =
  cv_client :: "string \<Rightarrow> ('s, jserr, nat) io"
  cv_listServices :: "nat \<Rightarrow> ('s, jserr, string list) io"
  cv_buildRegistry :: "nat \<Rightarrow> ('s, jserr, 'reg) io"
  cv_close :: "nat \<Rightarrow> ('s, jserr, unit) io"
  cv_fileNames :: "'reg \<Rightarrow> string list"
  cv_toBinary :: "'reg \<Rightarrow> nat list"
  cv_print :: "string \<Rightarrow> ('s, jserr, unit) io"
  cv_mkdtemp :: "('s, jserr, string) io"
  cv_writeFile :: "string \<Rightarrow> nat list \<Rightarrow> ('s, jserr, unit) io"
  cv_exec :: "string list \<Rightarrow> ('s, jserr, unit) io"
  cv_remove :: "string \<Rightarrow> ('s, jserr, unit) io"

definition fetchReflectionData :: "('s, 'reg) cli_env \<Rightarrow> string \<Rightarrow> ('s, jserr, string list \<times> 'reg \<times> string list) io" where
  "fetchReflectionData cv url = io_bind (cv_client cv url) (\<lambda>client. io_finally
    (io_bind (cv_listServices cv client) (\<lambda>services.
     io_bind (cv_buildRegistry cv client) (\<lambda>registry. io_return (services, registry, cv_fileNames cv registry))))
    (cv_close cv client))"

definition fetchFileDescriptorSetBinary :: "('s, 'reg) cli_env \<Rightarrow> string \<Rightarrow> ('s, jserr, nat list) io" where
  "fetchFileDescriptorSetBinary cv url = io_bind (cv_client cv url) (\<lambda>client. io_finally
    (io_bind (cv_buildRegistry cv client) (\<lambda>registry. io_return (cv_toBinary cv registry)))
    (cv_close cv client))"

definition executeDryRun :: "('s, 'reg) cli_env \<Rightarrow> string \<Rightarrow> string \<Rightarrow> ('s, jserr, unit) io" where
  "executeDryRun cv url out = io_bind (cv_print cv (''Connecting to '' @ url @ ''...'')) (\<lambda>_.
    io_bind (fetchReflectionData cv url) (\<lambda>(services, registry, fileNames).
      io_for (cv_print cv) ([''Connected to '' @ url, [], ''Services:''] @ map (\<lambda>s. ''  - '' @ s) services @
        [[], ''Files:''] @ map (\<lambda>f. ''  - '' @ f) fileNames @ [[], ''Would generate to: '' @ out])))"

definition buf_args :: "string \<Rightarrow> string \<Rightarrow> string option \<Rightarrow> string list" where
  "buf_args binpbPath out template = [''generate'', binpbPath, ''--output'', out] @
    (case template of Some t \<Rightarrow> if t \<noteq> [] then [''--template'', t] else [] | None \<Rightarrow> [])"

definition executeFullSync :: "('s, 'reg) cli_env \<Rightarrow> string \<Rightarrow> string \<Rightarrow> string option \<Rightarrow> ('s, jserr, unit) io" where
  "executeFullSync cv url out template = io_bind (cv_print cv (''Connecting to '' @ url @ ''...'')) (\<lambda>_.
    io_bind (fetchFileDescriptorSetBinary cv url) (\<lambda>binpb.
    io_bind (cv_print cv (''Fetched '' @ show_nat (length binpb) @ '' bytes of descriptors'')) (\<lambda>_.
    io_bind (cv_mkdtemp cv) (\<lambda>tmpDir.
    let binpbPath = tmpDir @ ''/descriptors.binpb''; args = buf_args binpbPath out template in
    io_bind (cv_writeFile cv binpbPath binpb) (\<lambda>_. io_finally
      (io_bind (cv_print cv (''Running: buf '' @ js_join '' '' args)) (\<lambda>_.
       io_bind (cv_exec cv args) (\<lambda>_. cv_print cv (''Proto types synced to '' @ out))))
      (cv_remove cv tmpDir))))))"

definition with_protocol :: "string \<Rightarrow> string" where
  "with_protocol from = (if take 4 from = ''http'' then from else ''http://'' @ from)"

definition executeProtoSync :: "('s, 'reg) cli_env \<Rightarrow> string \<Rightarrow> string \<Rightarrow> string option \<Rightarrow> bool \<Rightarrow> ('s, jserr, unit) io" where
  "executeProtoSync cv from out template dryRun =
    (if dryRun then executeDryRun cv (with_protocol from) out
     else executeFullSync cv (with_protocol from) out template)"

lemma dry_run_only_reads:
  "executeProtoSync (cv\<lparr>cv_mkdtemp := m, cv_writeFile := w, cv_exec := x, cv_remove := rm\<rparr>) from out template True =
    executeProtoSync cv from out template' True"
  by (simp add: executeProtoSync_def executeDryRun_def fetchReflectionData_def)

lemma temporary_files_are_removed:
  assumes "snd (cv_remove cv dir t) = u"
    and "snd (io_bind (cv_print cv (''Running: buf '' @ js_join '' '' (buf_args (dir @ ''/descriptors.binpb'') out template))) (\<lambda>_.
       io_bind (cv_exec cv (buf_args (dir @ ''/descriptors.binpb'') out template)) (\<lambda>_.
       cv_print cv (''Proto types synced to '' @ out))) s) = t"
    and "cv_print cv (''Connecting to '' @ url @ ''...'') s0 = (Inr (), s1)"
    and "fetchFileDescriptorSetBinary cv url s1 = (Inr bytes, s2)"
    and "cv_print cv (''Fetched '' @ show_nat (length bytes) @ '' bytes of descriptors'') s2 = (Inr (), s3)"
    and "cv_mkdtemp cv s3 = (Inr dir, s4)"
    and "cv_writeFile cv (dir @ ''/descriptors.binpb'') bytes s4 = (Inr (), s)"
  shows "snd (executeFullSync cv url out template s0) = u"
  using assms by (simp add: executeFullSync_def io_bind_def io_finally_runs Let_def)

end
