(* ===== verification/Testing.thy ===== *)
theory Testing
  imports Prelude Connect Descriptors LocalTransport "HOL-Library.Multiset" "HOL-Library.List_Lexorder" "HOL-Library.Char_ord"
    "HOL-Library.Product_Lexorder"
begin

text \<open>
  packages/testing: the mock resolver and context, the test server, the collectors of telemetry and the parity
  test, which runs one scenario over HTTP and in process and compares what came out. A server, a transport and an
  exporter are parameters; attribute names are not array indexes, so an object keeps the order in which they were set.
\<close>

section \<open>Mock resolver (testing/src/mockResolver.ts)\<close>

record ('d, 'i) mock_service =
  mk_typeName :: string
  mk_service :: 'd
  mk_impl :: 'i

definition tagMockResponse :: "('s, 'm) interceptor" where
  "tagMockResponse next r = io_bind (next r) (\<lambda>p.
    io_bind (io_lift (hd_set ''x-connectum-mock'' ''true'' (rs_header p))) (\<lambda>h. io_return (p\<lparr>rs_header := h\<rparr>)))"

fun mock_transports :: "('s, 'm, 'd \<times> 'i, 't) router_transport \<Rightarrow> ('d, 'i) mock_service list \<Rightarrow> (string, 't) omap \<Rightarrow>
    jserr + (string, 't) omap" where
  "mock_transports createRouterTransport [] transports = Inr transports"
| "mock_transports createRouterTransport (mock # mocks) transports =
    (if om_has transports (mk_typeName mock) then Inl (plain_error (''mockResolver: duplicate mock service '' @ mk_typeName mock))
     else mock_transports createRouterTransport mocks
       (om_set (mk_typeName mock) (createRouterTransport (mk_service mock, mk_impl mock) [tagMockResponse] []) transports))"

definition mockResolver :: "('s, 'm, 'd \<times> 'i, 't) router_transport \<Rightarrow> ('d, 'i) mock_service list \<Rightarrow> jserr + (string \<Rightarrow> 't option)" where
  "mockResolver createRouterTransport mocks =
    res_bind (mock_transports createRouterTransport mocks []) (\<lambda>transports. Inr (om_get transports))"

lemma mock_transports_ok:
  "mock_transports router mocks ts = Inr ts' \<longleftrightarrow>
    distinct (map mk_typeName mocks) \<and> (\<forall>m \<in> set mocks. \<not> om_has ts (mk_typeName m)) \<and>
    ts' = fold (\<lambda>m. om_set (mk_typeName m) (router (mk_service m, mk_impl m) [tagMockResponse] [])) mocks ts"
proof (induction router mocks ts rule: mock_transports.induct)
  case (2 router mock mocks ts)
  have "(\<forall>m \<in> set mocks. mk_typeName m \<noteq> mk_typeName mock) \<longleftrightarrow> mk_typeName mock \<notin> mk_typeName ` set mocks" unfolding image_iff by (simp add: eq_commute)
  then show ?case using 2 by (auto simp: omap_simps)
qed auto

lemma fold_om_set_other: "t \<notin> k ` set ms \<Longrightarrow> om_get (fold (\<lambda>m. om_set (k m) (v m)) ms ts) t = om_get ts t"
  by (induction ms arbitrary: ts) (auto simp: omap_simps)

lemma fold_om_set_member: "distinct (map k ms) \<Longrightarrow> m \<in> set ms \<Longrightarrow> om_get (fold (\<lambda>m. om_set (k m) (v m)) ms ts) (k m) = Some (v m)"
proof (induction ms arbitrary: ts)
  case (Cons a ms)
  then show ?case using fold_om_set_other[of "k a" k ms v "om_set (k a) (v a) ts"] by auto
qed simp

theorem mock_resolver_serves_exactly_the_mocks:
  assumes "mockResolver router mocks = Inr resolve"
  shows "distinct (map mk_typeName mocks) \<and>
    (\<forall>m \<in> set mocks. resolve (mk_typeName m) = Some (router (mk_service m, mk_impl m) [tagMockResponse] [])) \<and>
    (\<forall>t. t \<notin> mk_typeName ` set mocks \<longrightarrow> resolve t = None)"
proof -
  obtain ts where ts: "mock_transports router mocks [] = Inr ts" "resolve = om_get ts"
    using assms by (auto simp: mockResolver_def res_bind_eq_Inr)
  note ok = ts(1)[unfolded mock_transports_ok]
  then show ?thesis
    by (auto simp: ts(2) fold_om_set_member[where k=mk_typeName] fold_om_set_other[where k=mk_typeName])
qed

section \<open>Mock context (testing/src/mockContext.ts)\<close>

record ('i, 'd, 'impl) mock_context_options =
  mo_catalog :: catalog
  mo_mocks :: "('d, 'impl) mock_service list"
  mo_outgoingInterceptors :: "'i list option"
  mo_requestHeader :: "headers option"
  mo_timeoutMs :: "int option"
  mo_propagateHeaders :: "string list option"

definition firstServiceAndMethod :: "catalog \<Rightarrow> jserr + desc_service \<times> desc_method" where
  "firstServiceAndMethod cat = (case cat of
      [] \<Rightarrow> Inl (plain_error ''createMockContext: catalog must contain at least one service.'')
    | (typeName, service) # _ \<Rightarrow> (case ds_methods service of
        [] \<Rightarrow> Inl (plain_error (''createMockContext: service '' @ typeName @ '' has no methods.''))
      | m # _ \<Rightarrow> Inr (service, m)))"

definition mock_url :: "desc_service \<Rightarrow> desc_method \<Rightarrow> string" where
  "mock_url service m = ''https://mock/'' @ ds_typeName service @ ''/'' @ dm_name m"

definition createMockContext :: "('s, 'm, 'd \<times> 'impl, 't) router_transport \<Rightarrow>
    (catalog \<Rightarrow> (string \<Rightarrow> 't option) \<Rightarrow> 'i list option \<Rightarrow> string list option \<Rightarrow> jserr + 'server) \<Rightarrow>
    (desc_service \<Rightarrow> desc_method \<Rightarrow> string \<Rightarrow> headers option \<Rightarrow> int option \<Rightarrow> jserr + 'hctx) \<Rightarrow>
    ('server \<Rightarrow> 'hctx \<Rightarrow> 'ctx) \<Rightarrow> ('i, 'd, 'impl) mock_context_options \<Rightarrow> jserr + 'ctx" where
  "createMockContext createRouterTransport createServer createHandlerContext makeCatalogContext options =
    res_bind (firstServiceAndMethod (mo_catalog options)) (\<lambda>(service, m).
    res_bind (mockResolver createRouterTransport (mo_mocks options)) (\<lambda>resolver.
    res_bind (createServer (mo_catalog options) resolver (mo_outgoingInterceptors options) (mo_propagateHeaders options)) (\<lambda>server.
    res_bind (createHandlerContext service m (mock_url service m) (mo_requestHeader options) (mo_timeoutMs options)) (\<lambda>hctx.
    Inr (makeCatalogContext server hctx)))))"

section \<open>Test server (testing/src/test-server.ts)\<close>

record ('s, 'o, 'srv, 't) test_env =
  tv_createServer :: "'o \<Rightarrow> ('s, jserr, 'srv) io"
  tv_start :: "'srv \<Rightarrow> ('s, jserr, unit) io"
  tv_stop :: "'srv \<Rightarrow> ('s, jserr, unit) io"
  tv_port :: "'srv \<Rightarrow> ('s, jserr, nat option) io"
  tv_createGrpcTransport :: "string \<Rightarrow> ('s, jserr, 't) io"

record ('srv, 't) test_server =
  tt_transport :: 't
  tt_baseUrl :: string
  tt_port :: nat
  tt_server :: 'srv

definition base_url :: "nat \<Rightarrow> string" where
  "base_url port = ''http://localhost:'' @ show_nat port"

definition assigned_port :: "('s, 'o, 'srv, 't) test_env \<Rightarrow> string \<Rightarrow> 'srv \<Rightarrow> ('s, jserr, nat) io" where
  "assigned_port tv msg server = io_bind (tv_port tv server) (\<lambda>port. case port of
      Some (Suc p) \<Rightarrow> io_return (Suc p) | _ \<Rightarrow> io_throw (plain_error msg))"

definition createTestServer :: "('s, 'o, 'srv, 't) test_env \<Rightarrow> 'o \<Rightarrow> ('s, jserr, ('srv, 't) test_server) io" where
  "createTestServer tv options = io_bind (tv_createServer tv options) (\<lambda>server.
    io_bind (tv_start tv server) (\<lambda>_.
    io_bind (io_catch (assigned_port tv ''Server started but no port was assigned'' server)
      (\<lambda>err. io_bind (tv_stop tv server) (\<lambda>_. io_throw err))) (\<lambda>port.
    io_bind (tv_createGrpcTransport tv (base_url port)) (\<lambda>transport.
    io_return \<lparr>tt_transport = transport, tt_baseUrl = base_url port, tt_port = port, tt_server = server\<rparr>))))"

definition close_test_server :: "('s, 'o, 'srv, 't) test_env \<Rightarrow> ('srv, 't) test_server \<Rightarrow> ('s, jserr, unit) io" where
  "close_test_server tv server = tv_stop tv (tt_server server)"

definition withTestServer :: "('s, 'o, 'srv, 't) test_env \<Rightarrow> 'o \<Rightarrow> (('srv, 't) test_server \<Rightarrow> ('s, jserr, 'a) io) \<Rightarrow> ('s, jserr, 'a) io" where
  "withTestServer tv options testFn = io_bind (createTestServer tv options) (\<lambda>server.
    io_finally (testFn server) (close_test_server tv server))"

lemma test_server_is_closed:
  assumes "createTestServer tv options s = (Inr server, s')"
  shows "snd (withTestServer tv options testFn s) = snd (close_test_server tv server (snd (testFn server s')))"
  using assms by (simp add: withTestServer_def io_bind_def io_finally_runs)

lemma server_without_port_is_stopped:
  assumes "tv_createServer tv options s = (Inr server, s1)" and "tv_start tv server s1 = (Inr (), s2)"
    and "tv_port tv server s2 = (Inr port, s3)" and "port = None \<or> port = Some 0"
  shows "\<exists>e. createTestServer tv options s = (Inl e, snd (tv_stop tv server s3))"
  using assms
  by (cases "tv_stop tv server s3"; cases "fst (tv_stop tv server s3)")
    (auto simp: createTestServer_def assigned_port_def io_bind_def io_catch_def)

section \<open>Collectors (testing/src/otel-collectors.ts)\<close>

type_synonym 'v attributes = "(string, 'v) omap"

definition normalizeAttributes :: "'v attributes option \<Rightarrow> string \<Rightarrow> 'v attributes" where
  "normalizeAttributes attrs dropKey = (case attrs of None \<Rightarrow> []
    | Some a \<Rightarrow> map (\<lambda>k. (k, the (om_get a k))) (filter (\<lambda>k. k \<noteq> dropKey) (sort (om_keys a))))"

record 'v span_event =
  se_name :: string
  se_attributes :: "'v attributes option"

record 'v readable_span =
  rd_name :: string
  rd_kind :: nat
  rd_attributes :: "'v attributes"
  rd_events :: "'v span_event list"
  rd_status :: "nat \<times> string option"
  rd_traceId :: string
  rd_spanId :: string
  rd_parentSpanId :: "string option"

record 'v normalized_span =
  ns_name :: string
  ns_kind :: nat
  ns_attributes :: "'v attributes"
  ns_events :: "(string \<times> 'v attributes) list"
  ns_status :: "nat \<times> string option"
  ns_traceId :: string
  ns_spanId :: string
  ns_parentSpanId :: "string option"

definition TRANSPORT_SPAN_ATTRIBUTE :: string where
  "TRANSPORT_SPAN_ATTRIBUTE = ''connectum.transport''"

definition TRANSPORT_METRIC_ATTRIBUTE :: string where
  "TRANSPORT_METRIC_ATTRIBUTE = ''transport''"

definition normalize_events :: "('v attributes \<Rightarrow> string) \<Rightarrow> 'v span_event list \<Rightarrow> (string \<times> 'v attributes) list" where
  "normalize_events attrsKey evs = sort_key (\<lambda>(name, as). (name, attrsKey as))
    (map (\<lambda>e. (se_name e, normalizeAttributes (se_attributes e) TRANSPORT_SPAN_ATTRIBUTE)) evs)"

definition normalizeSpan :: "('v attributes \<Rightarrow> string) \<Rightarrow> 'v readable_span \<Rightarrow> 'v normalized_span" where
  "normalizeSpan attrsKey span = \<lparr>ns_name = rd_name span, ns_kind = rd_kind span,
    ns_attributes = normalizeAttributes (Some (rd_attributes span)) TRANSPORT_SPAN_ATTRIBUTE,
    ns_events = normalize_events attrsKey (rd_events span), ns_status = rd_status span,
    ns_traceId = rd_traceId span, ns_spanId = rd_spanId span, ns_parentSpanId = rd_parentSpanId span\<rparr>"

record 'v metric_data =
  md_name :: string
  md_description :: string
  md_unit :: string
  md_dataPointType :: nat
  md_dataPoints :: "('v attributes \<times> 'v) list"

record 'v normalized_metric =
  nm_name :: string
  nm_description :: string
  nm_unit :: string
  nm_type :: string
  nm_points :: "('v attributes \<times> 'v) list"

definition normalizeMetric :: "('v attributes \<Rightarrow> string) \<Rightarrow> 'v metric_data \<Rightarrow> 'v normalized_metric" where
  "normalizeMetric attrsKey md = \<lparr>nm_name = md_name md, nm_description = md_description md, nm_unit = md_unit md,
    nm_type = show_nat (md_dataPointType md),
    nm_points = sort_key (\<lambda>(as, v). attrsKey as)
      (map (\<lambda>(as, v). (normalizeAttributes (Some as) TRANSPORT_METRIC_ATTRIBUTE, v)) (md_dataPoints md))\<rparr>"

definition spanSortKey :: "('v attributes \<Rightarrow> string) \<Rightarrow> 'v normalized_span \<Rightarrow> string" where
  "spanSortKey attrsKey s = ns_name s @ '' '' @ show_nat (ns_kind s) @ '' '' @ attrsKey (ns_attributes s)"

definition flush_spans :: "('v attributes \<Rightarrow> string) \<Rightarrow> 'v readable_span list \<Rightarrow> 'v normalized_span list" where
  "flush_spans attrsKey finished = sort_key (spanSortKey attrsKey) (map (normalizeSpan attrsKey) finished)"

definition flush_metrics :: "('v attributes \<Rightarrow> string) \<Rightarrow> 'v metric_data list list list \<Rightarrow> 'v normalized_metric list" where
  "flush_metrics attrsKey resourceMetrics = sort_key nm_name (map (normalizeMetric attrsKey) (concat (concat resourceMetrics)))"

section \<open>Comparison (testing/src/transportParityTest.ts)\<close>

record scenario_error =
  er_code :: json
  er_message :: string
  er_details :: "json option"
  er_metadata :: "(string \<times> string) list option"

record 'v scenario_result =
  sr_response :: "json option"
  sr_responseHeaders :: "(string \<Rightarrow> string option) option"
  sr_trailers :: "(string \<Rightarrow> string option) option"
  sr_error :: "scenario_error option"
  sr_spans :: "'v normalized_span list option"
  sr_metrics :: "'v normalized_metric list option"

record 'v masked_span =
  mp_name :: string
  mp_kind :: nat
  mp_attributes :: "'v attributes"
  mp_events :: "(string \<times> 'v attributes) list"
  mp_status :: "nat \<times> string option"
  mp_hasParent :: bool

definition maskSpanIds :: "'v normalized_span list option \<Rightarrow> 'v masked_span list option" where
  "maskSpanIds spans = map_option (map (\<lambda>s. \<lparr>mp_name = ns_name s, mp_kind = ns_kind s, mp_attributes = ns_attributes s,
    mp_events = ns_events s, mp_status = ns_status s, mp_hasParent = (ns_parentSpanId s \<noteq> None)\<rparr>)) spans"

definition deepStrictEqual :: "'a \<Rightarrow> 'a \<Rightarrow> string \<Rightarrow> jserr + unit" where
  "deepStrictEqual actual expected msg = (if actual = expected then Inr () else Inl (plain_error msg))"

definition defaultCompare :: "'v scenario_result \<Rightarrow> 'v scenario_result \<Rightarrow> jserr + unit" where
  "defaultCompare http local =
    res_bind (deepStrictEqual (sr_response local) (sr_response http) ''response payload mismatch between HTTP and local transports'') (\<lambda>_.
    res_bind (if sr_error http \<noteq> None \<or> sr_error local \<noteq> None
      then deepStrictEqual (sr_error local) (sr_error http) ''error shape mismatch between HTTP and local transports'' else Inr ()) (\<lambda>_.
    res_bind (if sr_responseHeaders http \<noteq> None \<or> sr_responseHeaders local \<noteq> None
      then deepStrictEqual (dflt (sr_responseHeaders local) Map.empty) (dflt (sr_responseHeaders http) Map.empty) ''response headers mismatch''
      else Inr ()) (\<lambda>_.
    res_bind (if sr_trailers http \<noteq> None \<or> sr_trailers local \<noteq> None
      then deepStrictEqual (dflt (sr_trailers local) Map.empty) (dflt (sr_trailers http) Map.empty) ''trailers mismatch''
      else Inr ()) (\<lambda>_.
    res_bind (if sr_spans http \<noteq> None \<or> sr_spans local \<noteq> None
      then deepStrictEqual (maskSpanIds (sr_spans local)) (maskSpanIds (sr_spans http)) ''OTEL spans mismatch (after stripping connectum.transport)''
      else Inr ()) (\<lambda>_.
    if sr_metrics http \<noteq> None \<or> sr_metrics local \<noteq> None
    then deepStrictEqual (sr_metrics local) (sr_metrics http) ''OTEL metrics mismatch (after stripping transport label)'' else Inr ())))))"

section \<open>The parity test\<close>

record ('s, 'o, 'srv, 't, 'sc, 'mc) parity_env =
  pe_test :: "('s, 'o, 'srv, 't) test_env"
  pe_localTransport :: "'srv \<Rightarrow> ('s, jserr, 't) io"
  pe_newSpans :: "('s, jserr, 'sc) io"
  pe_newMetrics :: "('s, jserr, 'mc) io"
  pe_disposeSpans :: "'sc \<Rightarrow> ('s, jserr, unit) io"
  pe_disposeMetrics :: "'mc \<Rightarrow> ('s, jserr, unit) io"

datatype parity_transport = Http | Local

record ('s, 'srv, 't, 'sc, 'mc) run_harness =
  rh_server :: 'srv
  rh_transport :: 't
  rh_baseUrl :: "string option"
  rh_spans :: 'sc
  rh_metrics :: 'mc
  rh_cleanup :: "('s, jserr, unit) io"

definition dispose_collectors :: "('s, 'o, 'srv, 't, 'sc, 'mc) parity_env \<Rightarrow> 'sc \<Rightarrow> 'mc \<Rightarrow> ('s, jserr, unit) io" where
  "dispose_collectors pe spans metrics = io_bind (pe_disposeSpans pe spans) (\<lambda>_. pe_disposeMetrics pe metrics)"

definition setupHttpHarness :: "('s, 'o, 'srv, 't, 'sc, 'mc) parity_env \<Rightarrow> 'o \<Rightarrow> ('s, jserr, ('s, 'srv, 't, 'sc, 'mc) run_harness) io" where
  "setupHttpHarness pe opts = (let tv = pe_test pe in
    io_bind (tv_createServer tv opts) (\<lambda>server.
    io_bind (tv_start tv server) (\<lambda>_.
    io_bind (tv_port tv server) (\<lambda>port.
    if port = None \<or> port = Some 0
    then io_bind (tv_stop tv server) (\<lambda>_. io_throw (plain_error ''HTTP server failed to bind a port''))
    else (let baseUrl = base_url (the port) in
    io_bind (tv_createGrpcTransport tv baseUrl) (\<lambda>transport.
    io_bind (pe_newSpans pe) (\<lambda>spans.
    io_bind (pe_newMetrics pe) (\<lambda>metrics.
    io_return \<lparr>rh_server = server, rh_transport = transport, rh_baseUrl = Some baseUrl, rh_spans = spans, rh_metrics = metrics,
      rh_cleanup = io_finally (tv_stop tv server) (dispose_collectors pe spans metrics)\<rparr>))))))))"

definition setupLocalHarness :: "('s, 'o, 'srv, 't, 'sc, 'mc) parity_env \<Rightarrow> 'o \<Rightarrow> ('s, jserr, ('s, 'srv, 't, 'sc, 'mc) run_harness) io" where
  "setupLocalHarness pe opts =
    io_bind (tv_createServer (pe_test pe) opts) (\<lambda>server.
    io_bind (pe_localTransport pe server) (\<lambda>transport.
    io_bind (pe_newSpans pe) (\<lambda>spans.
    io_bind (pe_newMetrics pe) (\<lambda>metrics.
    io_return \<lparr>rh_server = server, rh_transport = transport, rh_baseUrl = None, rh_spans = spans, rh_metrics = metrics,
      rh_cleanup = dispose_collectors pe spans metrics\<rparr>))))"

type_synonym ('s, 'srv, 't, 'sc, 'mc, 'v) scenario =
  "parity_transport \<Rightarrow> ('s, 'srv, 't, 'sc, 'mc) run_harness \<Rightarrow> ('s, jserr, 'v scenario_result) io"

definition transportParityTest :: "('s, 'o, 'srv, 't, 'sc, 'mc) parity_env \<Rightarrow>
    ('v scenario_result \<Rightarrow> 'v scenario_result \<Rightarrow> jserr + unit) option \<Rightarrow> 'o \<Rightarrow> 'o \<Rightarrow> ('s, 'srv, 't, 'sc, 'mc, 'v) scenario \<Rightarrow>
    ('s, jserr, unit) io" where
  "transportParityTest pe compare httpOpts localOpts scen =
    io_bind (setupHttpHarness pe httpOpts) (\<lambda>httpHarness.
    io_bind (io_finally (scen Http httpHarness) (rh_cleanup httpHarness)) (\<lambda>httpResult.
    io_bind (setupLocalHarness pe localOpts) (\<lambda>localHarness.
    io_bind (io_finally (scen Local localHarness) (rh_cleanup localHarness)) (\<lambda>localResult.
    io_lift (dflt compare defaultCompare httpResult localResult)))))"

lemma parity_cleanup_on_every_path:
  assumes "setupHttpHarness pe httpOpts s = (Inr h, s1)" and "scen Http h s1 = (res, s2)" and "rh_cleanup h s2 = (done, s3)"
    and "res = Inl e \<or> done = Inl e'"
  shows "snd (transportParityTest pe compare httpOpts localOpts scen s) = s3 \<and>
    (\<exists>e. fst (transportParityTest pe compare httpOpts localOpts scen s) = Inl e)"
  using assms by (cases "done") (auto simp: transportParityTest_def io_bind_def io_finally_def)

lemma http_cleanup_stops_server:
  assumes "setupHttpHarness pe opts s = (Inr h, s1)"
  shows "snd (rh_cleanup h t) =
    snd (dispose_collectors pe (rh_spans h) (rh_metrics h) (snd (tv_stop (pe_test pe) (rh_server h) t)))"
  using assms
  by (auto simp: setupHttpHarness_def io_bind_def Let_def io_finally_runs split: prod.splits sum.splits if_splits)

section \<open>What parity depends on\<close>

lemma defaultCompare_iff:
  "defaultCompare a b = Inr () \<longleftrightarrow> sr_response a = sr_response b \<and> sr_error a = sr_error b \<and>
    dflt (sr_responseHeaders a) Map.empty = dflt (sr_responseHeaders b) Map.empty \<and>
    dflt (sr_trailers a) Map.empty = dflt (sr_trailers b) Map.empty \<and>
    maskSpanIds (sr_spans a) = maskSpanIds (sr_spans b) \<and> sr_metrics a = sr_metrics b"
  by (auto simp: defaultCompare_def deepStrictEqual_def maskSpanIds_def)

lemma map_insort_key:
  "(\<And>x. x \<in> insert a (set xs) \<Longrightarrow> f' (g x) = f x) \<Longrightarrow> map g (insort_key f a xs) = insort_key f' (g a) (map g xs)"
  by (induction xs) auto

lemma map_sort_key: "(\<And>x. x \<in> set xs \<Longrightarrow> f' (g x) = f x) \<Longrightarrow> map g (sort_key f xs) = sort_key f' (map g xs)"
proof (induction xs)
  case (Cons a xs)
  then show ?case using map_insort_key[of a "sort_key f xs" f' g f] by simp
qed simp

lemma sort_key_perm:
  assumes "mset xs = mset ys" and "inj_on f (set xs)"
  shows "sort_key f xs = sort_key f ys"
  using sort_key_inj_key_eq[of xs "sort_key f ys" f] assms by simp

lemma normalizeAttributes_cong:
  assumes "om_ok a" and "om_ok b" and "\<And>k. k \<noteq> d \<Longrightarrow> om_get a k = om_get b k"
  shows "normalizeAttributes (Some a) d = normalizeAttributes (Some b) d"
proof -
  have ks: "k \<in> set (om_keys a) \<longleftrightarrow> k \<in> set (om_keys b)" if "k \<noteq> d" for k
    using assms(3)[OF that] om_has_keys[of a k] om_has_keys[of b k] by (simp add: om_has_def)
  have "filter (\<lambda>k. k \<noteq> d) (sort (om_keys a)) = filter (\<lambda>k. k \<noteq> d) (sort (om_keys b))"
  proof (rule sorted_distinct_set_unique)
    show "distinct (filter (\<lambda>k. k \<noteq> d) (sort (om_keys a)))" "distinct (filter (\<lambda>k. k \<noteq> d) (sort (om_keys b)))"
      using assms(1,2) by (simp_all add: om_ok_def om_keys_def)
    show "set (filter (\<lambda>k. k \<noteq> d) (sort (om_keys a))) = set (filter (\<lambda>k. k \<noteq> d) (sort (om_keys b)))" using ks by auto
  qed (simp_all add: sorted_filter[where f=id, simplified])
  then show ?thesis using assms(3) by (auto simp: normalizeAttributes_def)
qed

definition same_but_transport :: "'v readable_span \<Rightarrow> 'v readable_span \<Rightarrow> bool" where
  "same_but_transport a b \<longleftrightarrow> rd_name a = rd_name b \<and> rd_kind a = rd_kind b \<and> rd_status a = rd_status b \<and>
    mset (rd_events a) = mset (rd_events b) \<and> (rd_parentSpanId a = None \<longleftrightarrow> rd_parentSpanId b = None) \<and>
    om_ok (rd_attributes a) \<and> om_ok (rd_attributes b) \<and>
    (\<forall>k. k \<noteq> TRANSPORT_SPAN_ATTRIBUTE \<longrightarrow> om_get (rd_attributes a) k = om_get (rd_attributes b) k)"

definition event_attributes :: "'v readable_span \<Rightarrow> 'v attributes set" where
  "event_attributes s = (\<lambda>e. normalizeAttributes (se_attributes e) TRANSPORT_SPAN_ATTRIBUTE) ` set (rd_events s)"

definition mask_span :: "'v normalized_span \<Rightarrow> 'v masked_span" where
  "mask_span s = \<lparr>mp_name = ns_name s, mp_kind = ns_kind s, mp_attributes = ns_attributes s,
    mp_events = ns_events s, mp_status = ns_status s, mp_hasParent = (ns_parentSpanId s \<noteq> None)\<rparr>"

lemma maskSpanIds_eq: "maskSpanIds (Some l) = Some (map mask_span l)"
  by (simp add: maskSpanIds_def mask_span_def)

lemma normalize_events_perm:
  assumes "mset xs = mset ys" and "inj_on attrsKey ((\<lambda>e. normalizeAttributes (se_attributes e) TRANSPORT_SPAN_ATTRIBUTE) ` set xs)"
  shows "normalize_events attrsKey xs = normalize_events attrsKey ys"
  unfolding normalize_events_def
proof (rule sort_key_perm)
  show "inj_on (\<lambda>(name, as). (name, attrsKey as))
      (set (map (\<lambda>e. (se_name e, normalizeAttributes (se_attributes e) TRANSPORT_SPAN_ATTRIBUTE)) xs))"
    using assms(2) by (auto simp: inj_on_def)
qed (use assms(1) in simp)

lemma normalized_equal_but_transport:
  assumes "same_but_transport a b" and "inj_on attrsKey (event_attributes a)"
  shows "mask_span (normalizeSpan attrsKey a) = mask_span (normalizeSpan attrsKey b)"
proof -
  have "normalizeAttributes (Some (rd_attributes a)) TRANSPORT_SPAN_ATTRIBUTE = normalizeAttributes (Some (rd_attributes b)) TRANSPORT_SPAN_ATTRIBUTE"
    using assms(1) unfolding same_but_transport_def by (intro normalizeAttributes_cong) simp_all
  moreover have "normalize_events attrsKey (rd_events a) = normalize_events attrsKey (rd_events b)"
    using assms unfolding same_but_transport_def event_attributes_def by (intro normalize_events_perm) simp_all
  ultimately show ?thesis using assms(1) by (simp add: mask_span_def normalizeSpan_def same_but_transport_def)
qed

definition masked_key :: "('v attributes \<Rightarrow> string) \<Rightarrow> 'v masked_span \<Rightarrow> string" where
  "masked_key attrsKey m = mp_name m @ '' '' @ show_nat (mp_kind m) @ '' '' @ attrsKey (mp_attributes m)"

lemma masked_flush:
  "maskSpanIds (Some (flush_spans attrsKey spans)) =
    Some (sort_key (masked_key attrsKey) (map (\<lambda>s. mask_span (normalizeSpan attrsKey s)) spans))"
  using map_sort_key[of "map (normalizeSpan attrsKey) spans" "masked_key attrsKey" mask_span "spanSortKey attrsKey"]
  by (simp add: maskSpanIds_eq flush_spans_def masked_key_def spanSortKey_def mask_span_def o_def)


definition example_span :: "string \<Rightarrow> string \<Rightarrow> string \<Rightarrow> string readable_span" where
  "example_span name transport spanId = \<lparr>rd_name = name, rd_kind = 1,
    rd_attributes = [(''rpc.method'', name), (''connectum.transport'', transport)], rd_events = [],
    rd_status = (1, None), rd_traceId = ''t'', rd_spanId = spanId, rd_parentSpanId = None\<rparr>"

definition concat_key :: "string attributes \<Rightarrow> string" where
  "concat_key as = concat (map (\<lambda>(k, v). k @ ''='' @ v @ '';'') as)"


end
