(* ===== verification/Fixtures.thy ===== *)
theory Fixtures
  imports Prelude Connect
begin

text \<open>
  packages/test-fixtures: the mock functions, requests, streams and descriptors and the assertion the tests of the other
  packages share. A mock function is its implementation and the list of the calls it got, which stands in front of
  the world. Regular expressions and timers are parameters; an assertion that fails is an error.
\<close>

section \<open>assertions.ts\<close>

datatype message_pattern = TextPattern string | RegExpPattern "string \<Rightarrow> bool"

definition text_in :: "string \<Rightarrow> string \<Rightarrow> bool" where
  "text_in p s \<longleftrightarrow> (\<exists>i \<in> set [0..<Suc (length s)]. take (length p) (drop i s) = p)"

definition assertion_error :: "string \<Rightarrow> jserr" where
  "assertion_error msg = plain_error (''AssertionError: '' @ msg)"

definition assertConnectError :: "jserr option \<Rightarrow> int \<Rightarrow> message_pattern option \<Rightarrow> jserr + unit" where
  "assertConnectError error expectedCode messagePattern =
    (case error of
      None \<Rightarrow> Inl (assertion_error ''Expected ConnectError but got another value'')
    | Some err \<Rightarrow>
        if \<not> is_connect_error err then Inl (assertion_error ''Expected ConnectError but got another value'')
        else if je_code err \<noteq> Some expectedCode then Inl (assertion_error ''Expected another ConnectError code'')
        else if messagePattern \<noteq> None \<and> length (je_message err) > 1000
          then Inl (assertion_error ''ConnectError message is unexpectedly long, refusing to match pattern'')
        else (let haystack = take 1000 (je_message err) in case messagePattern of
            Some (TextPattern p) \<Rightarrow> if text_in p haystack then Inr () else Inl (assertion_error ''ConnectError message does not include the text'')
          | Some (RegExpPattern test) \<Rightarrow> if test haystack then Inr () else Inl (assertion_error ''ConnectError message does not match'')
          | None \<Rightarrow> Inr ()))"

section \<open>fake-service.ts\<close>

record fake_method =
  fm_name :: string
  fm_localName :: string
  fm_parent :: string
  fm_methodKind :: string

record fake_service =
  fs_typeName :: string
  fs_name :: string
  fs_methods :: "fake_method list"
  fs_method :: "(string, fake_method) omap"

definition last_segment :: "string \<Rightarrow> string" where
  "last_segment typeName = last (js_split (CHR ''.'') typeName)"

definition lower_first :: "string \<Rightarrow> string" where
  "lower_first name = (case name of [] \<Rightarrow> [] | c # cs \<Rightarrow> js_lower_char c # cs)"

definition createFakeService :: "string option \<Rightarrow> string option \<Rightarrow> fake_service" where
  "createFakeService optTypeName optName = (let typeName = dflt optTypeName ''test.v1.TestService'' in
    \<lparr>fs_typeName = typeName, fs_name = dflt optName (last_segment typeName), fs_methods = [], fs_method = []\<rparr>)"

definition createFakeMethod :: "fake_service \<Rightarrow> string \<Rightarrow> string option \<Rightarrow> bool \<Rightarrow> fake_method \<times> fake_service" where
  "createFakeMethod service name methodKind register =
    (let m = \<lparr>fm_name = name, fm_localName = lower_first name, fm_parent = fs_typeName service, fm_methodKind = dflt methodKind ''unary''\<rparr>
     in (m, if register then service\<lparr>fs_methods := fs_methods service @ [m],
          fs_method := om_set (fm_localName m) m (fs_method service)\<rparr> else service))"

section \<open>mock-compat.ts and mock-next.ts\<close>

definition createMockFn :: "('a \<Rightarrow> ('s, jserr, 'b) io) \<Rightarrow> 'a \<Rightarrow> ('a list \<times> 's, jserr, 'b) io" where
  "createMockFn impl args = (\<lambda>(calls, s). case impl args s of (res, s') \<Rightarrow> (res, (calls @ [args], s')))"

definition callCount :: "'a list \<times> 's \<Rightarrow> nat" where
  "callCount st = length (fst st)"

definition createMockNext :: "bool option \<Rightarrow> 'm option \<Rightarrow> 'm \<Rightarrow> 'a \<Rightarrow> ('a list \<times> 's, jserr, bool \<times> 'm) io" where
  "createMockNext optStream optMessage success =
    (let stream = dflt optStream False; baseMessage = dflt optMessage success
     in createMockFn (\<lambda>_. io_return (stream, baseMessage)))"

definition createMockNextError :: "int \<Rightarrow> string option \<Rightarrow> 'a \<Rightarrow> ('a list \<times> 's, jserr, bool \<times> 'm) io" where
  "createMockNextError code msg = createMockFn (\<lambda>_. io_throw (connect_error (dflt msg ''Mock error'') code))"

definition createMockNextSlow :: "('s, jserr, unit) io \<Rightarrow> bool option \<Rightarrow> 'm option \<Rightarrow> 'm \<Rightarrow> 'a \<Rightarrow> ('a list \<times> 's, jserr, bool \<times> 'm) io" where
  "createMockNextSlow sleep optStream optMessage success =
    createMockFn (\<lambda>_. io_bind sleep (\<lambda>_. io_return (dflt optStream False, dflt optMessage success)))"

section \<open>mock-request.ts and mock-stream.ts\<close>

record 'm mock_request =
  mr_service :: string
  mr_method :: string
  mr_message :: 'm
  mr_stream :: bool
  mr_url :: string
  mr_header :: headers

definition DEFAULT_SERVICE :: string where
  "DEFAULT_SERVICE = ''test.TestService''"

definition DEFAULT_METHOD :: string where
  "DEFAULT_METHOD = ''TestMethod''"

definition createMockRequest :: "string option \<Rightarrow> string option \<Rightarrow> 'm option \<Rightarrow> 'm \<Rightarrow> bool option \<Rightarrow> string option \<Rightarrow> headers option \<Rightarrow> 'm mock_request" where
  "createMockRequest service methodOpt msg emptyMessage stream url hdrs =
    (let serviceName = dflt service DEFAULT_SERVICE; methodName = dflt methodOpt DEFAULT_METHOD
     in \<lparr>mr_service = serviceName, mr_method = methodName, mr_message = dflt msg emptyMessage, mr_stream = dflt stream False,
         mr_url = dflt url (''http://localhost/'' @ serviceName @ ''/'' @ methodName), mr_header = dflt hdrs []\<rparr>)"

definition mock_stream_next :: "(int \<Rightarrow> ('s, jserr, unit) io) \<Rightarrow> int option \<Rightarrow> ('v list \<times> 's, jserr, 'v option) io" where
  "mock_stream_next sleep delayMs = (\<lambda>(rest, s). case rest of
      [] \<Rightarrow> (Inr None, ([], s))
    | item # items \<Rightarrow>
       (case (case delayMs of Some d \<Rightarrow> if d > 0 then sleep d else io_return () | None \<Rightarrow> io_return ()) s of
          (Inl e, s') \<Rightarrow> (Inl e, ([], s'))
        | (Inr _, s') \<Rightarrow> (Inr (Some item), (items, s'))))"

section \<open>mock-desc.ts\<close>

record mock_field =
  mf_name :: string
  mf_scalar :: nat
  mf_number :: nat
  mf_redact :: bool

record mock_message =
  mg_typeName :: string
  mg_name :: string
  mg_fields :: "mock_field list"
  mg_field :: "(string, mock_field) omap"
  mg_oneofs :: "string list"
  mg_file :: string

record mock_method =
  mm_name :: string
  mm_localName :: string
  mm_methodKind :: string
  mm_input :: mock_message
  mm_output :: mock_message
  mm_redact :: bool

definition scalars :: "(string, nat) omap" where
  "scalars = [(''double'', 1), (''float'', 2), (''int64'', 3), (''uint64'', 4), (''int32'', 5), (''fixed64'', 6), (''fixed32'', 7),
    (''bool'', 8), (''string'', 9), (''bytes'', 12), (''uint32'', 13), (''sfixed32'', 15), (''sfixed64'', 16), (''sint32'', 17), (''sint64'', 18)]"

definition mapTypeToScalar :: "string \<Rightarrow> nat" where
  "mapTypeToScalar t = dflt (om_get scalars t) 9"

definition createMockDescField :: "string \<Rightarrow> string option \<Rightarrow> nat option \<Rightarrow> bool \<Rightarrow> mock_field" where
  "createMockDescField localName t fieldNumber isSensitive =
    \<lparr>mf_name = localName, mf_scalar = mapTypeToScalar (dflt t ''string''), mf_number = dflt fieldNumber 1, mf_redact = isSensitive\<rparr>"

definition createMockDescMessage :: "string \<Rightarrow> (string \<times> string option \<times> nat option) list \<Rightarrow> string list \<Rightarrow> mock_message" where
  "createMockDescMessage typeName optFields oneofs =
    (let flds = map (\<lambda>(i, name, t, n). createMockDescField name t (Some (dflt n (i + 1))) False) (enumerate 0 optFields)
     in \<lparr>mg_typeName = typeName, mg_name = last_segment typeName, mg_fields = flds,
         mg_field = fold (\<lambda>f. om_set (mf_name f) f) flds [], mg_oneofs = oneofs,
         mg_file = map (\<lambda>c. if c = CHR ''.'' then CHR ''/'' else c) typeName @ ''.proto''\<rparr>)"

definition createMockDescMethod :: "string \<Rightarrow> mock_message option \<Rightarrow> mock_message option \<Rightarrow> string option \<Rightarrow> bool \<Rightarrow> mock_method" where
  "createMockDescMethod name input output kind useSensitiveRedaction =
    (let defaultInput = createMockDescMessage (''test.'' @ name @ ''Request'') [] [];
         defaultOutput = createMockDescMessage (''test.'' @ name @ ''Response'') [] []
     in \<lparr>mm_name = name, mm_localName = lower_first name, mm_methodKind = dflt kind ''unary'', mm_input = dflt input defaultInput,
         mm_output = dflt output defaultOutput, mm_redact = useSensitiveRedaction\<rparr>)"

section \<open>What a test may rely on\<close>

lemma assertConnectError_iff:
  "assertConnectError (Some err) code pat = Inr () \<longleftrightarrow>
    is_connect_error err \<and> je_code err = Some code \<and>
    (case pat of None \<Rightarrow> True
     | Some (TextPattern p) \<Rightarrow> length (je_message err) \<le> 1000 \<and> text_in p (je_message err)
     | Some (RegExpPattern test) \<Rightarrow> length (je_message err) \<le> 1000 \<and> test (je_message err))"
  by (auto simp: assertConnectError_def Let_def split: option.splits message_pattern.splits)

fun run_calls :: "('a \<Rightarrow> ('s, jserr, 'b) io) \<Rightarrow> 'a list \<Rightarrow> 's \<Rightarrow> (jserr + 'b) list \<times> 's" where
  "run_calls f [] s = ([], s)"
| "run_calls f (a # as) s = (case f a s of (res, s') \<Rightarrow> (case run_calls f as s' of (rest, t) \<Rightarrow> (res # rest, t)))"

lemma mock_function_records_calls:
  "run_calls (createMockFn impl) as (calls, s) = (case run_calls impl as s of (res, t) \<Rightarrow> (res, (calls @ as, t)))"
  by (induction as arbitrary: calls s) (auto simp: createMockFn_def split: prod.splits)

lemma registered_methods_are_found:
  "createFakeMethod service name kind True = (m, service') \<Longrightarrow>
    om_get (fs_method service') (lower_first name) = Some m \<and> last (fs_methods service') = m"
  by (auto simp: createFakeMethod_def Let_def)

lemma mock_fields_numbered:
  assumes "i < length fs" and "fs ! i = (name, t, n)"
  shows "mg_fields (createMockDescMessage typeName fs oneofs) ! i =
    createMockDescField name t (Some (dflt n (i + 1))) False"
  using assms by (simp add: createMockDescMessage_def Let_def nth_enumerate_eq)

end
