(* ===== verification/ReleaseNotes.thy ===== *)
theory ReleaseNotes
  imports Prelude Descriptors "HOL-Library.List_Lexorder" "HOL-Library.Char_ord"
begin

text \<open>
  scripts/build-release-notes.mjs, which puts the change logs of all packages together, and
  scripts/stabilize-api-source-links.mjs. A package is its directory with the texts of its two files, if they are
  there; the package name in a package.json is a parameter. The notes are a list of lines.
\<close>

abbreviation newline :: char where
  "newline \<equiv> CHR 0x0A"

section \<open>Arguments\<close>

definition OPTS_WITH_VALUE :: "string list" where
  "OPTS_WITH_VALUE = [''--packages-dir'', ''--highlights'']"

fun getOpt :: "string list \<Rightarrow> string \<Rightarrow> string \<Rightarrow> string" where
  "getOpt [] name fallback = fallback"
| "getOpt (a # args) name fallback = (if a = name
    then (case args of v # _ \<Rightarrow> if v \<noteq> [] then v else fallback | [] \<Rightarrow> fallback)
    else getOpt args name fallback)"

fun positionals :: "string list \<Rightarrow> string list" where
  "positionals [] = []"
| "positionals (a # args) =
    (if a \<in> set OPTS_WITH_VALUE then positionals (drop 1 args)
     else if prefix ''--'' a then positionals args else a # positionals args)"

section \<open>Texts\<close>

function stripHtmlComments :: "string \<Rightarrow> string" where
  "stripHtmlComments input = (case find_sub ''<!--'' input of
      None \<Rightarrow> input
    | Some opn \<Rightarrow> take opn input @ (case find_sub ''-->'' (drop (opn + 4) input) of
        None \<Rightarrow> []
      | Some cls \<Rightarrow> stripHtmlComments (drop (opn + 4 + cls + 3) input)))"
  by pat_completeness auto

lemma find_sub_at: "find_sub seg xs = Some i \<Longrightarrow> i + length seg \<le> length xs"
proof (induction seg xs arbitrary: i rule: find_sub.induct)
  case (2 seg x xs)
  show ?case
  proof (cases "prefix seg (x # xs)")
    case True
    then show ?thesis using 2 by (auto dest: prefix_length_le)
  next
    case False
    then show ?thesis using 2 by auto
  qed
qed (auto split: if_splits)

termination stripHtmlComments
  by (relation "measure length") (auto dest!: find_sub_at)

definition starts_section :: "string \<Rightarrow> bool" where
  "starts_section l \<longleftrightarrow> prefix ''## '' l \<and> length l > 3 \<and> \<not> js_space (l ! 3)"

definition extractVersionSection :: "string \<Rightarrow> string \<Rightarrow> string option" where
  "extractVersionSection changelog ver =
    (case dropWhile (\<lambda>l. js_trim l \<noteq> ''## '' @ ver) (js_split newline changelog) of
      [] \<Rightarrow> None
    | _ # rest \<Rightarrow> Some (js_join [newline] (takeWhile (\<lambda>l. \<not> starts_section l) rest)))"

record note_entry =
  ne_category :: "string option"
  ne_text :: string

definition CATEGORIES :: "string list" where
  "CATEGORIES = [''Major Changes'', ''Minor Changes'', ''Patch Changes'']"

definition trim_end :: "string \<Rightarrow> string" where
  "trim_end s = rev (dropWhile js_space (rev s))"

definition word_char :: "char \<Rightarrow> bool" where
  "word_char c \<longleftrightarrow> (let n = of_char c :: nat in 48 \<le> n \<and> n \<le> 57 \<or> 65 \<le> n \<and> n \<le> 90 \<or> 97 \<le> n \<and> n \<le> 122 \<or> n = 95)"

definition updated_dependencies :: "string \<Rightarrow> bool" where
  "updated_dependencies text \<longleftrightarrow> (let p = ''- Updated dependencies'' in
    prefix p text \<and> (length text > length p \<longrightarrow> \<not> word_char (text ! length p)))"

record parse_state =
  ps_category :: "string option"
  ps_buf :: "string list option"
  ps_entries :: "note_entry list"

definition flush_entry :: "parse_state \<Rightarrow> parse_state" where
  "flush_entry s = (case ps_buf s of
      None \<Rightarrow> s
    | Some buf \<Rightarrow> (let text = trim_end (js_join [newline] buf) in
        s\<lparr>ps_buf := None, ps_entries := ps_entries s @
          (if js_trim text \<noteq> [] \<and> \<not> updated_dependencies text then [\<lparr>ne_category = ps_category s, ne_text = text\<rparr>] else [])\<rparr>))"

definition parse_line :: "string \<Rightarrow> parse_state \<Rightarrow> parse_state" where
  "parse_line line s = (case find (\<lambda>c. js_trim line = ''### '' @ c) CATEGORIES of
      Some cat \<Rightarrow> (flush_entry s)\<lparr>ps_category := Some cat\<rparr>
    | None \<Rightarrow> if prefix ''- '' line then (flush_entry s)\<lparr>ps_buf := Some [line]\<rparr>
        else (case ps_buf s of Some buf \<Rightarrow> s\<lparr>ps_buf := Some (buf @ [line])\<rparr> | None \<Rightarrow> s))"

definition parseEntries :: "string \<Rightarrow> note_entry list" where
  "parseEntries section = ps_entries (flush_entry (fold parse_line (js_split newline section)
    \<lparr>ps_category = None, ps_buf = None, ps_entries = []\<rparr>))"

section \<open>Collecting\<close>

record package_dir =
  pk_dir :: string
  pk_changelog :: "string option"
  pk_json :: "string option"

record note_group =
  ng_entry :: note_entry
  ng_pkgs :: "string list"
  ng_order :: nat

record collected_notes =
  cn_perPackage :: "(string, note_entry list) omap"
  cn_groups :: "(string, note_group) omap"
  cn_order :: nat

definition entry_key :: "note_entry \<Rightarrow> string" where
  "entry_key e = js_trim (ne_text e)"

definition add_entry :: "string \<Rightarrow> note_entry \<Rightarrow> collected_notes \<Rightarrow> collected_notes" where
  "add_entry pkgName e st =
    (let key = entry_key e;
         st1 = (if om_has (cn_groups st) key then st
           else st\<lparr>cn_groups := om_set key \<lparr>ng_entry = e, ng_pkgs = [], ng_order = cn_order st\<rparr> (cn_groups st), cn_order := cn_order st + 1\<rparr>)
     in (case om_get (cn_groups st1) key of
        Some g \<Rightarrow> st1\<lparr>cn_groups := om_set key
          (g\<lparr>ng_pkgs := (if pkgName \<in> set (ng_pkgs g) then ng_pkgs g else ng_pkgs g @ [pkgName])\<rparr>) (cn_groups st1)\<rparr>
      | None \<Rightarrow> st1))"

definition package_entries :: "string \<Rightarrow> package_dir \<Rightarrow> (string \<times> note_entry list) option" where
  "package_entries version pk = (case (pk_changelog pk, pk_json pk) of
      (Some changelog, Some name) \<Rightarrow> (case extractVersionSection changelog version of
          None \<Rightarrow> None
        | Some section \<Rightarrow> (let entries = parseEntries section in if entries = [] then None else Some (name, entries)))
    | _ \<Rightarrow> None)"

definition add_package :: "string \<times> note_entry list \<Rightarrow> collected_notes \<Rightarrow> collected_notes" where
  "add_package = (\<lambda>(pkgName, entries) st.
    fold (add_entry pkgName) entries (st\<lparr>cn_perPackage := om_set pkgName entries (cn_perPackage st)\<rparr>))"

definition no_notes :: collected_notes where
  "no_notes = \<lparr>cn_perPackage = [], cn_groups = [], cn_order = 0\<rparr>"

definition collect_notes :: "string \<Rightarrow> package_dir list \<Rightarrow> collected_notes" where
  "collect_notes version pks = fold add_package
    (List.map_filter (package_entries version) (sort_key pk_dir pks)) no_notes"

section \<open>Assembling\<close>

definition shared_groups :: "collected_notes \<Rightarrow> note_group list" where
  "shared_groups st = sort_key ng_order (filter (\<lambda>g. length (ng_pkgs g) \<ge> 2) (map snd (cn_groups st)))"

definition sharedKeys :: "collected_notes \<Rightarrow> string list" where
  "sharedKeys st = map fst (filter (\<lambda>(k, g). length (ng_pkgs g) \<ge> 2) (cn_groups st))"

function collapse_newlines :: "string \<Rightarrow> string" where
  "collapse_newlines (a # b # c # s) =
    (if a = newline \<and> b = newline \<and> c = newline then newline # newline # collapse_newlines (dropWhile (\<lambda>x. x = newline) s)
     else a # collapse_newlines (b # c # s))"
| "collapse_newlines [] = []"
| "collapse_newlines [a] = [a]"
| "collapse_newlines [a, b] = [a, b]"
  by pat_completeness auto
termination by (relation "measure length") (auto simp: le_imp_less_Suc length_dropWhile_le less_SucI)

definition highlights_lines :: "string option \<Rightarrow> string list" where
  "highlights_lines highlights = (case highlights of
      None \<Rightarrow> []
    | Some text \<Rightarrow> (let hl = js_trim (collapse_newlines (stripHtmlComments text)) in
        if hl \<noteq> [] then [''## Highlights'', [], hl, []] else []))"

definition affects_line :: "note_group \<Rightarrow> string" where
  "affects_line g = (let pkgs = sort (ng_pkgs g) in
    ''  _Affects: '' @ js_join '', '' pkgs @ '' ('' @ show_nat (length pkgs) @ '' packages)._'')"

definition shared_lines :: "collected_notes \<Rightarrow> string list" where
  "shared_lines st = (if shared_groups st = [] then [] else
    [''## Repo-wide changes'', [], ''These changeset entries appear identically across multiple packages and are listed once.'', []] @
    concat (map (\<lambda>g. [ne_text (ng_entry g), [], affects_line g, []]) (shared_groups st)))"

definition unique_entries :: "collected_notes \<Rightarrow> note_entry list \<Rightarrow> note_entry list" where
  "unique_entries st entries = filter (\<lambda>e. entry_key e \<notin> set (sharedKeys st)) entries"

definition category_title :: "string \<Rightarrow> string" where
  "category_title cat = take (length cat - length '' Changes'') cat"

definition category_lines :: "note_entry list \<Rightarrow> string \<Rightarrow> string list" where
  "category_lines unique cat = (let inCat = filter (\<lambda>e. ne_category e = Some cat) unique in
    if inCat = [] then [] else [''**'' @ category_title cat @ ''**'', []] @ concat (map (\<lambda>e. [ne_text e, []]) inCat))"

definition package_lines :: "collected_notes \<Rightarrow> string \<Rightarrow> string \<Rightarrow> string list" where
  "package_lines st version pkgName =
    (let unique = unique_entries st (dflt (om_get (cn_perPackage st) pkgName) []) in
     [''### '' @ pkgName @ ''@'' @ version, []] @
     (if unique = [] then [''No package-specific changes beyond the repo-wide items above.'', []]
      else concat (map (category_lines unique) CATEGORIES)))"

definition notes_lines :: "string \<Rightarrow> string option \<Rightarrow> collected_notes \<Rightarrow> string list" where
  "notes_lines version highlights st = highlights_lines highlights @ shared_lines st @ [''## Package changes'', []] @
    concat (map (package_lines st version) (sort (om_keys (cn_perPackage st))))"

definition release_notes :: "string \<Rightarrow> string option \<Rightarrow> package_dir list \<Rightarrow> string" where
  "release_notes version highlights pks =
    trim_end (collapse_newlines (js_join [newline] (notes_lines version highlights (collect_notes version pks)))) @ [newline]"

text \<open>The script as a whole: no version on the command line ends it with exit code 2.\<close>

definition build_release_notes :: "(string \<Rightarrow> package_dir list) \<Rightarrow> (string \<Rightarrow> string option) \<Rightarrow> string list \<Rightarrow> nat + string" where
  "build_release_notes readPackages readHighlights args = (case positionals args of
      version # _ \<Rightarrow> if version \<noteq> []
        then Inr (release_notes version (readHighlights (getOpt args ''--highlights'' ''.github/RELEASE_HIGHLIGHTS.md''))
          (readPackages (getOpt args ''--packages-dir'' ''packages'')))
        else Inl 2
    | [] \<Rightarrow> Inl 2)"

section \<open>Links (stabilize-api-source-links.mjs)\<close>

definition STABLE :: string where
  "STABLE = ''/blob/main/''"

definition hex_digit :: "char \<Rightarrow> bool" where
  "hex_digit c \<longleftrightarrow> (let n = of_char c :: nat in 48 \<le> n \<and> n \<le> 57 \<or> 97 \<le> n \<and> n \<le> 102)"

definition sha_link :: "string \<Rightarrow> bool" where
  "sha_link s \<longleftrightarrow> prefix ''/blob/'' s \<and> length s \<ge> 47 \<and> list_all hex_digit (take 40 (drop 6 s)) \<and> s ! 46 = CHR ''/''"

function replace_links :: "string \<Rightarrow> string" where
  "replace_links [] = []"
| "replace_links (c # s) = (if sha_link (c # s) then STABLE @ replace_links (drop 47 (c # s)) else c # replace_links s)"
  by pat_completeness auto
termination by (relation "measure length") auto

datatype doc_tree = DocFile string | DocDir "(string \<times> doc_tree) list"

fun markdownFiles :: "string \<Rightarrow> doc_tree \<Rightarrow> (string \<times> string) list" where
  "markdownFiles path (DocFile text) = (if suffix ''.md'' path then [(path, text)] else [])"
| "markdownFiles path (DocDir entries) = concat (map (\<lambda>(name, t). markdownFiles (path @ ''/'' @ name) t) entries)"

definition stabilize :: "(string \<times> string) list \<Rightarrow> (string \<times> string) list \<times> nat \<times> nat" where
  "stabilize files = (let writes = filter (\<lambda>(f, before). replace_links before \<noteq> before) files
    in (map (\<lambda>(f, before). (f, replace_links before)) writes, length writes, length files))"

section \<open>Every entry is listed\<close>

definition pairs_of :: "(string \<times> note_entry list) list \<Rightarrow> (string \<times> string) set" where
  "pairs_of ps = {(p, entry_key e) | p es e. (p, es) \<in> set ps \<and> e \<in> set es}"

definition groups_ok :: "(string \<times> string) set \<Rightarrow> collected_notes \<Rightarrow> bool" where
  "groups_ok S st \<longleftrightarrow> om_ok (cn_groups st) \<and>
    (\<forall>k. (om_get (cn_groups st) k = None \<longrightarrow> (\<forall>p. (p, k) \<notin> S)) \<and>
      (\<forall>g. om_get (cn_groups st) k = Some g \<longrightarrow> entry_key (ng_entry g) = k \<and> distinct (ng_pkgs g) \<and>
        set (ng_pkgs g) = {p. (p, k) \<in> S} \<and> ng_pkgs g \<noteq> []))"

lemma add_entry_ok:
  assumes "groups_ok S st"
  shows "groups_ok (insert (p, entry_key e) S) (add_entry p e st) \<and> cn_perPackage (add_entry p e st) = cn_perPackage st"
proof (cases "om_get (cn_groups st) (entry_key e)")
  case None
  then have "\<not> om_has (cn_groups st) (entry_key e)" by (simp add: om_has_def)
  then show ?thesis using assms None by (auto simp: groups_ok_def add_entry_def Let_def)
next
  case (Some g)
  then have "om_has (cn_groups st) (entry_key e)" by (simp add: om_has_def)
  then show ?thesis using assms Some by (auto simp: groups_ok_def add_entry_def Let_def)
qed

lemma add_entries_ok:
  "groups_ok S st \<Longrightarrow> groups_ok ({(p, entry_key e) | e. e \<in> set es} \<union> S) (fold (add_entry p) es st) \<and>
    cn_perPackage (fold (add_entry p) es st) = cn_perPackage st"
proof (induction es arbitrary: S st)
  case (Cons e es)
  have "{(p, entry_key x) | x. x \<in> set (e # es)} \<union> S = {(p, entry_key x) | x. x \<in> set es} \<union> insert (p, entry_key e) S" by auto
  then show ?case using Cons.IH[of "insert (p, entry_key e) S" "add_entry p e st"] add_entry_ok[OF Cons.prems, of p e] by simp
qed simp

lemma add_packages_ok:
  "groups_ok S st \<Longrightarrow> groups_ok (pairs_of ps \<union> S) (fold add_package ps st) \<and>
    (distinct (map fst ps) \<longrightarrow> (\<forall>p. om_get (cn_perPackage (fold add_package ps st)) p =
      (case map_of ps p of Some es \<Rightarrow> Some es | None \<Rightarrow> om_get (cn_perPackage st) p)))"
proof (induction ps arbitrary: S st)
  case Nil
  then show ?case by (simp add: pairs_of_def)
next
  case (Cons a ps)
  obtain p es where a: "a = (p, es)" by (cases a)
  define st1 where "st1 = add_package (p, es) st"
  have "groups_ok S (st\<lparr>cn_perPackage := om_set p es (cn_perPackage st)\<rparr>)" using Cons.prems by (simp add: groups_ok_def)
  from add_entries_ok[OF this, of p es]
  have st1: "groups_ok ({(p, entry_key e) | e. e \<in> set es} \<union> S) st1" "cn_perPackage st1 = om_set p es (cn_perPackage st)"
    by (simp_all add: st1_def add_package_def)
  have "pairs_of (a # ps) \<union> S = pairs_of ps \<union> ({(p, entry_key e) | e. e \<in> set es} \<union> S)"
    by (auto simp: pairs_of_def a)
  moreover have "p \<notin> fst ` set ps \<Longrightarrow> map_of ps p = None" by (simp add: map_of_eq_None_iff)
  ultimately show ?case
    using Cons.IH[OF st1(1)] by (auto simp: a st1_def[symmetric] st1(2) split: option.split)
qed

definition dated_packages :: "string \<Rightarrow> package_dir list \<Rightarrow> (string \<times> note_entry list) list" where
  "dated_packages version pks = List.map_filter (package_entries version) (sort_key pk_dir pks)"

lemma collected_ok:
  assumes "distinct (map fst (dated_packages version pks))"
  shows "groups_ok (pairs_of (dated_packages version pks)) (collect_notes version pks)"
    and "(p, es) \<in> set (dated_packages version pks) \<Longrightarrow> om_get (cn_perPackage (collect_notes version pks)) p = Some es"
proof -
  have "groups_ok {} no_notes" by (simp add: groups_ok_def no_notes_def)
  note ok = add_packages_ok[OF this, of "dated_packages version pks"]
  show "groups_ok (pairs_of (dated_packages version pks)) (collect_notes version pks)"
    using ok by (simp add: collect_notes_def dated_packages_def)
  show "om_get (cn_perPackage (collect_notes version pks)) p = Some es" if "(p, es) \<in> set (dated_packages version pks)"
    using ok assms that map_of_is_SomeI[OF assms that] by (simp add: collect_notes_def dated_packages_def)
qed

lemma two_elements: "distinct xs \<Longrightarrow> x \<in> set xs \<Longrightarrow> length xs \<ge> 2 \<longleftrightarrow> (\<exists>y \<in> set xs. y \<noteq> x)"
proof (cases xs)
  case (Cons a ys)
  moreover assume "distinct xs" "x \<in> set xs"
  ultimately show ?thesis by (cases ys) auto
qed simp

text \<open>The release notes list every entry of every package once: an entry that several packages have stands among
  the repo-wide changes, in a group that names each of these packages, and in no package section; any other entry
  of a known category stands in the section of its package.\<close>
theorem release_notes_list_every_entry:
  assumes "distinct (map fst (dated_packages version pks))"
    and "(p, es) \<in> set (dated_packages version pks)" and "e \<in> set es"
  shows "(entry_key e \<in> set (sharedKeys (collect_notes version pks)) \<longleftrightarrow>
      (\<exists>q es' e'. (q, es') \<in> set (dated_packages version pks) \<and> e' \<in> set es' \<and> q \<noteq> p \<and> entry_key e' = entry_key e)) \<and>
    (if entry_key e \<in> set (sharedKeys (collect_notes version pks))
     then e \<notin> set (unique_entries (collect_notes version pks) es) \<and>
       (\<exists>g \<in> set (shared_groups (collect_notes version pks)). entry_key (ng_entry g) = entry_key e \<and> p \<in> set (ng_pkgs g) \<and>
         ne_text (ng_entry g) \<in> set (notes_lines version highlights (collect_notes version pks)))
     else (\<forall>cat. ne_category e = Some cat \<and> cat \<in> set CATEGORIES \<longrightarrow>
       ne_text e \<in> set (package_lines (collect_notes version pks) version p)))"
proof -
  define st where "st = collect_notes version pks"
  define S where "S = pairs_of (dated_packages version pks)"
  have ok: "groups_ok S st" and per: "om_get (cn_perPackage st) p = Some es"
    using collected_ok[OF assms(1)] assms(2) by (simp_all add: st_def S_def)
  have inS: "(q, k) \<in> S \<longleftrightarrow> (\<exists>es' e'. (q, es') \<in> set (dated_packages version pks) \<and> e' \<in> set es' \<and> entry_key e' = k)" for q k
    by (auto simp: S_def pairs_of_def)
  have pe: "(p, entry_key e) \<in> S" using assms(2,3) inS by blast
  then obtain g where g: "om_get (cn_groups st) (entry_key e) = Some g"
    using ok by (cases "om_get (cn_groups st) (entry_key e)") (auto simp: groups_ok_def)
  then have gs: "entry_key (ng_entry g) = entry_key e" "distinct (ng_pkgs g)" "set (ng_pkgs g) = {q. (q, entry_key e) \<in> S}"
    using ok by (auto simp: groups_ok_def)
  have mem: "(entry_key e, g) \<in> set (cn_groups st)" using g by (auto simp: om_get_def dest: map_of_SomeD)
  have shared: "entry_key e \<in> set (sharedKeys st) \<longleftrightarrow> length (ng_pkgs g) \<ge> 2"
  proof
    assume "entry_key e \<in> set (sharedKeys st)"
    then obtain g' where "(entry_key e, g') \<in> set (cn_groups st)" "length (ng_pkgs g') \<ge> 2" by (auto simp: sharedKeys_def)
    then show "length (ng_pkgs g) \<ge> 2" using ok g by (auto simp: groups_ok_def om_ok_def om_get_def)
  qed (use mem in \<open>force simp: sharedKeys_def\<close>)
  have iff: "length (ng_pkgs g) \<ge> 2 \<longleftrightarrow> (\<exists>q. (q, entry_key e) \<in> S \<and> q \<noteq> p)"
    using two_elements[OF gs(2), of p] pe gs(3) by auto
  have grp: "g \<in> set (shared_groups st)" if "length (ng_pkgs g) \<ge> 2"
    using mem that by (force simp: shared_groups_def)
  have lns: "ne_text (ng_entry g) \<in> set (notes_lines version highlights st)" if "length (ng_pkgs g) \<ge> 2"
    using grp[OF that] by (auto simp: notes_lines_def shared_lines_def)
  have "ne_text e \<in> set (package_lines st version p)"
    if "entry_key e \<notin> set (sharedKeys st)" "ne_category e = Some cat" "cat \<in> set CATEGORIES" for cat
  proof -
    have "e \<in> set (unique_entries st es)" using that assms(3) by (simp add: unique_entries_def)
    moreover then have "ne_text e \<in> set (category_lines (unique_entries st es) cat)"
      using that by (auto simp: category_lines_def Let_def filter_empty_conv)
    ultimately show ?thesis using that(3) per by (auto simp: package_lines_def Let_def dflt_def)
  qed
  moreover have "(\<exists>q. (q, entry_key e) \<in> S \<and> q \<noteq> p) \<longleftrightarrow>
      (\<exists>q es' e'. (q, es') \<in> set (dated_packages version pks) \<and> e' \<in> set es' \<and> q \<noteq> p \<and> entry_key e' = entry_key e)"
    using inS by blast
  moreover have "e \<notin> set (unique_entries st es)" if "entry_key e \<in> set (sharedKeys st)"
    using that by (simp add: unique_entries_def)
  moreover have "p \<in> set (ng_pkgs g)" using pe gs(3) by simp
  ultimately show ?thesis
    unfolding st_def[symmetric] using shared iff grp lns gs(1) by metis
qed

text \<open>The comment above stripHtmlComments says that no comment marker survives; one does when removing a comment joins
  the two halves of a marker.\<close>
lemma comment_marker_survives:
  "stripHtmlComments ''<!<!--a-->-- b'' = ''<!-- b''"
  by (simp add: prefix_def)

lemma text_without_comments_is_kept: "find_sub ''<!--'' s = None \<Longrightarrow> stripHtmlComments s = s"
  by (subst stripHtmlComments.simps) simp

end
