(* ===== verification/ReleaseGate.thy ===== *)
theory ReleaseGate
  imports Prelude Connect Descriptors
begin

text \<open>
  scripts/release-gate: the checks of the packed packages before a release. run.mjs installs them and
  runs the checks of fixture/checks one after the other. Processes, the file system and the import of a module are
  parameters; the TypeScript compiler's part of oracle.mjs is the report it leaves for the other checks.
\<close>

section \<open>The orchestrator (run.mjs)\<close>

definition PKGS :: "string list" where
  "PKGS = [''core'', ''auth'', ''interceptors'', ''healthcheck'', ''protoc-gen-catalog'', ''reflection'', ''cli'', ''otel'',
    ''testing'', ''test-fixtures'', ''events'', ''events-nats'', ''events-kafka'', ''events-redis'', ''events-amqp'']"

fun gate_arg :: "string \<Rightarrow> string list \<Rightarrow> string option" where
  "gate_arg name [] = None"
| "gate_arg name (a # argv) = (if a = ''--'' @ name then (case argv of v # _ \<Rightarrow> Some v | [] \<Rightarrow> None) else gate_arg name argv)"

definition digit_char :: "char \<Rightarrow> bool" where
  "digit_char c \<longleftrightarrow> (of_char c :: nat) \<in> {48..57}"

definition tarball_of :: "string \<Rightarrow> string \<Rightarrow> bool" where
  "tarball_of p f \<longleftrightarrow> (let pre = ''connectum-'' @ p @ ''-'' in
    prefix pre f \<and> length pre < length f \<and> digit_char (f ! length pre))"

definition quoted :: "string \<Rightarrow> string" where
  "quoted s = CHR 0x27 # s @ [CHR 0x27]"

definition override_line :: "string \<Rightarrow> string \<Rightarrow> string" where
  "override_line p target = ''  '' @ quoted (''@connectum/'' @ p) @ '': '' @ quoted target"

definition preview_lines :: "string \<Rightarrow> string list" where
  "preview_lines ref = map (\<lambda>p. override_line p
    (''https://pkg.pr.new/Connectum-Framework/connectum/@connectum/'' @ p @ ''@'' @ ref)) PKGS"

fun pack_lines :: "string list \<Rightarrow> string \<Rightarrow> string list \<Rightarrow> jserr + string list" where
  "pack_lines tarballs tarDir [] = Inr []"
| "pack_lines tarballs tarDir (p # ps) = (case find (tarball_of p) tarballs of
      None \<Rightarrow> Inl (plain_error (''no tarball produced for @connectum/'' @ p))
    | Some hit \<Rightarrow> res_bind (pack_lines tarballs tarDir ps) (\<lambda>ls.
        Inr (override_line p (''file:'' @ tarDir @ ''/'' @ hit) # ls)))"

type_synonym 's shell = "string \<Rightarrow> string list \<Rightarrow> ('s, jserr, nat) io"

definition must :: "('s, jserr, nat) io \<Rightarrow> string \<Rightarrow> ('s, jserr, unit) io" where
  "must m msg = io_bind m (\<lambda>status. if status \<noteq> 0 then io_throw (plain_error msg) else io_return ())"

definition override_lines :: "'s shell \<Rightarrow> ('s, jserr, string list) io \<Rightarrow> string \<Rightarrow> string option \<Rightarrow> string option \<Rightarrow> ('s, jserr, string list) io" where
  "override_lines sh listTarballs tarDir mode ref =
    (if dflt mode ''preview'' = ''preview'' then (case ref of
        Some r \<Rightarrow> if r \<noteq> [] then io_return (preview_lines r) else io_throw (plain_error ''--mode preview requires --ref'')
      | None \<Rightarrow> io_throw (plain_error ''--mode preview requires --ref''))
     else if dflt mode ''preview'' = ''pack'' then
       io_bind (must (sh ''pnpm'' [''-w'', ''build'']) ''workspace build failed'') (\<lambda>_.
       io_bind (io_for (\<lambda>p. must (sh ''pnpm'' [''pack'', ''--pack-destination'', tarDir, p]) (''pnpm pack failed for '' @ p)) PKGS) (\<lambda>_.
       io_bind listTarballs (\<lambda>tarballs. io_lift (pack_lines tarballs tarDir PKGS))))
     else io_throw (plain_error ''unknown --mode''))"

definition gate_checks :: "(string \<times> string list) list" where
  "gate_checks = [(''export-map + .d.ts graph (oracle)'', [''checks/oracle.mjs'']),
    (''value-export completeness'', [''checks/completeness.mjs'']), (''runtime importability'', [''checks/runtime-import.mjs'']),
    (''node: builtin prefixes'', [''checks/builtins.mjs'']), (''consumer usage type-check'', [''checks/usage-typecheck.mjs'']),
    (''behavioral smoke'', [''src/smoke.ts''])]"

fun run_checks :: "'s shell \<Rightarrow> (string \<times> string list) list \<Rightarrow> ('s, jserr, string list) io" where
  "run_checks sh [] = io_return []"
| "run_checks sh ((label, args) # checks) = io_bind (sh ''node'' args) (\<lambda>status.
    io_bind (run_checks sh checks) (\<lambda>failed. io_return (if status \<noteq> 0 then label # failed else failed)))"

definition release_gate :: "'s shell \<Rightarrow> ('s, jserr, string list) io \<Rightarrow> (string list \<Rightarrow> ('s, jserr, unit) io) \<Rightarrow> string \<Rightarrow> string list \<Rightarrow>
    ('s, jserr, nat) io" where
  "release_gate sh listTarballs writeWorkspace tarDir argv =
    io_bind (override_lines sh listTarballs tarDir (gate_arg ''mode'' argv) (gate_arg ''ref'' argv)) (\<lambda>overrideLines.
    io_bind (writeWorkspace overrideLines) (\<lambda>_.
    io_bind (must (sh ''pnpm'' [''install'', ''--no-frozen-lockfile'']) ''consumer install failed'') (\<lambda>_.
    io_bind (must (sh ''pnpm'' [''exec'', ''buf'', ''generate'']) ''catalog codegen (buf generate) failed'') (\<lambda>_.
    io_bind (run_checks sh gate_checks) (\<lambda>failed. io_return (if failed = [] then 0 else 1))))))"

section \<open>Export maps (fixture/checks/oracle.mjs)\<close>

record installed_package =
  ip_name :: string
  ip_exports :: "json option"

record export_spec =
  xs_spec :: string
  xs_candidates :: "string list"
  xs_resolved :: bool

fun collect_targets :: "json \<Rightarrow> string list" where
  "collect_targets (JStr s) = [s]"
| "collect_targets (JObj kvs) = concat (map (\<lambda>(k, v). collect_targets v) kvs)"
| "collect_targets (JArr vs) = concat (map collect_targets vs)"
| "collect_targets v = []"

definition spec_name :: "string \<Rightarrow> string \<Rightarrow> string" where
  "spec_name pkg key = (if key = ''.'' then ''@connectum/'' @ pkg else ''@connectum/'' @ pkg @ ''/'' @ drop 2 key)"

definition export_entries :: "json option \<Rightarrow> (string \<times> json) list option" where
  "export_entries e = (case e of
      Some (JObj kvs) \<Rightarrow> Some kvs
    | Some (JArr vs) \<Rightarrow> Some (zip (map show_nat [0..<length vs]) vs)
    | _ \<Rightarrow> None)"

definition package_specs :: "(string \<Rightarrow> string \<Rightarrow> bool) \<Rightarrow> installed_package \<Rightarrow> export_spec list" where
  "package_specs existsIn p = (case export_entries (ip_exports p) of
      Some kvs \<Rightarrow> map (\<lambda>(key, cond). let candidates = collect_targets cond in
          \<lparr>xs_spec = spec_name (ip_name p) key, xs_candidates = candidates,
           xs_resolved = list_all (existsIn (ip_name p)) candidates\<rparr>)
        (filter (\<lambda>(key, cond). key \<noteq> ''./package.json'') kvs)
    | _ \<Rightarrow> [])"

definition export_findings :: "(string \<Rightarrow> string \<Rightarrow> bool) \<Rightarrow> installed_package \<Rightarrow> string list" where
  "export_findings existsIn p = (case export_entries (ip_exports p) of
      Some kvs \<Rightarrow> map (\<lambda>s. xs_spec s @ '': export target(s) missing on disk: '' @
          js_join '', '' (filter (\<lambda>c. \<not> existsIn (ip_name p) c) (xs_candidates s)))
        (filter (\<lambda>s. \<not> xs_resolved s) (package_specs existsIn p))
    | _ \<Rightarrow> [''@connectum/'' @ ip_name p @ '': NO exports map''])"

definition oracle_exit :: "(string \<Rightarrow> string \<Rightarrow> bool) \<Rightarrow> installed_package list \<Rightarrow> nat \<Rightarrow> nat" where
  "oracle_exit existsIn pkgs tsErrors =
    (if tsErrors \<noteq> 0 \<or> concat (map (export_findings existsIn) pkgs) \<noteq> [] \<or>
        filter (\<lambda>s. \<not> xs_resolved s) (concat (map (package_specs existsIn) pkgs)) \<noteq> [] then 1 else 0)"

section \<open>Declared and real exports (completeness.mjs, runtime-import.mjs, allowlist.mjs)\<close>

definition IMPORT_EXCEPTIONS :: "string list" where
  "IMPORT_EXCEPTIONS = [''@connectum/cli'', ''@connectum/protoc-gen-catalog'']"

definition importExceptionReason :: "string \<Rightarrow> bool" where
  "importExceptionReason spec \<longleftrightarrow> spec \<in> set IMPORT_EXCEPTIONS"

record export_info =
  xi_resolved :: bool
  xi_values :: "string list"
  xi_types :: "string list"

datatype delta = ImportThrew string | ValueNotInRuntime string "string list" | ValueDeclaredTypeOnly string "string list"

type_synonym 's importer = "string \<Rightarrow> ('s, jserr, string list) io"

definition spec_deltas :: "string \<Rightarrow> export_info \<Rightarrow> jserr + string list \<Rightarrow> delta list" where
  "spec_deltas spec info r = (case r of
      Inl e \<Rightarrow> [ImportThrew spec]
    | Inr runtimeKeys \<Rightarrow>
       (let dropped = filter (\<lambda>n. n \<notin> set runtimeKeys) (xi_values info);
            mislabeled = filter (\<lambda>n. n \<in> set runtimeKeys) (xi_types info)
        in (if dropped \<noteq> [] then [ValueNotInRuntime spec dropped] else []) @
           (if mislabeled \<noteq> [] then [ValueDeclaredTypeOnly spec mislabeled] else [])))"

fun completeness_deltas :: "'s importer \<Rightarrow> (string \<times> export_info) list \<Rightarrow> 's \<Rightarrow> delta list \<times> 's" where
  "completeness_deltas imp [] s = ([], s)"
| "completeness_deltas imp ((spec, info) # exports) s =
    (if importExceptionReason spec \<or> \<not> xi_resolved info then completeness_deltas imp exports s
     else (case imp spec s of (r, s') \<Rightarrow> (case completeness_deltas imp exports s' of (ds, t) \<Rightarrow> (spec_deltas spec info r @ ds, t))))"

definition import_fails :: "(string \<Rightarrow> export_info option) \<Rightarrow> string \<Rightarrow> jserr + string list \<Rightarrow> bool" where
  "import_fails report spec r = (case r of
      Inl e \<Rightarrow> True
    | Inr keys \<Rightarrow> keys = [] \<and> (case report spec of Some info \<Rightarrow> xi_values info \<noteq> [] | None \<Rightarrow> True))"

fun runtime_import_failures :: "'s importer \<Rightarrow> (string \<Rightarrow> export_info option) \<Rightarrow> string list \<Rightarrow> 's \<Rightarrow> nat \<times> 's" where
  "runtime_import_failures imp report [] s = (0, s)"
| "runtime_import_failures imp report (spec # specs) s =
    (if importExceptionReason spec then runtime_import_failures imp report specs s
     else (case imp spec s of (r, s') \<Rightarrow> (case runtime_import_failures imp report specs s' of
        (n, t) \<Rightarrow> (n + (if import_fails report spec r then 1 else 0), t))))"

section \<open>Built-in modules without their prefix (builtins.mjs)\<close>

definition PREFIX_ONLY :: "string list" where
  "PREFIX_ONLY = [''test'', ''test/reporters'', ''sqlite'', ''sea'']"

definition quote_char :: "char \<Rightarrow> bool" where
  "quote_char c \<longleftrightarrow> c = CHR 0x22 \<or> c = CHR 0x27"

definition opening_call :: "string \<Rightarrow> string \<Rightarrow> string option" where
  "opening_call word s = (if prefix word s
    then (case dropWhile js_space (drop (length word) s) of
        c # t \<Rightarrow> if c = CHR ''('' then Some (dropWhile js_space t) else None
      | [] \<Rightarrow> None)
    else None)"

definition opener :: "string \<Rightarrow> string option" where
  "opener s = (if prefix ''from'' s then Some (dropWhile js_space (drop 4 s))
    else (case opening_call ''import'' s of Some t \<Rightarrow> Some t | None \<Rightarrow> opening_call ''require'' s))"

definition bare_at :: "string \<Rightarrow> string option" where
  "bare_at s = (case opener s of
      Some (q # t) \<Rightarrow> if quote_char q
        then find (\<lambda>b. prefix b t \<and> length b < length t \<and> quote_char (t ! length b)) PREFIX_ONLY else None
    | _ \<Rightarrow> None)"

text \<open>The matches of bareRe in a text. They cannot overlap, because none of the words of an opener occurs in the
  names, so looking at every position finds the same matches as going on behind each.\<close>

fun bare_matches :: "string \<Rightarrow> string list" where
  "bare_matches [] = []"
| "bare_matches (c # s) = (case bare_at (c # s) of Some b \<Rightarrow> b # bare_matches s | None \<Rightarrow> bare_matches s)"

datatype file_tree = TextFile string | Directory "(string \<times> file_tree) list"

fun js_entry :: "string \<Rightarrow> bool" where
  "js_entry e \<longleftrightarrow> suffix ''.js'' e \<or> suffix ''.mjs'' e \<or> suffix ''.cjs'' e"

fun jsFiles :: "string \<Rightarrow> (string \<times> file_tree) list \<Rightarrow> (string \<times> string) list" where
  "jsFiles dir [] = []"
| "jsFiles dir ((e, TextFile src) # es) = (if js_entry e then [(dir @ ''/'' @ e, src)] else []) @ jsFiles dir es"
| "jsFiles dir ((e, Directory sub) # es) = (if e \<noteq> ''node_modules'' then jsFiles (dir @ ''/'' @ e) sub else []) @ jsFiles dir es"

definition builtin_hits :: "(string \<times> (string \<times> file_tree) list option) list \<Rightarrow> (string \<times> string \<times> string) list" where
  "builtin_hits pkgs = concat (map (\<lambda>(pkg, dist). case dist of
      None \<Rightarrow> []
    | Some es \<Rightarrow> concat (map (\<lambda>(file, src). map (\<lambda>b. (''@connectum/'' @ pkg, file, b)) (bare_matches src)) (jsFiles (pkg @ ''/dist'') es))) pkgs)"

section \<open>What the gate guarantees\<close>

text \<open>A tarball belongs to one package, although the name of one package is the beginning of another's.\<close>

definition name_clash :: "string \<Rightarrow> string \<Rightarrow> bool" where
  "name_clash p q \<longleftrightarrow> prefix (p @ ''-'') (q @ ''-'') \<and> length p < length q \<and> digit_char ((q @ ''-'') ! Suc (length p))"

lemma no_name_clash: "list_all (\<lambda>p. list_all (\<lambda>q. \<not> name_clash p q) PKGS) PKGS"
  by code_simp

lemma tarball_unambiguous_le:
  assumes "tarball_of p f" and "tarball_of q f" and "length p \<le> length q" and "\<not> name_clash p q"
  shows "p = q"
proof -
  obtain x where x: "f = ''connectum-'' @ p @ ''-'' @ x" using assms(1) by (auto simp: tarball_of_def Let_def prefix_def)
  obtain y where y: "f = ''connectum-'' @ q @ ''-'' @ y" using assms(2) by (auto simp: tarball_of_def Let_def prefix_def)
  have d: "digit_char (f ! (length (''connectum-'' @ p @ ''-'')))" using assms(1) by (simp add: tarball_of_def Let_def)
  have eq: "p @ ''-'' @ x = q @ ''-'' @ y" using x y by simp
  have pre: "prefix (p @ ''-'') (q @ ''-'')"
  proof (rule prefix_length_prefix)
    show "prefix (p @ ''-'') (p @ ''-'' @ x)" by simp
    show "prefix (q @ ''-'') (p @ ''-'' @ x)" unfolding eq by simp
  qed (use assms(3) in simp)
  show ?thesis
  proof (cases "length p = length q")
    case True
    then show ?thesis using eq by simp
  next
    case False
    then have "(q @ ''-'' @ y) ! Suc (length p) = (q @ ''-'') ! Suc (length p)" using assms(3) by (simp add: nth_append)
    moreover have "f ! (length (''connectum-'' @ p @ ''-'')) = (q @ ''-'' @ y) ! Suc (length p)" using y by simp
    ultimately show ?thesis using assms(3,4) False pre d by (simp add: name_clash_def)
  qed
qed

theorem tarball_unambiguous:
  assumes "p \<in> set PKGS" and "q \<in> set PKGS" and "tarball_of p f" and "tarball_of q f"
  shows "p = q"
proof (cases "length p \<le> length q")
  case True
  then show ?thesis using tarball_unambiguous_le[OF assms(3,4)] no_name_clash assms(1,2) by (simp add: list_all_iff)
next
  case False
  then show ?thesis using tarball_unambiguous_le[OF assms(4,3)] no_name_clash assms(1,2) by (simp add: list_all_iff)
qed

lemma spec_deltas_empty:
  "spec_deltas spec info r = [] \<longleftrightarrow>
    (\<exists>keys. r = Inr keys \<and> set (xi_values info) \<subseteq> set keys \<and> set (xi_types info) \<inter> set keys = {})"
  by (cases r) (auto simp: spec_deltas_def Let_def filter_empty_conv)

lemma completeness_deltas_pure:
  assumes "\<And>spec s. imp spec s = (r spec, s)"
  shows "completeness_deltas imp exports s = (concat (map (\<lambda>(spec, info).
    if importExceptionReason spec \<or> \<not> xi_resolved info then [] else spec_deltas spec info (r spec)) exports), s)"
  by (induction exports) (auto simp: assms)

theorem completeness_is_agreement:
  assumes "\<And>spec s. imp spec s = (r spec, s)"
  shows "fst (completeness_deltas imp exports s) = [] \<longleftrightarrow>
    (\<forall>(spec, info) \<in> set exports. importExceptionReason spec \<or> \<not> xi_resolved info \<or>
      (\<exists>keys. r spec = Inr keys \<and> set (xi_values info) \<subseteq> set keys \<and> set (xi_types info) \<inter> set keys = {}))"
  unfolding completeness_deltas_pure[OF assms] fst_conv concat_eq_Nil_conv set_map Ball_image_comp o_def
  by (intro ball_cong) (auto simp: spec_deltas_empty split: prod.split)

lemma export_findings_iff:
  "concat (map (export_findings existsIn) pkgs) = [] \<longleftrightarrow>
    (\<forall>p \<in> set pkgs. export_entries (ip_exports p) \<noteq> None \<and> list_all xs_resolved (package_specs existsIn p))"
proof -
  have "export_findings existsIn p = [] \<longleftrightarrow>
      export_entries (ip_exports p) \<noteq> None \<and> list_all xs_resolved (package_specs existsIn p)" for p
    by (auto simp: export_findings_def list_all_iff filter_empty_conv split: option.split)
  then show ?thesis by simp
qed

lemma run_checks_iff:
  "run_checks sh checks s = (Inr [], s') \<Longrightarrow> check \<in> set checks \<Longrightarrow> \<exists>t t'. sh ''node'' (snd check) t = (Inr 0, t')"
proof (induction checks arbitrary: s)
  case (Cons a checks)
  obtain label args where a: "a = (label, args)" by (cases a)
  from Cons.prems(1) obtain t where t: "sh ''node'' args s = (Inr 0, t)" "run_checks sh checks t = (Inr [], s')"
    by (auto simp: a io_bind_def split: prod.splits sum.splits if_splits)
  then show ?case using Cons by (cases "check = a") (auto simp: a)
qed simp

theorem gate_passes_only_if_all_checks_pass:
  assumes "release_gate sh listTarballs writeWorkspace tarDir argv s = (Inr 0, s')" and "check \<in> set gate_checks"
  shows "\<exists>t t'. sh ''node'' (snd check) t = (Inr 0, t')"
proof -
  from assms(1) obtain u where "run_checks sh gate_checks u = (Inr [], s')"
    by (auto simp: release_gate_def io_bind_def split: prod.splits sum.splits if_splits)
  then show ?thesis using assms(2) by (rule run_checks_iff)
qed

lemma bare_matches_iff: "b \<in> set (bare_matches s) \<longleftrightarrow> (\<exists>pre t. s = pre @ t \<and> bare_at t = Some b)"
proof (induction s)
  case Nil
  then show ?case by (simp add: bare_at_def opener_def opening_call_def)
next
  case (Cons c s)
  have "(\<exists>pre t. c # s = pre @ t \<and> bare_at t = Some b) \<longleftrightarrow>
      bare_at (c # s) = Some b \<or> (\<exists>pre t. s = pre @ t \<and> bare_at t = Some b)"
    by (metis append_Cons append_Nil list.inject neq_Nil_conv)
  then show ?case using Cons.IH by (auto split: option.split)
qed

lemma bare_at_import:
  assumes "list_all js_space ws" and "quote_char q" and "quote_char q'" and "b \<in> set PREFIX_ONLY"
  shows "bare_at (''from'' @ ws @ q # b @ q' # post) = Some b"
proof -
  have q: "\<not> js_space q" using assms(2) by (auto simp: quote_char_def js_space_def)
  have "dropWhile js_space (ws @ q # b @ q' # post) = q # b @ q' # post"
    using assms(1) q by (induction ws) auto
  then have o: "opener (''from'' @ ws @ q # b @ q' # post) = Some (q # b @ q' # post)"
    by (simp add: opener_def)
  have "find (\<lambda>x. prefix x (b @ q' # post) \<and> length x < length (b @ q' # post) \<and>
      quote_char ((b @ q' # post) ! length x)) PREFIX_ONLY = Some b"
  proof -
    have "q' = CHR 0x22 \<or> q' = CHR 0x27" using assms(3) by (simp add: quote_char_def)
    moreover have "b \<in> {''test'', ''test/reporters'', ''sqlite'', ''sea''}" using assms(4) by (simp add: PREFIX_ONLY_def)
    ultimately show ?thesis by (elim insertE disjE emptyE) (simp_all add: PREFIX_ONLY_def quote_char_def)
  qed
  then show ?thesis using o assms(2) by (simp add: bare_at_def)
qed

text \<open>When the scan reports nothing, no scanned file of a package imports a prefix-only module by its bare name
  with from.\<close>
theorem no_hits_no_bare_imports:
  assumes "builtin_hits pkgs = []" and "(pkg, Some es) \<in> set pkgs" and "(file, src) \<in> set (jsFiles (pkg @ ''/dist'') es)"
    and "list_all js_space ws" and "quote_char q" and "quote_char q'" and "b \<in> set PREFIX_ONLY"
  shows "src \<noteq> pre @ ''from'' @ ws @ q # b @ q' # post"
proof
  assume "src = pre @ ''from'' @ ws @ q # b @ q' # post"
  then have "b \<in> set (bare_matches src)" using bare_at_import [OF assms(4-7)] bare_matches_iff by blast
  moreover have "bare_matches src = []" using assms(1-3) by (force simp: builtin_hits_def)
  ultimately show False by simp
qed

text \<open>An import for its side effects alone has neither from nor a parenthesis and is not seen.\<close>
lemma side_effect_import_not_seen:
  "bare_matches (''import '' @ [CHR 0x22] @ ''test'' @ [CHR 0x22]) = []"
  "bare_matches (''import x from '' @ [CHR 0x22] @ ''test'' @ [CHR 0x22]) = [''test'']"
  by (code_simp)+

end
