(* ===== verification/Spec2Isabelle.thy ===== *)
theory Spec2Isabelle
  imports Prelude Connect Shutdown ShutdownExec Descriptors Transport Routes ServerLifecycle ServerProps
    Dispatcher StreamBridge Resilience MethodMatch Authz LruCache AuthHeaders Authn Gateway
    Jwt InternalAuth EventTopics EventMiddleware EventBus EventAdapter EventLifecycle
    Amqp AmqpPublish Kafka Nats Redis Otel OtelProvider Health
    Config LocalTransport CatalogContext LogSerialize AuthContext Reflection CatalogGen Cli Testing Fixtures ReleaseNotes ReleaseGate
begin

text \<open>
  Connectum: a verification development of the TypeScript framework for Connect and gRPC services
  under src/packages. The packages are core (a server over the Connect library: shutdown hooks,
  service catalog, transport, lifecycle, calls from one service to another), interceptors (error
  handling, resilience, method filters), auth (authentication and authorization), events (an event
  bus over a broker), events-amqp, events-kafka, events-nats and events-redis (its adapters), otel
  (telemetry of calls and functions), healthcheck, reflection, protoc-gen-catalog, cli, testing and test-fixtures;
  src/scripts holds the scripts of a release.

  How the parts interact. createServer builds routes from service definitions (Routes over
  Descriptors), checks the transport (Transport), listens, and at stop closes the transport and runs
  the hooks of the shutdown manager (ServerLifecycle over Shutdown and ShutdownExec). A handler calls
  other services by a method key (Dispatcher over Descriptors), with client streams through a queue
  (StreamBridge). Every call passes interceptors; the authentication interceptors (Authn, Jwt,
  Gateway, InternalAuth) put a context on the request that the authorization interceptors (Authz)
  decide on. The bus (EventBus) gets events from a broker adapter, finds the handler of the topic
  (EventTopics) and runs it behind its middlewares (EventMiddleware); EventLifecycle is its start and
  stop; Amqp with AmqpPublish, Kafka, Nats and Redis are adapters, each proved with a bus behind it. The
  telemetry interceptors (Otel) wrap a call at both ends.

  Modelling conventions (Prelude, Connect). A computation that may throw and changes its
  surroundings is a function from a world to a sum (left is the thrown value) and the new world; an
  interceptor takes the continuation and a request. The world is a type variable: a statement that
  the continuation does not run is the statement that the world comes back unchanged, or that the
  result does not depend on the continuation. A JavaScript Map is an association list in insertion
  order. Strings are lists of 8-bit characters. Messages of errors are kept without the quotes,
  counters and lists that the source interpolates. Third-party code (the Connect router and
  transports, cockatiel's policies, jose, zod, the protobuf runtime, the brokers) is a parameter;
  what is used of it is a named hypothesis.

  Theories and the code they model:
  \<^item> Prelude, Connect: vocabulary; packages/core/src/errors.ts and localTransport.ts.
  \<^item> Shutdown, ShutdownExec: core/src/ShutdownManager.ts. shutdown_mgr is the manager, addHook its
    registration, executeAll_start the synchronous part of executeAll and exec_step the asynchronous
    part. C1 to C3: the graph stays acyclic, hooks run after their dependencies, every run ends.
  \<^item> Descriptors, Routes, Transport: serviceCatalog.ts, enabledServices.ts, defineService.ts,
    buildRoutes.ts, TransportValidation.ts, TransportManager.ts. C4 to C6.
  \<^item> ServerLifecycle, ServerProps: core/src/Server.ts and gracefulShutdown.ts. srv is the server
    with the pending promises of start and stop as data types; server_step is the step relation of
    application and environment. C7 and C8, with ready_listener_leaves_socket_open.
  \<^item> Dispatcher, StreamBridge: catalogDispatcher.ts, catalogClient.ts, remoteResolver.ts,
    streamBridge.ts. C9 to C11.
  \<^item> Resilience, MethodMatch: packages/interceptors/src. C12,
    with default_chain_order, circuit_breaker_contract and method_filter_runs_matching.
  \<^item> Authz, LruCache, AuthHeaders, Authn, Gateway, Jwt, InternalAuth: packages/auth/src. C13 to
    C20.
  \<^item> EventTopics, EventMiddleware, EventBus, EventLifecycle: packages/events/src. The record bus of EventLifecycle
    holds the flags and suspended promises of start and stop, bus_step is its step relation.
    C21 to C25, with two_stops_during_start_overlap.
  \<^item> Amqp, AmqpPublish: packages/events-amqp/src. amqp_adapter is the state of the adapter, sub_record a
    subscription, publish_job a publication; pub_step is the step relation of publishing.
    C26 to C29.
  \<^item> Kafka: packages/events-kafka/src. C30 and C31.
  \<^item> Nats: packages/events-nats/src. C32, with nats_settles_every_message and nats_event_roundtrip.
  \<^item> Redis: packages/events-redis/src. C33 and C34.
  \<^item> Otel, OtelProvider: packages/otel/src. A span is its start in a log of telemetry; otel_world is that log
    in front of the world. C35 and C36, with
    resource_attribute_precedence and traced_call_observed.
  \<^item> Health: packages/healthcheck/src. C37, with health_endpoints_agree.
  \<^item> Config, LocalTransport, CatalogContext: core/src/config, TLSConfig.ts, localTransport.ts, context.ts and what
    catalogDispatcher.ts and catalogClient.ts give their users; parsed_port_in_range, local_calls_reach_server_chain_marked and
    catalog_client_agrees_with_context.
  \<^item> LogSerialize: the logger and serializer of packages/interceptors; logger_observes_unary_calls, serializer_roundtrip.
  \<^item> AuthContext: auth/src/context.ts and auth/src/testing; auth_storage_is_shared and context_is_scoped.
  \<^item> Reflection, CatalogGen, Cli: the files of the reflection service, the catalog generator and proto sync.
    C38 and C39.
  \<^item> Testing, Fixtures: packages/testing and packages/test-fixtures. C40, with
    test_server_is_closed, parity_cleanup_on_every_path and mock_resolver_serves_exactly_the_mocks.
  \<^item> ReleaseNotes, ReleaseGate: the scripts of scripts; release_notes_list_every_entry, tarball_unambiguous,
    completeness_is_agreement, gate_passes_only_if_all_checks_pass and no_hits_no_bare_imports.

  Interfaces. ordered_map (Prelude) states what is relied on of a Map and is interpreted on the
  association lists; lookup_cache (LruCache) states what authentication relies on of a cache and is
  interpreted on the LRU cache; stripping_source (InternalAuth) states what the internal-auth
  interceptor relies on of a trust source and is interpreted on all three sources; settling_adapter
  (EventAdapter) states what the bus relies on of a broker adapter and is interpreted on those for
  AMQP, Kafka, NATS and Redis, whose settlement properties rest on it.

  Bounds and fuel. The synchronous recursion of executeAll takes the number of modules with edges plus
  two as fuel (executeAll_start_total shows that it suffices on every acyclic graph, and addHook
  keeps the graph acyclic). The retry loop counts the runs it has left, which is maxRetries + 1 at
  the start. Every other recursion is structural or has its termination proved.

  Not modelled: sockets, TLS sessions and child processes (Node), the Connect router, the validator zod (its
  documented laws are hypotheses), the reflection service, the plugin runner, the signing of test tokens, the
  diagnostics of the TypeScript compiler in the release gate and its smoke programs, the
  texts of the transport diagnostics, the getters of the server and the declarations of types that only the
  TypeScript compiler uses (the key maps of the catalog, the shapes of service implementations). Time is only
  what the code compares: the clock is a parameter, a timer is an event of the environment.
\<close>

end
